(* ===== verification/Sops_Prelude.thy ===== *)
theory Sops_Prelude
  imports Main "HOL-Library.Sublist" "HOL-Library.Word"
begin

text \<open>
  Shared vocabulary of the development: the result type of fallible Go functions and its
  sequencing, the string functions of Go's \<open>strings\<close> package that the modelled code calls, and
  the decimal conversions of \<open>strconv\<close>.

  A Go \<open>string\<close> or \<open>[]byte\<close> is the list of its bytes, one \<^typ>\<open>char\<close> for each byte, so
  \<^const>\<open>length\<close> is Go's \<open>len\<close>. A Go function that returns \<open>(T, error)\<close> is a function into
  the sum type \<open>'e + 'a\<close>: \<^const>\<open>Inl\<close> is the error return, \<^const>\<open>Inr\<close> the value. A runtime
  panic is a constructor of the component's error datatype.
\<close>

named_theorems res_simps \<open>sequencing of fallible steps\<close>
named_theorems str_simps \<open>string functions on explicit arguments\<close>

section \<open>Fallible computations\<close>

definition bindE :: "'e + 'a \<Rightarrow> ('a \<Rightarrow> 'e + 'b) \<Rightarrow> 'e + 'b" where
  "bindE m f = (case m of Inl e \<Rightarrow> Inl e | Inr a \<Rightarrow> f a)"

lemma bindE_Inl [simp]: "bindE (Inl e) f = Inl e"
  by (simp add: bindE_def)

lemma bindE_Inr [simp]: "bindE (Inr a) f = f a"
  by (simp add: bindE_def)

lemma bindE_eq_Inr [res_simps]: "bindE m f = Inr b \<longleftrightarrow> (\<exists>a. m = Inr a \<and> f a = Inr b)"
  by (simp add: bindE_def split: sum.split)

lemma bindE_eq_Inl [res_simps]:
  "bindE m f = Inl e \<longleftrightarrow> m = Inl e \<or> (\<exists>a. m = Inr a \<and> f a = Inl e)"
  by (simp add: bindE_def split: sum.split)

lemma isl_bindE [res_simps]: "isl (bindE m f) \<longleftrightarrow> isl m \<or> (\<exists>a. m = Inr a \<and> isl (f a))"
  by (cases m) auto

lemma not_isl_iff: "\<not> isl m \<longleftrightarrow> (\<exists>a. m = Inr a)"
  by (cases m) auto

lemma bindE_InrE [elim!]:
  assumes "bindE m f = Inr b"
  obtains a where "m = Inr a" and "f a = Inr b"
  using assms by (auto simp: res_simps)

lemma bindE_assoc: "bindE (bindE m f) g = bindE m (\<lambda>a. bindE (f a) g)"
  by (simp add: bindE_def split: sum.split)

lemma bindE_cong [fundef_cong]:
  assumes "m = m'" and "\<And>a. m' = Inr a \<Longrightarrow> f a = f' a"
  shows "bindE m f = bindE m' f'"
  using assms by (simp add: bindE_def split: sum.split)

text \<open>A loop over a slice whose body may return early with an error, collecting results.\<close>

fun mapE :: "('a \<Rightarrow> 'e + 'b) \<Rightarrow> 'a list \<Rightarrow> 'e + 'b list" where
  "mapE f [] = Inr []"
| "mapE f (x # xs) = bindE (f x) (\<lambda>y. bindE (mapE f xs) (\<lambda>ys. Inr (y # ys)))"

lemma mapE_cong [fundef_cong]:
  assumes "xs = ys" and "\<And>x. x \<in> set ys \<Longrightarrow> f x = g x"
  shows "mapE f xs = mapE g ys"
  unfolding assms(1) using assms(2) by (induction ys) auto

lemma mapE_Inr_map: "(\<And>x. x \<in> set xs \<Longrightarrow> f x = Inr (g x)) \<Longrightarrow> mapE f xs = Inr (map g xs)"
  by (induction xs) auto

lemma mapE_length: "mapE f xs = Inr ys \<Longrightarrow> length ys = length xs"
  by (induction xs arbitrary: ys) auto

lemma mapE_Inl: "mapE f xs = Inl e \<Longrightarrow> \<exists>x\<in>set xs. f x = Inl e"
  by (induction xs) (auto simp: res_simps)

lemma mapE_nth: "mapE f xs = Inr ys \<Longrightarrow> i < length xs \<Longrightarrow> f (xs ! i) = Inr (ys ! i)"
  by (induction xs arbitrary: ys i) (auto simp: nth_Cons split: nat.split)

lemma mapE_append: "mapE f (xs @ ys) = bindE (mapE f xs) (\<lambda>as. bindE (mapE f ys) (\<lambda>bs. Inr (as @ bs)))"
  by (induction xs) (auto simp: bindE_def split: sum.split)

text \<open>The same loop threading a state through its iterations.\<close>

fun foldE :: "('a \<Rightarrow> 's \<Rightarrow> 'e + 's) \<Rightarrow> 'a list \<Rightarrow> 's \<Rightarrow> 'e + 's" where
  "foldE f [] s = Inr s"
| "foldE f (x # xs) s = bindE (f x s) (foldE f xs)"

lemma foldE_cong [fundef_cong]:
  assumes "xs = ys" and "s = t" and "\<And>x s. x \<in> set ys \<Longrightarrow> f x s = g x s"
  shows "foldE f xs s = foldE g ys t"
  unfolding assms(1,2) using assms(3) by (induction ys arbitrary: t) (auto intro: bindE_cong)

lemma foldE_append: "foldE f (xs @ ys) s = bindE (foldE f xs s) (foldE f ys)"
  by (induction xs arbitrary: s) (auto simp: bindE_def split: sum.split)

lemma foldE_Inl: "foldE f xs s = Inl e \<Longrightarrow> \<exists>x\<in>set xs. \<exists>t. f x t = Inl e"
  by (induction xs arbitrary: s) (auto simp: res_simps)

lemma foldE_invariant:
  assumes "foldE f xs s = Inr t" and "P s"
    and "\<And>x s t. x \<in> set xs \<Longrightarrow> P s \<Longrightarrow> f x s = Inr t \<Longrightarrow> P t"
  shows "P t"
  using assms
proof (induction xs arbitrary: s)
  case (Cons x xs)
  then obtain u where "f x s = Inr u" and "foldE f xs u = Inr t" by auto
  with Cons show ?case by (meson list.set_intros)
qed simp

section \<open>Strings\<close>

text \<open>\<open>strings.HasPrefix\<close> and \<open>strings.HasSuffix\<close> are the library's \<^const>\<open>prefix\<close> and
  \<^const>\<open>suffix\<close>.\<close>

abbreviation has_prefix :: "string \<Rightarrow> string \<Rightarrow> bool" where
  "has_prefix s p \<equiv> prefix p s"

abbreviation has_suffix :: "string \<Rightarrow> string \<Rightarrow> bool" where
  "has_suffix s p \<equiv> suffix p s"

definition trim_prefix :: "string \<Rightarrow> string \<Rightarrow> string" where
  "trim_prefix s p = (if has_prefix s p then drop (length p) s else s)"

lemma trim_prefix_append [simp]: "trim_prefix (p @ s) p = s"
  by (simp add: trim_prefix_def)

text \<open>\<open>strings.Join\<close>.\<close>

fun str_join :: "string \<Rightarrow> string list \<Rightarrow> string" where
  "str_join sep [] = []"
| "str_join sep [s] = s"
| "str_join sep (s # t # ts) = s @ sep @ str_join sep (t # ts)"

text \<open>\<open>strings.Split\<close> at a separator of one byte.\<close>

fun str_split :: "char \<Rightarrow> string \<Rightarrow> string list" where
  "str_split c [] = [[]]"
| "str_split c (x # xs) =
     (if x = c then [] # str_split c xs
      else case str_split c xs of [] \<Rightarrow> [[x]] | w # ws \<Rightarrow> (x # w) # ws)"

lemma str_split_nonempty [simp]: "str_split c s \<noteq> []"
  by (induction s) (auto split: list.splits)

lemma str_split_no_sep: "c \<notin> set s \<Longrightarrow> str_split c s = [s]"
  by (induction s) auto

lemma str_split_append: "c \<notin> set s \<Longrightarrow> str_split c (s @ c # t) = s # str_split c t"
  by (induction s) auto

lemma str_split_no_sep_in: "w \<in> set (str_split c s) \<Longrightarrow> c \<notin> set w"
  by (induction s arbitrary: w) (auto split: list.splits if_splits)

lemma str_join_split: "str_join [c] (str_split c s) = s"
proof (induction s)
  case (Cons x xs)
  obtain w ws where "str_split c xs = w # ws"
    by (cases "str_split c xs") auto
  with Cons show ?case by (cases ws) auto
qed simp

lemma str_split_join:
  "ws \<noteq> [] \<Longrightarrow> \<forall>w\<in>set ws. c \<notin> set w \<Longrightarrow> str_split c (str_join [c] ws) = ws"
proof (induction "[c]" ws rule: str_join.induct)
  case (2 s)
  then show ?case by (simp add: str_split_no_sep)
next
  case (3 s t ts)
  then have "str_split c (str_join [c] (t # ts)) = t # ts" by simp
  with 3 show ?case by (simp add: str_split_append)
qed simp

text \<open>
  \<open>strings.ReplaceAll\<close> for a non-empty pattern: the leftmost occurrence first, occurrences not
  overlapping.
\<close>

function str_replace :: "string \<Rightarrow> string \<Rightarrow> string \<Rightarrow> string" where
  "str_replace p r s =
     (case s of [] \<Rightarrow> []
      | x # xs \<Rightarrow>
          if p \<noteq> [] \<and> has_prefix s p then r @ str_replace p r (drop (length p) s)
          else x # str_replace p r xs)"
  by pat_completeness auto
termination
  by (relation "measure (\<lambda>(p, r, s). length s)") auto

declare str_replace.simps [simp del]

lemma str_replace_Nil [simp]: "str_replace p r [] = []"
  by (simp add: str_replace.simps)

lemma str_replace_step: "p \<noteq> [] \<Longrightarrow> str_replace p r (p @ s) = r @ str_replace p r s"
  by (subst str_replace.simps) (cases p; auto)

lemma str_replace_skip: "\<not> has_prefix (x # s) p \<Longrightarrow> str_replace p r (x # s) = x # str_replace p r s"
  by (simp add: str_replace.simps [of p r "x # s"])

text \<open>
  \<open>strings.TrimSpace\<close>: the bytes of the UTF-8 encodings of the code points with the Unicode
  property White\_Space. A lead byte never continues another sequence, so cutting such a
  sequence off the end is what decoding the last rune does.
\<close>

definition white_space :: "string list" where
  "white_space =
     [[CHR 0x09], [CHR 0x0A], [CHR 0x0B], [CHR 0x0C], [CHR 0x0D], [CHR 0x20],
      [CHR 0xC2, CHR 0x85], [CHR 0xC2, CHR 0xA0], [CHR 0xE1, CHR 0x9A, CHR 0x80],
      [CHR 0xE2, CHR 0x80, CHR 0x80], [CHR 0xE2, CHR 0x80, CHR 0x81], [CHR 0xE2, CHR 0x80, CHR 0x82],
      [CHR 0xE2, CHR 0x80, CHR 0x83], [CHR 0xE2, CHR 0x80, CHR 0x84], [CHR 0xE2, CHR 0x80, CHR 0x85],
      [CHR 0xE2, CHR 0x80, CHR 0x86], [CHR 0xE2, CHR 0x80, CHR 0x87], [CHR 0xE2, CHR 0x80, CHR 0x88],
      [CHR 0xE2, CHR 0x80, CHR 0x89], [CHR 0xE2, CHR 0x80, CHR 0x8A], [CHR 0xE2, CHR 0x80, CHR 0xA8],
      [CHR 0xE2, CHR 0x80, CHR 0xA9], [CHR 0xE2, CHR 0x80, CHR 0xAF], [CHR 0xE2, CHR 0x81, CHR 0x9F],
      [CHR 0xE3, CHR 0x80, CHR 0x80]]"

fun trim_left_by :: "string list \<Rightarrow> nat \<Rightarrow> string \<Rightarrow> string" where
  "trim_left_by ws 0 s = s"
| "trim_left_by ws (Suc n) s =
     (case find (\<lambda>w. prefix w s) ws of
        None \<Rightarrow> s
      | Some w \<Rightarrow> trim_left_by ws n (drop (length w) s))"

text \<open>Every cut removes at least one byte, so as many rounds as the string has bytes suffice.\<close>

definition trim_space :: "string \<Rightarrow> string" where
  "trim_space s =
     (let l = trim_left_by white_space (length s) s
      in rev (trim_left_by (map rev white_space) (length l) (rev l)))"

lemma trim_left_by_none:
  "find (\<lambda>w. prefix w s) ws = None \<Longrightarrow> trim_left_by ws n s = s"
  by (cases n) auto

lemma trim_left_by_done:
  assumes "\<forall>w\<in>set ws. w \<noteq> []" and "length s \<le> n"
  shows "find (\<lambda>w. prefix w (trim_left_by ws n s)) ws = None"
  using assms
proof (induction n arbitrary: s)
  case 0
  then show ?case by (auto simp: find_None_iff)
next
  case (Suc n)
  show ?case
  proof (cases "find (\<lambda>w. prefix w s) ws")
    case (Some w)
    then have w: "w \<in> set ws" "prefix w s" by (auto simp: find_Some_iff)
    with Suc.prems have "w \<noteq> []" by auto
    then have "length (drop (length w) s) \<le> n" using Suc.prems(2) by (cases w) auto
    with Some Suc show ?thesis by auto
  qed simp
qed

text \<open>\<open>strings.ToLower\<close> on the ASCII letters, the only ones the modelled code distinguishes.\<close>

definition lower_char :: "char \<Rightarrow> char" where
  "lower_char c =
     (if 65 \<le> (of_char c :: nat) \<and> (of_char c :: nat) \<le> 90
      then char_of ((of_char c :: nat) + 32) else c)"

definition to_lower :: "string \<Rightarrow> string" where
  "to_lower = map lower_char"

section \<open>Decimal integers\<close>

text \<open>\<open>strconv.Itoa\<close> and \<open>strconv.Atoi\<close>, on a platform with 64-bit \<open>int\<close>.\<close>

definition digit_char :: "nat \<Rightarrow> char" where
  "digit_char d = char_of (48 + d)"

definition char_digit :: "char \<Rightarrow> nat option" where
  "char_digit c = (let n = of_char c :: nat in if 48 \<le> n \<and> n \<le> 57 then Some (n - 48) else None)"

fun nat_dec :: "nat \<Rightarrow> string" where
  "nat_dec n = (if n < 10 then [digit_char n] else nat_dec (n div 10) @ [digit_char (n mod 10)])"

declare nat_dec.simps [simp del]

definition itoa :: "int \<Rightarrow> string" where
  "itoa i = (if i < 0 then CHR ''-'' # nat_dec (nat (- i)) else nat_dec (nat i))"

fun digits_val :: "nat \<Rightarrow> string \<Rightarrow> nat option" where
  "digits_val acc [] = Some acc"
| "digits_val acc (c # cs) =
     (case char_digit c of None \<Rightarrow> None | Some d \<Rightarrow> digits_val (10 * acc + d) cs)"

text \<open>The digits pass the range of \<open>uint64\<close>; \<open>Atoi\<close> stops there, before it reads the rest.\<close>

fun digits_overflow :: "nat \<Rightarrow> string \<Rightarrow> bool" where
  "digits_overflow acc [] = False"
| "digits_overflow acc (c # cs) =
     (case char_digit c of
        None \<Rightarrow> False
      | Some d \<Rightarrow> 2 ^ 64 \<le> 10 * acc + d \<or> digits_overflow (10 * acc + d) cs)"

lemma digits_overflow_code [code]:
  "digits_overflow acc [] = False"
  "digits_overflow acc (c # cs) =
     (case char_digit c of
        None \<Rightarrow> False
      | Some d \<Rightarrow> 2 ^ 64 \<le> 10 * int acc + int d \<or> digits_overflow (10 * acc + d) cs)"
  by (auto split: option.split)

datatype num_error = ErrSyntax | ErrRange int

definition max_int64 :: int where "max_int64 = 9223372036854775807"
definition min_int64 :: int where "min_int64 = -9223372036854775808"

definition clamp_int64 :: "int \<Rightarrow> num_error + int" where
  "clamp_int64 i =
     (if i > max_int64 then Inl (ErrRange max_int64)
      else if i < min_int64 then Inl (ErrRange min_int64) else Inr i)"

definition atoi :: "string \<Rightarrow> num_error + int" where
  "atoi s =
     (let neg = (s \<noteq> [] \<and> hd s = CHR ''-'');
          body = (if s \<noteq> [] \<and> (hd s = CHR ''-'' \<or> hd s = CHR ''+'') then tl s else s)
      in if body = [] then Inl ErrSyntax
         else if digits_overflow 0 body then Inl (ErrRange (if neg then min_int64 else max_int64))
         else case digits_val 0 body of
             None \<Rightarrow> Inl ErrSyntax
           | Some n \<Rightarrow> clamp_int64 (if neg then - int n else int n))"

text \<open>The value \<open>Atoi\<close> returns beside its error: 0 for a syntax error, the bound for a range error.\<close>

definition atoi_value :: "string \<Rightarrow> int" where
  "atoi_value s = (case atoi s of Inr i \<Rightarrow> i | Inl ErrSyntax \<Rightarrow> 0 | Inl (ErrRange b) \<Rightarrow> b)"

lemma char_digit_digit_char [simp]: "d < 10 \<Longrightarrow> char_digit (digit_char d) = Some d"
  by (simp add: char_digit_def digit_char_def)

lemma nat_dec_nonempty [simp]: "nat_dec n \<noteq> []"
  by (subst nat_dec.simps) simp

lemma nat_dec_digits: "c \<in> set (nat_dec n) \<Longrightarrow> \<exists>d<10. c = digit_char d"
proof (induction n rule: nat_dec.induct)
  case (1 n)
  then show ?case
    by (subst (asm) (2) nat_dec.simps) (auto split: if_splits intro: exI [of _ "n mod 10"])
qed

lemma digits_val_append:
  "digits_val a (xs @ ys) = (case digits_val a xs of None \<Rightarrow> None | Some b \<Rightarrow> digits_val b ys)"
  by (induction xs arbitrary: a) (auto split: option.splits)

lemma digits_val_nat_dec: "digits_val 0 (nat_dec n) = Some n"
proof (induction n rule: nat_dec.induct)
  case (1 n)
  show ?case
  proof (cases "n < 10")
    case True
    then show ?thesis by (subst nat_dec.simps) simp
  next
    case False
    with 1 have "digits_val 0 (nat_dec (n div 10)) = Some (n div 10)" by simp
    with False show ?thesis by (subst nat_dec.simps) (simp add: digits_val_append)
  qed
qed

lemma digits_val_mono: "digits_val a cs = Some m \<Longrightarrow> a \<le> m"
  by (induction cs arbitrary: a) (fastforce split: option.splits)+

lemma digits_overflow_val: "digits_overflow a cs \<Longrightarrow> digits_val a cs = Some m \<Longrightarrow> 2 ^ 64 \<le> m"
  by (induction cs arbitrary: a) (auto split: option.splits dest: digits_val_mono)

lemma not_digits_overflow: "n < 2 ^ 64 \<Longrightarrow> \<not> digits_overflow 0 (nat_dec n)"
  using digits_overflow_val digits_val_nat_dec by fastforce

lemma digit_char_neq_sign:
  "d < 10 \<Longrightarrow> digit_char d \<noteq> CHR ''-''" "d < 10 \<Longrightarrow> digit_char d \<noteq> CHR ''+''"
proof -
  assume d: "d < 10"
  have "char_digit (digit_char d) \<noteq> None" using d by simp
  moreover have "char_digit CHR ''-'' = None" and "char_digit CHR ''+'' = None"
    by (simp_all add: char_digit_def)
  ultimately show "digit_char d \<noteq> CHR ''-''" and "digit_char d \<noteq> CHR ''+''"
    by (metis, metis)
qed

lemma hd_nat_dec_sign: "hd (nat_dec n) \<noteq> CHR ''-''" "hd (nat_dec n) \<noteq> CHR ''+''"
  using nat_dec_digits [of "hd (nat_dec n)" n] digit_char_neq_sign
  by (metis hd_in_set nat_dec_nonempty)+

lemma atoi_itoa: "min_int64 \<le> i \<Longrightarrow> i \<le> max_int64 \<Longrightarrow> atoi (itoa i) = Inr i"
  using not_digits_overflow [of "nat \<bar>i\<bar>"]
  by (auto simp: atoi_def itoa_def clamp_int64_def digits_val_nat_dec hd_nat_dec_sign
      max_int64_def min_int64_def nat_less_iff abs_if)

lemma atoi_value_itoa: "min_int64 \<le> i \<Longrightarrow> i \<le> max_int64 \<Longrightarrow> atoi_value (itoa i) = i"
  by (simp add: atoi_value_def atoi_itoa)

end
