(* ===== verification/Galois.thy ===== *)
theory Galois
  imports Sops_Prelude
begin

text \<open>
  The byte arithmetic of \<open>src/shamir/shamir.go\<close>: \<open>add\<close>, \<open>mult\<close>, \<open>inverse\<close> and \<open>div\<close> on
  \<open>uint8\<close>, which is \<^typ>\<open>8 word\<close> here, and the proof that they form a field. The loop of
  \<open>mult\<close> is shown to apply to \<open>a\<close> the polynomial whose coefficients are the bits of \<open>b\<close>, at the
  operator \<open>xtime\<close> ("multiply by \<open>X\<close>"); commutativity and associativity follow because such
  operators are linear and commute. The type \<open>gf256\<close> packages the bytes as an instance of the
  library's class the class \<open>field\<close>.
\<close>

unbundle bit_operations_syntax

type_synonym byte = "8 word"

section \<open>The operations\<close>

definition add :: "byte \<Rightarrow> byte \<Rightarrow> byte" where
  "add a b = a XOR b"

text \<open>One round of the loop in \<open>mult\<close>, for bit \<open>i\<close> of \<open>b\<close>.\<close>

definition mult_round :: "byte \<Rightarrow> byte \<Rightarrow> nat \<Rightarrow> byte \<Rightarrow> byte" where
  "mult_round a b i accumulator =
     (let bitOfB = drop_bit i b AND 1;
          aOrZero = (- bitOfB) AND a;
          zeroOr1B = (- (drop_bit 7 accumulator)) AND 0x1B;
          accumulatorMultipliedByX = zeroOr1B XOR (accumulator + accumulator)
      in aOrZero XOR accumulatorMultipliedByX)"

fun mult_loop :: "byte \<Rightarrow> byte \<Rightarrow> nat \<Rightarrow> byte \<Rightarrow> byte" where
  "mult_loop a b 0 accumulator = accumulator"
| "mult_loop a b (Suc i) accumulator = mult_loop a b i (mult_round a b i accumulator)"

definition mult :: "byte \<Rightarrow> byte \<Rightarrow> byte" where
  "mult a b = mult_loop a b 8 0"

definition inverse_u8 :: "byte \<Rightarrow> byte" where
  "inverse_u8 a =
     (let b = mult a a;
          c = mult a b;
          b = mult c c;
          b = mult b b;
          c = mult b c;
          b = mult b b;
          b = mult b b;
          b = mult b c;
          b = mult b b;
          b = mult a b
      in mult b b)"

text \<open>\<open>div\<close> panics for a zero divisor; \<^const>\<open>None\<close> is the panic.\<close>

definition div_u8 :: "byte \<Rightarrow> byte \<Rightarrow> byte option" where
  "div_u8 a b = (if b = 0 then None else Some (mult a (inverse_u8 b)))"

section \<open>Multiplication by \<open>X\<close>\<close>

definition xtime :: "byte \<Rightarrow> byte" where
  "xtime a = ((- (drop_bit 7 a)) AND 0x1B) XOR (a + a)"

lemma word8_eq_iff: "(a :: byte) = b \<longleftrightarrow> (\<forall>n<8. bit a n = bit b n)"
  by (auto simp: bit_eq_iff dest: bit_imp_le_length simp flip: not_le)

lemma xtime_if: "xtime a = (if bit a 7 then 0x1B else 0) XOR push_bit 1 a"
proof -
  have "bit a (7 + n) \<longleftrightarrow> n = 0 \<and> bit a 7" for n
    using bit_imp_le_length [of a "7 + n"] by (cases n) auto
  then have "drop_bit 7 a = (if bit a 7 then 1 else 0)"
    by (intro bit_eqI) (auto simp: bit_simps bit_1_iff)
  moreover have "a + a = push_bit 1 a"
    by (simp add: push_bit_eq_mult)
  ultimately show ?thesis by (simp only: xtime_def) simp
qed

lemma xtime_xor: "xtime (a XOR b) = xtime a XOR xtime b"
  by (rule bit_eqI) (auto simp: xtime_if bit_simps)

lemma xtime_0 [simp]: "xtime 0 = 0"
  by (simp add: xtime_def)

lemma mult_round_xtime:
  "mult_round a b i acc = (if bit b i then a else 0) XOR xtime acc"
proof -
  have "drop_bit i b AND 1 = (if bit b i then 1 else 0)"
    by (simp add: and_one_eq mod_2_eq_odd bit_iff_odd_drop_bit)
  then show ?thesis by (simp add: mult_round_def xtime_def Let_def)
qed

text \<open>The accumulator of the loop, by Horner's rule over the bits of \<open>b\<close> from bit \<open>i\<close> down.\<close>

fun bits_at :: "byte \<Rightarrow> byte \<Rightarrow> nat \<Rightarrow> byte" where
  "bits_at a b 0 = 0"
| "bits_at a b (Suc i) = (if bit b i then (xtime ^^ i) a else 0) XOR bits_at a b i"

lemma xtime_pow_xor: "(xtime ^^ n) (a XOR b) = (xtime ^^ n) a XOR (xtime ^^ n) b"
  by (induction n) (simp_all add: xtime_xor)

lemma xtime_pow_0 [simp]: "(xtime ^^ n) 0 = 0"
  by (induction n) simp_all

lemma mult_loop_bits: "mult_loop a b n acc = (xtime ^^ n) acc XOR bits_at a b n"
proof (induction n arbitrary: acc)
  case (Suc n)
  have "mult_loop a b (Suc n) acc
      = (xtime ^^ n) ((if bit b n then a else 0) XOR xtime acc) XOR bits_at a b n"
    by (simp add: mult_round_xtime Suc)
  also have "\<dots> = (xtime ^^ Suc n) acc XOR bits_at a b (Suc n)"
    by (simp add: xtime_pow_xor funpow_swap1 ac_simps)
  finally show ?case .
qed simp

lemma mult_bits: "mult a b = bits_at a b 8"
  by (simp add: mult_def mult_loop_bits)

section \<open>Ring laws\<close>

lemma bits_at_xor_left: "bits_at (a XOR a') b n = bits_at a b n XOR bits_at a' b n"
proof (induction n)
  case (Suc n)
  then show ?case
    by (cases "bit b n") (simp_all add: xtime_pow_xor xor.assoc xor.left_commute)
qed simp

lemma bits_at_xor_right: "bits_at a (b XOR b') n = bits_at a b n XOR bits_at a b' n"
proof (induction n)
  case (Suc n)
  then show ?case
    by (cases "bit b n"; cases "bit b' n")
      (simp_all add: bit_simps xor.assoc xor.left_commute)
qed simp

lemma bits_at_0_left [simp]: "bits_at 0 b n = 0"
  by (induction n) simp_all

lemma bits_at_xtime: "bits_at (xtime a) b n = xtime (bits_at a b n)"
  by (induction n) (simp_all add: xtime_xor funpow_swap1)

lemma bits_at_xtime_pow: "bits_at ((xtime ^^ m) a) b n = (xtime ^^ m) (bits_at a b n)"
  by (induction m) (simp_all add: bits_at_xtime)

lemma bits_at_commute: "bits_at (bits_at a b m) c n = bits_at (bits_at a c n) b m"
  by (induction m) (simp_all add: bits_at_xor_left bits_at_xtime_pow)

lemma bits_at_one: "bits_at 1 b 8 = b"
proof -
  have step: "i < 7 \<Longrightarrow> xtime (2 ^ i) = 2 ^ Suc i" for i
    by (simp add: xtime_if bit_exp_iff push_bit_eq_mult)
  have pow: "i < 8 \<Longrightarrow> (xtime ^^ i) 1 = 2 ^ i" for i
    by (induction i) (simp_all add: step)
  have "n \<le> 8 \<Longrightarrow> bits_at 1 b n = take_bit n b" for n
  proof (induction n)
    case (Suc n)
    then have "bits_at 1 b (Suc n) = (if bit b n then 2 ^ n else 0) XOR take_bit n b"
      by (simp add: pow)
    also have "\<dots> = take_bit (Suc n) b"
      by (rule bit_eqI) (auto simp: bit_simps bit_exp_iff less_Suc_eq)
    finally show ?case .
  qed simp
  from this [of 8] show ?thesis by (simp add: word8_eq_iff bit_simps)
qed

lemma mult_xor_left: "mult (add a a') b = add (mult a b) (mult a' b)"
  by (simp add: mult_bits add_def bits_at_xor_left)

lemma mult_one_left: "mult 1 b = b"
  by (simp add: mult_bits bits_at_one)

lemma mult_zero_left: "mult 0 b = 0"
  by (simp add: mult_bits)

lemma mult_commute: "mult a b = mult b a"
proof -
  have "mult a b = bits_at (bits_at 1 a 8) b 8" by (simp add: mult_bits bits_at_one)
  also have "\<dots> = bits_at (bits_at 1 b 8) a 8" by (rule bits_at_commute)
  also have "\<dots> = mult b a" by (simp add: mult_bits bits_at_one)
  finally show ?thesis .
qed

lemma mult_xor_right: "mult a (add b b') = add (mult a b) (mult a b')"
  by (simp add: mult_bits add_def bits_at_xor_right)

lemma mult_assoc: "mult (mult a b) c = mult a (mult b c)"
proof -
  have "mult (mult a b) c = mult (mult b a) c" by (simp add: mult_commute)
  also have "\<dots> = mult (mult b c) a" by (simp add: mult_bits bits_at_commute)
  also have "\<dots> = mult a (mult b c)" by (rule mult_commute)
  finally show ?thesis .
qed

section \<open>Inverses\<close>

lemma mult_eval:
  "mult a b = mult_round a b 0 (mult_round a b 1 (mult_round a b 2 (mult_round a b 3
     (mult_round a b 4 (mult_round a b 5 (mult_round a b 6 (mult_round a b 7 0)))))))"
  by (simp add: mult_def numeral_eq_Suc)

definition sq :: "byte \<Rightarrow> byte" where
  "sq a = mult a a"

lemma sq_add: "sq (add a b) = add (sq a) (sq b)"
proof -
  have "sq (add a b) = add (add (mult a a) (mult a b)) (add (mult a b) (mult b b))"
    by (simp add: sq_def mult_xor_left mult_xor_right mult_commute [of b a])
  then show ?thesis by (simp add: sq_def add_def xor.assoc xor.left_commute)
qed

text \<open>An additive function is determined by its values at the eight powers of \<open>X\<close>.\<close>

lemma additive_eqI:
  assumes f: "\<And>a b. f (a XOR b) = f a XOR (f b :: byte)"
    and g: "\<And>a b. g (a XOR b) = g a XOR (g b :: byte)"
    and basis: "\<forall>i<8. f (2 ^ i) = g (2 ^ i)"
  shows "f a = g (a :: byte)"
proof -
  have zero: "f 0 = 0" "g 0 = 0"
    using f [of 0 0] g [of 0 0] by simp_all
  have "n \<le> 8 \<Longrightarrow> f (take_bit n a) = g (take_bit n a)" for n
  proof (induction n)
    case (Suc n)
    have "take_bit (Suc n) a = take_bit n a XOR (if bit a n then 2 ^ n else 0)"
      by (rule bit_eqI) (auto simp: bit_simps bit_exp_iff less_Suc_eq)
    with Suc basis show ?case by (simp add: f g zero)
  qed (simp add: zero)
  moreover have "take_bit 8 a = a" by (simp add: word8_eq_iff bit_simps)
  ultimately show ?thesis by (metis order_refl)
qed

lemma sq_pow_add: "(sq ^^ n) (a XOR b) = (sq ^^ n) a XOR (sq ^^ n) b"
  using sq_add by (induction n) (simp_all add: add_def)

lemma less_8_cases:
  "(\<forall>i<8. P i) \<longleftrightarrow> P 0 \<and> P 1 \<and> P 2 \<and> P 3 \<and> P 4 \<and> P 5 \<and> P 6 \<and> P (7 :: nat)"
  by (simp add: numeral_eq_Suc All_less_Suc) blast

text \<open>Squaring as a linear map on the bits.\<close>

definition bit_term :: "byte \<Rightarrow> nat \<Rightarrow> byte \<Rightarrow> byte" where
  "bit_term e i c = (if bit e i then c else 0)"

lemma bit_term_xor: "bit_term (a XOR b) i c = bit_term a i c XOR bit_term b i c"
  by (simp add: bit_term_def bit_simps)

lemma bit_bit_term: "bit (bit_term e i c) k \<longleftrightarrow> bit e i \<and> bit c k"
  by (simp add: bit_term_def)

lemma sq_linear:
  "sq e = bit_term e 0 0x01 XOR bit_term e 1 0x04 XOR bit_term e 2 0x10 XOR bit_term e 3 0x40 XOR
          bit_term e 4 0x1B XOR bit_term e 5 0x6C XOR bit_term e 6 0xAB XOR bit_term e 7 0x9A"
    (is "_ = ?lin e")
proof (rule additive_eqI [where f = sq and g = ?lin])
  show "sq (a XOR b) = sq a XOR sq b" for a b
    using sq_add by (simp add: add_def)
  show "?lin (a XOR b) = ?lin a XOR ?lin b" for a b
    by (simp only: bit_term_xor xor.assoc xor.left_commute)
  show "\<forall>i<8. sq (2 ^ i) = ?lin (2 ^ i)"
    by (simp add: less_8_cases sq_def mult_eval mult_round_def bit_term_def)
qed

text \<open>Squaring eight times is the identity: \<open>a\<close> to the power 256 is \<open>a\<close>. The table holds the
  squares met on the way from the powers of \<open>X\<close>.\<close>

lemma sq_table:
  "sq 1 = 1" "sq 0x02 = 0x04" "sq 0x04 = 0x10" "sq 0x08 = 0x40"
  "sq 0x10 = 0x1B" "sq 0x1B = 0x5E" "sq 0x1D = 0x4A" "sq 0x20 = 0x6C"
  "sq 0x40 = 0xAB" "sq 0x4A = 0xEF" "sq 0x4D = 0xFA" "sq 0x5E = 0xE4"
  "sq 0x6C = 0x97" "sq 0x80 = 0x9A" "sq 0x91 = 0x80" "sq 0x94 = 0x91"
  "sq 0x97 = 0x94" "sq 0x9A = 0xC5" "sq 0xAB = 0xB3" "sq 0xB3 = 0xE8"
  "sq 0xC5 = 0x20" "sq 0xE4 = 0x4D" "sq 0xE8 = 0x1D" "sq 0xEF = 0x08"
  "sq 0xFA = 0x02"
  by (simp_all add: sq_linear bit_term_def)

lemma sq_pow_8: "(sq ^^ 8) a = a"
proof (rule additive_eqI [where f = "sq ^^ 8" and g = "\<lambda>a. a"])
  have "(sq ^^ 8) x = sq (sq (sq (sq (sq (sq (sq (sq x)))))))" for x
    by (simp add: numeral_eq_Suc)
  then show "\<forall>i<8. (sq ^^ 8) (2 ^ i) = 2 ^ i"
    by (simp add: less_8_cases sq_table)
qed (rule sq_pow_add, rule refl)

text \<open>The idempotent bytes are 0 and 1.\<close>

lemma sq_idempotent:
  assumes "sq e = e"
  shows "e = 0 \<or> e = 1"
proof -
  have *: "bit e i \<longleftrightarrow> bit (sq e) i" for i using assms by simp
  have "\<not> bit e 6" using * [of 5] by (auto simp: sq_linear bit_xor_iff bit_bit_term)
  moreover have "bit e 4 = bit e 6" using * [of 0] by (auto simp: sq_linear bit_xor_iff bit_bit_term) 
  moreover have "bit e 1 = bit e 7" if "bit e 4 = bit e 6"
    using * [of 1] that by (auto simp: sq_linear bit_xor_iff bit_bit_term)
  moreover have "bit e 2 = bit e 7" using * [of 4] by (auto simp: sq_linear bit_xor_iff bit_bit_term) 
  moreover have "bit e 3 = bit e 5" if "\<not> bit e 6"
    using * [of 6] that by (auto simp: sq_linear bit_xor_iff bit_bit_term)
  moreover have "bit e 3 = (bit e 5 \<noteq> bit e 7)" if "bit e 4 = bit e 6"
    using * [of 3] that by (auto simp: sq_linear bit_xor_iff bit_bit_term)
  moreover have "bit e 2 = (bit e 1 \<noteq> bit e 5)"
    using * [of 2] by (auto simp: sq_linear bit_xor_iff bit_bit_term)
  ultimately have "\<not> bit e 1 \<and> \<not> bit e 2 \<and> \<not> bit e 3 \<and> \<not> bit e 4 \<and> \<not> bit e 5 \<and> \<not> bit e 6 \<and> \<not> bit e 7"
    by sat
  then show ?thesis
    by (cases "bit e 0") (auto simp: word8_eq_iff less_8_cases bit_1_iff)
qed

section \<open>The field of bytes\<close>

datatype gf256 = GF (unGF: byte)

instantiation gf256 :: comm_ring_1
begin

definition zero_gf256 :: gf256 where "0 = GF 0"
definition one_gf256 :: gf256 where "1 = GF 1"
definition plus_gf256 :: "gf256 \<Rightarrow> gf256 \<Rightarrow> gf256" where
  "x + y = GF (add (unGF x) (unGF y))"
definition times_gf256 :: "gf256 \<Rightarrow> gf256 \<Rightarrow> gf256" where
  "x * y = GF (mult (unGF x) (unGF y))"
definition minus_gf256 :: "gf256 \<Rightarrow> gf256 \<Rightarrow> gf256" where
  "x - y = GF (add (unGF x) (unGF y))"
definition uminus_gf256 :: "gf256 \<Rightarrow> gf256" where
  "- x = (x :: gf256)"

instance
proof
  fix x y z :: gf256
  show "x * y * z = x * (y * z)" by (simp add: times_gf256_def mult_assoc)
  show "x * y = y * x" by (simp add: times_gf256_def mult_commute)
  show "1 * x = x" by (simp add: times_gf256_def one_gf256_def mult_one_left)
  show "x + y + z = x + (y + z)" by (simp add: plus_gf256_def add_def xor.assoc)
  show "x + y = y + x" by (simp add: plus_gf256_def add_def xor.commute)
  show "0 + x = x" by (simp add: plus_gf256_def zero_gf256_def add_def)
  show "- x + x = 0" by (simp add: plus_gf256_def zero_gf256_def uminus_gf256_def add_def)
  show "x - y = x + - y" by (simp add: plus_gf256_def minus_gf256_def uminus_gf256_def)
  show "(x + y) * z = x * z + y * z"
    by (simp add: plus_gf256_def times_gf256_def mult_xor_left)
  show "(0 :: gf256) \<noteq> 1" by (simp add: zero_gf256_def one_gf256_def)
qed

end

lemma GF_add: "GF (add a b) = GF a + GF b" by (simp add: plus_gf256_def)
lemma GF_mult: "GF (mult a b) = GF a * GF b" by (simp add: times_gf256_def)
lemma GF_0: "GF 0 = 0" by (simp add: zero_gf256_def)
lemma GF_1: "GF 1 = 1" by (simp add: one_gf256_def)

lemmas GF_hom = GF_add GF_mult GF_0 GF_1

lemma GF_eq_0_iff [simp]: "GF a = 0 \<longleftrightarrow> a = 0" by (simp add: zero_gf256_def)

lemma gf_minus [simp]: "x - y = x + (y :: gf256)"
  by (simp add: minus_gf256_def plus_gf256_def)

lemma gf_uminus [simp]: "- x = (x :: gf256)"
  by (simp add: uminus_gf256_def)

lemma gf_add_self [simp]: "x + x = (0 :: gf256)"
  by (simp add: plus_gf256_def zero_gf256_def add_def)

lemma add_eq_0_iff [simp]: "add a b = 0 \<longleftrightarrow> a = b"
proof -
  have "add a b = 0 \<longleftrightarrow> GF a - GF b = 0" by (simp flip: GF_add)
  then show ?thesis by (simp only: right_minus_eq) simp
qed

text \<open>The addition chain of \<open>inverse\<close> computes the 254th power.\<close>

lemma GF_pow_step: "GF p = x ^ m \<Longrightarrow> GF q = x ^ n \<Longrightarrow> k = m + n \<Longrightarrow> GF (mult p q) = x ^ k"
  by (simp add: GF_mult power_add)

lemma GF_inverse: "GF (inverse_u8 a) = GF a ^ 254"
proof -
  define b2 c3 b6 b12 c15 b24 b48 b63 b126 b127 where defs:
    "b2 = mult a a" "c3 = mult a b2" "b6 = mult c3 c3" "b12 = mult b6 b6" "c15 = mult b12 c3"
    "b24 = mult b12 b12" "b48 = mult b24 b24" "b63 = mult b48 c15" "b126 = mult b63 b63"
    "b127 = mult a b126"
  have p1: "GF a = GF a ^ 1" by simp
  note step = GF_pow_step [of _ "GF a"]
  have p2: "GF b2 = GF a ^ 2" unfolding defs(1) by (rule step [OF p1 p1]) simp
  have p3: "GF c3 = GF a ^ 3" unfolding defs(2) by (rule step [OF p1 p2]) simp
  have p6: "GF b6 = GF a ^ 6" unfolding defs(3) by (rule step [OF p3 p3]) simp
  have p12: "GF b12 = GF a ^ 12" unfolding defs(4) by (rule step [OF p6 p6]) simp
  have p15: "GF c15 = GF a ^ 15" unfolding defs(5) by (rule step [OF p12 p3]) simp
  have p24: "GF b24 = GF a ^ 24" unfolding defs(6) by (rule step [OF p12 p12]) simp
  have p48: "GF b48 = GF a ^ 48" unfolding defs(7) by (rule step [OF p24 p24]) simp
  have p63: "GF b63 = GF a ^ 63" unfolding defs(8) by (rule step [OF p48 p15]) simp
  have p126: "GF b126 = GF a ^ 126" unfolding defs(9) by (rule step [OF p63 p63]) simp
  have p127: "GF b127 = GF a ^ 127" unfolding defs(10) by (rule step [OF p1 p126]) simp
  have "inverse_u8 a = mult b127 b127"
    unfolding inverse_u8_def Let_def by (simp only: defs)
  then show ?thesis using step [OF p127 p127, of 254] by simp
qed

lemma GF_sq_pow: "GF ((sq ^^ n) a) = GF a ^ (2 ^ n)"
  by (induction n) (simp_all add: sq_def GF_mult power_mult power2_eq_square flip: power_mult_distrib)

lemma gf_pow_256: "x ^ 256 = (x :: gf256)"
  using GF_sq_pow [of 8 "unGF x"] by (simp add: sq_pow_8)

lemma gf_pow_255:
  assumes "x \<noteq> (0 :: gf256)"
  shows "x ^ 255 = 1"
proof -
  have e: "x * x ^ 255 = x" using gf_pow_256 [of x] by (simp flip: power_Suc)
  have "x ^ 255 * x ^ 255 = x ^ 256 * x ^ 254" by (simp only: power_add [symmetric]) simp
  also have "\<dots> = x ^ 1 * x ^ 254" by (simp only: gf_pow_256) simp
  also have "\<dots> = x ^ 255" by (simp only: power_add [symmetric]) simp
  finally have "x ^ 255 * x ^ 255 = x ^ 255" .
  then have "sq (unGF (x ^ 255)) = unGF (x ^ 255)"
    by (simp add: sq_def times_gf256_def) (metis gf256.sel)
  then have "x ^ 255 = 0 \<or> x ^ 255 = 1"
    using sq_idempotent by (metis GF_0 GF_1 gf256.collapse)
  with e assms show ?thesis by auto
qed

instantiation gf256 :: field
begin

definition inverse_gf256 :: "gf256 \<Rightarrow> gf256" where
  "inverse_class.inverse x = GF (inverse_u8 (unGF x))"
definition divide_gf256 :: "gf256 \<Rightarrow> gf256 \<Rightarrow> gf256" where
  "divide x y = x * inverse_class.inverse (y :: gf256)"

instance
proof
  fix x y :: gf256
  show "inverse_class.inverse x * x = 1" if "x \<noteq> 0"
    using gf_pow_255 [OF that] by (simp add: inverse_gf256_def GF_inverse flip: power_Suc2)
  show "divide x y = x * inverse_class.inverse y" by (simp add: divide_gf256_def)
  show "inverse_class.inverse (0 :: gf256) = 0"
    using GF_inverse [of 0] by (simp add: inverse_gf256_def GF_0 zero_gf256_def [symmetric] power_0_left)
      (simp add: zero_gf256_def)
qed

end

lemma GF_div: "div_u8 a b = Some c \<Longrightarrow> GF c = GF a / GF b"
  by (auto simp: div_u8_def divide_gf256_def inverse_gf256_def GF_mult split: if_splits)

lemma div_u8_Some: "b \<noteq> 0 \<Longrightarrow> div_u8 a b = Some (unGF (GF a / GF b))"
  by (simp add: div_u8_def divide_gf256_def inverse_gf256_def flip: GF_mult)

end
