(* ===== verification/Interpolation.thy ===== *)
theory Interpolation
  imports Main
begin

text \<open>
  Polynomials over a field as lists of coefficients, lowest degree first: evaluation, the bound
  on the number of roots, and Lagrange interpolation. This is the reference against which the
  byte loops of \<open>src/shamir/shamir.go\<close> are verified.
\<close>

section \<open>Evaluation\<close>

fun peval :: "'a::field list \<Rightarrow> 'a \<Rightarrow> 'a" where
  "peval [] x = 0"
| "peval (c # cs) x = c + x * peval cs x"

lemma peval_0: "cs \<noteq> [] \<Longrightarrow> peval cs 0 = hd cs"
  by (cases cs) simp_all

lemma peval_snoc: "peval (cs @ [c]) x = peval cs x + c * x ^ length cs"
  by (induction cs) (simp_all add: algebra_simps)

lemma peval_last: "cs \<noteq> [] \<Longrightarrow> peval cs x = peval (butlast cs) x + last cs * x ^ (length cs - 1)"
  by (metis append_butlast_last_id length_butlast peval_snoc)

lemma peval_append_zeros [simp]: "peval (cs @ replicate n 0) x = peval cs x"
proof -
  have "peval (replicate n 0) x = 0" for n by (induction n) simp_all
  then show ?thesis by (induction cs) simp_all
qed

section \<open>Roots\<close>

text \<open>Synthetic division: the quotient of \<open>cs\<close> by \<open>x - a\<close>.\<close>

fun pdiv :: "'a::field \<Rightarrow> 'a list \<Rightarrow> 'a list" where
  "pdiv a [] = []"
| "pdiv a (c # cs) = (if cs = [] then [] else peval cs a # pdiv a cs)"

lemma length_pdiv: "length (pdiv a cs) = length cs - 1"
  by (induction cs) auto

lemma pdiv_eq: "peval cs x = peval cs a + (x - a) * peval (pdiv a cs) x"
proof (induction cs)
  case (Cons c cs)
  show ?case
  proof (cases "cs = []")
    case False
    have "peval (c # cs) x = c + x * (peval cs a + (x - a) * peval (pdiv a cs) x)"
      by (subst Cons [symmetric]) simp
    with False show ?thesis by (simp add: algebra_simps)
  qed simp
qed simp

lemma roots_bound:
  assumes "distinct xs" and "length cs \<le> length xs" and "\<forall>a\<in>set xs. peval cs a = 0"
  shows "peval cs x = 0"
  using assms
proof (induction xs arbitrary: cs x)
  case (Cons a xs)
  have root: "peval cs a = 0" using Cons.prems by simp
  have "\<forall>b\<in>set xs. peval (pdiv a cs) b = 0"
  proof
    fix b assume b: "b \<in> set xs"
    with Cons.prems have "b \<noteq> a" and "peval cs b = 0" by auto
    with pdiv_eq [of cs b a] root show "peval (pdiv a cs) b = 0" by simp
  qed
  with Cons.prems have "peval (pdiv a cs) x = 0"
    by (intro Cons.IH) (auto simp: length_pdiv)
  with pdiv_eq [of cs x a] root show ?case by simp
qed simp

section \<open>Polynomial functions\<close>

definition polyfun :: "nat \<Rightarrow> ('a::field \<Rightarrow> 'a) \<Rightarrow> bool" where
  "polyfun n f \<longleftrightarrow> (\<exists>cs. length cs = n \<and> (\<forall>x. f x = peval cs x))"

lemma polyfun_peval: "length cs \<le> n \<Longrightarrow> polyfun n (peval cs)"
  unfolding polyfun_def by (rule exI [of _ "cs @ replicate (n - length cs) 0"]) simp

lemma polyfunI: "(\<And>x. f x = peval cs x) \<Longrightarrow> length cs = n \<Longrightarrow> polyfun n f"
  unfolding polyfun_def by blast

lemma polyfun_const: "polyfun (Suc 0) (\<lambda>x. c)"
  by (rule polyfunI [of _ "[c]"]) simp_all

lemma polyfun_zero: "polyfun n (\<lambda>x. 0)"
  using polyfun_peval [of "[]" n] by (simp add: polyfun_def)

lemma peval_add: "length as = length bs \<Longrightarrow> peval (map2 (+) as bs) x = peval as x + peval bs x"
  by (induction as bs rule: list_induct2) (simp_all add: algebra_simps)

lemma peval_smult: "peval (map ((*) c) as) x = c * peval as x"
  by (induction as) (simp_all add: algebra_simps)

lemma polyfun_add: "polyfun n f \<Longrightarrow> polyfun n g \<Longrightarrow> polyfun n (\<lambda>x. f x + g x)"
  unfolding polyfun_def using peval_add by (metis length_map length_zip min.idem)

lemma polyfun_smult: "polyfun n f \<Longrightarrow> polyfun n (\<lambda>x. c * f x)"
  unfolding polyfun_def using peval_smult by (metis length_map)

lemma polyfun_diff:
  assumes "polyfun n f" "polyfun n g" shows "polyfun n (\<lambda>x. f x - g x)"
  using polyfun_add [OF assms(1) polyfun_smult [OF assms(2), of "- 1"]] by simp

lemma polyfun_linear:
  assumes "polyfun n f" shows "polyfun (Suc n) (\<lambda>x. f x * ((x - a) / b))"
proof -
  from assms obtain cs where cs: "length cs = n" "\<And>x. f x = peval cs x"
    by (auto simp: polyfun_def)
  have "polyfun (Suc n) (peval (0 # cs))" and "polyfun (Suc n) (peval cs)"
    using cs(1) by (simp_all add: polyfun_peval)
  then have "polyfun (Suc n) (\<lambda>x. (1 / b) * peval (0 # cs) x + (- (a / b)) * peval cs x)"
    by (intro polyfun_add polyfun_smult)
  then show ?thesis by (simp add: cs(2) diff_divide_distrib algebra_simps)
qed

lemma polyfun_prod:
  "finite S \<Longrightarrow> polyfun (Suc (card S)) (\<lambda>x. \<Prod>j\<in>S. (x - a j) / b j)"
proof (induction rule: finite_induct)
  case empty
  then show ?case using polyfun_const by simp
next
  case (insert j S)
  then show ?case
    using polyfun_linear [OF insert.IH, of "a j" "b j"] by (simp add: mult.commute)
qed

lemma polyfun_sum:
  "finite S \<Longrightarrow> (\<And>i. i \<in> S \<Longrightarrow> polyfun n (f i)) \<Longrightarrow> polyfun n (\<lambda>x. \<Sum>i\<in>S. f i x)"
  by (induction rule: finite_induct) (auto intro: polyfun_add polyfun_zero)

lemma polyfun_eq:
  assumes "polyfun n f" "polyfun n g" "distinct xs" "n \<le> length xs" "\<forall>a\<in>set xs. f a = g a"
  shows "f x = g x"
proof -
  obtain cs where cs: "length cs = n" "\<And>x. f x - g x = peval cs x"
    using polyfun_diff [OF assms(1,2)] by (auto simp: polyfun_def)
  from assms(3-5) cs have "peval cs x = 0"
    by (intro roots_bound [of xs]) (auto simp flip: cs(2))
  with cs(2) show ?thesis by (metis eq_iff_diff_eq_0)
qed

section \<open>Lagrange interpolation\<close>

definition lagrange_basis :: "'a::field list \<Rightarrow> nat \<Rightarrow> 'a \<Rightarrow> 'a" where
  "lagrange_basis xs i x = (\<Prod>j\<in>{..<length xs} - {i}. (x - xs ! j) / (xs ! i - xs ! j))"

definition lagrange :: "'a::field list \<Rightarrow> 'a list \<Rightarrow> 'a \<Rightarrow> 'a" where
  "lagrange xs ys x = (\<Sum>i<length xs. ys ! i * lagrange_basis xs i x)"

lemma lagrange_basis_point:
  assumes "distinct xs" "i < length xs" "k < length xs"
  shows "lagrange_basis xs i (xs ! k) = (if i = k then 1 else 0)"
proof (cases "i = k")
  case True
  have "(xs ! k - xs ! j) / (xs ! k - xs ! j) = 1" if "j \<in> {..<length xs} - {k}" for j
    using that assms by (auto simp: nth_eq_iff_index_eq)
  then show ?thesis using True by (simp add: lagrange_basis_def)
next
  case False
  then have "k \<in> {..<length xs} - {i}" using assms by auto
  then have "lagrange_basis xs i (xs ! k) = 0"
    unfolding lagrange_basis_def by (intro prod_zero) auto
  with False show ?thesis by simp
qed

lemma lagrange_point:
  assumes "distinct xs" "k < length xs"
  shows "lagrange xs ys (xs ! k) = ys ! k"
proof -
  have "lagrange xs ys (xs ! k) = (\<Sum>i<length xs. if i = k then ys ! i else 0)"
    unfolding lagrange_def using assms by (intro sum.cong) (auto simp: lagrange_basis_point)
  then show ?thesis using assms by simp
qed

lemma lagrange_polyfun: "polyfun (length xs) (lagrange xs ys)"
proof -
  have "polyfun (length xs) (\<lambda>x. ys ! i * lagrange_basis xs i x)" if "i \<in> {..<length xs}" for i
  proof -
    have "Suc (card ({..<length xs} - {i})) = length xs" using that by auto
    moreover have "polyfun (Suc (card ({..<length xs} - {i}))) (\<lambda>x. ys ! i * lagrange_basis xs i x)"
      unfolding lagrange_basis_def by (intro polyfun_smult polyfun_prod) simp
    ultimately show ?thesis by simp
  qed
  then show ?thesis unfolding lagrange_def by (intro polyfun_sum) auto
qed

text \<open>Interpolating a polynomial of degree below the number of points gives it back.\<close>

lemma lagrange_recovers:
  assumes "distinct xs" "length cs \<le> length xs"
    and "\<And>i. i < length xs \<Longrightarrow> ys ! i = peval cs (xs ! i)"
  shows "lagrange xs ys x = peval cs x"
proof (rule polyfun_eq [OF lagrange_polyfun polyfun_peval [OF assms(2)] assms(1) order_refl])
  show "\<forall>a\<in>set xs. lagrange xs ys a = peval cs a"
    using assms by (auto simp: in_set_conv_nth lagrange_point)
qed

text \<open>Through any points with distinct abscissas there is a polynomial of at least that length.\<close>

lemma interpolant_exists:
  assumes "distinct xs" "length xs \<le> n"
  shows "\<exists>cs. length cs = n \<and> (\<forall>i<length xs. peval cs (xs ! i) = ys ! i)"
proof -
  obtain cs where "length cs = length xs" "\<And>x. lagrange xs ys x = peval cs x"
    using lagrange_polyfun [of xs ys] by (auto simp: polyfun_def)
  with assms show ?thesis
    by (intro exI [of _ "cs @ replicate (n - length xs) 0"])
      (auto simp flip: \<open>\<And>x. lagrange xs ys x = peval cs x\<close> simp: lagrange_point)
qed

end
