(* ===== verification/Shamir_Sharing.thy ===== *)
theory Shamir_Sharing
  imports Galois Interpolation
begin

text \<open>
  Shamir's secret sharing, \<open>src/shamir/shamir.go\<close>: \<open>makePolynomial\<close>, \<open>evaluate\<close>,
  \<open>interpolatePolynomial\<close>, \<open>Split\<close> and \<open>Combine\<close>, with every early return and panic as a value
  of \<open>shamir_error\<close>. The random bytes that \<open>crypto/rand\<close> delivers are an explicit list from
  which the code takes its coefficients in order.
\<close>

section \<open>The code\<close>

datatype shamir_error =
    PartsLessThanThreshold | PartsExceed255 | ThresholdBelow2 | ThresholdExceeds255 | EmptySecret
  | RandomFailed
  | LessThanTwoParts | PartBelowTwoBytes | PartLengthsDiffer | DuplicatePart
  | PanicDivideByZero | PanicIndexOutOfRange

record polynomial =
  coefficients :: "byte list"

definition makePolynomial :: "byte \<Rightarrow> byte \<Rightarrow> byte list \<Rightarrow> shamir_error + (polynomial \<times> byte list)" where
  "makePolynomial intercept degree rnd =
     (let n = unat (degree + 1)
      in if n = 0 then Inl PanicIndexOutOfRange
         else if length rnd < n - 1 then Inl RandomFailed
         else Inr (\<lparr>coefficients = intercept # take (n - 1) rnd\<rparr>, drop (n - 1) rnd))"

text \<open>The loop of \<open>evaluate\<close>, counting \<open>i\<close> down to 0.\<close>

fun evaluate_loop :: "byte list \<Rightarrow> byte \<Rightarrow> nat \<Rightarrow> byte \<Rightarrow> byte" where
  "evaluate_loop cs x 0 out = out"
| "evaluate_loop cs x (Suc i) out = evaluate_loop cs x i (add (mult out x) (cs ! i))"

definition evaluate :: "polynomial \<Rightarrow> byte \<Rightarrow> shamir_error + byte" where
  "evaluate p x =
     (let cs = coefficients p
      in if cs = [] then Inl PanicIndexOutOfRange
         else if x = 0 then Inr (cs ! 0)
         else Inr (evaluate_loop cs x (length cs - 1) (cs ! (length cs - 1))))"

text \<open>The inner and outer loops of \<open>interpolatePolynomial\<close>, over the remaining indices.\<close>

fun basis_loop :: "byte list \<Rightarrow> byte \<Rightarrow> nat \<Rightarrow> nat list \<Rightarrow> byte \<Rightarrow> shamir_error + byte" where
  "basis_loop xSamples x i [] basis = Inr basis"
| "basis_loop xSamples x i (j # js) basis =
     (if i = j then basis_loop xSamples x i js basis
      else let num = add x (xSamples ! j);
               denom = add (xSamples ! i) (xSamples ! j)
           in case div_u8 num denom of
                None \<Rightarrow> Inl PanicDivideByZero
              | Some t \<Rightarrow> basis_loop xSamples x i js (mult basis t))"

fun interpolate_loop :: "byte list \<Rightarrow> byte list \<Rightarrow> byte \<Rightarrow> nat list \<Rightarrow> byte \<Rightarrow> shamir_error + byte" where
  "interpolate_loop xSamples ySamples x [] result = Inr result"
| "interpolate_loop xSamples ySamples x (i # is) result =
     bindE (basis_loop xSamples x i [0..<length xSamples] 1) (\<lambda>basis.
       interpolate_loop xSamples ySamples x is (add result (mult (ySamples ! i) basis)))"

definition interpolatePolynomial :: "byte list \<Rightarrow> byte list \<Rightarrow> byte \<Rightarrow> shamir_error + byte" where
  "interpolatePolynomial xSamples ySamples x =
     interpolate_loop xSamples ySamples x [0..<length xSamples] 0"

text \<open>\<open>Split\<close>: the output array, the loop that fills one byte of every share, the loop over the
  secret.\<close>

definition allocate_shares :: "nat \<Rightarrow> nat \<Rightarrow> byte list list" where
  "allocate_shares len parts = map (\<lambda>idx. (replicate (Suc len) 0)[len := of_nat idx + 1]) [0..<parts]"

fun fill_shares :: "polynomial \<Rightarrow> nat \<Rightarrow> nat list \<Rightarrow> byte list list \<Rightarrow> shamir_error + byte list list" where
  "fill_shares p idx [] out = Inr out"
| "fill_shares p idx (i # is) out =
     bindE (evaluate p (of_nat i + 1)) (\<lambda>y. fill_shares p idx is (out[i := (out ! i)[idx := y]]))"

fun split_loop ::
  "nat \<Rightarrow> byte list \<Rightarrow> nat \<Rightarrow> int \<Rightarrow> byte list \<Rightarrow> byte list list
     \<Rightarrow> shamir_error + (byte list list \<times> byte list)" where
  "split_loop idx [] parts threshold rnd out = Inr (out, rnd)"
| "split_loop idx (val # vals) parts threshold rnd out =
     bindE (makePolynomial val (of_int (threshold - 1)) rnd) (\<lambda>(p, rnd').
       bindE (fill_shares p idx [0..<parts] out) (\<lambda>out'.
         split_loop (Suc idx) vals parts threshold rnd' out'))"

definition Split ::
  "byte list \<Rightarrow> int \<Rightarrow> int \<Rightarrow> byte list \<Rightarrow> shamir_error + (byte list list \<times> byte list)" where
  "Split secret parts threshold rnd =
     (if parts < threshold then Inl PartsLessThanThreshold
      else if parts > 255 then Inl PartsExceed255
      else if threshold < 2 then Inl ThresholdBelow2
      else if threshold > 255 then Inl ThresholdExceeds255
      else if length secret = 0 then Inl EmptySecret
      else split_loop 0 secret (nat parts) threshold rnd (allocate_shares (length secret) (nat parts)))"

text \<open>\<open>Combine\<close>: the duplicate check over \<open>checkMap\<close>, and the loop over the secret's bytes.\<close>

fun collect_samples :: "nat \<Rightarrow> byte list list \<Rightarrow> byte list \<Rightarrow> shamir_error + byte list" where
  "collect_samples n [] checkMap = Inr []"
| "collect_samples n (part # parts) checkMap =
     (let samp = part ! (n - 1)
      in if samp \<in> set checkMap then Inl DuplicatePart
         else bindE (collect_samples n parts (samp # checkMap)) (\<lambda>xs. Inr (samp # xs)))"

definition Combine :: "byte list list \<Rightarrow> shamir_error + byte list" where
  "Combine parts =
     (if length parts < 2 then Inl LessThanTwoParts
      else let firstPartLen = length (parts ! 0)
      in if firstPartLen < 2 then Inl PartBelowTwoBytes
      else if \<exists>p\<in>set (tl parts). length p \<noteq> firstPartLen then Inl PartLengthsDiffer
      else bindE (collect_samples firstPartLen parts []) (\<lambda>xSamples.
             mapE (\<lambda>idx. interpolatePolynomial xSamples (map (\<lambda>part. part ! idx) parts) 0)
               [0..<firstPartLen - 1]))"

section \<open>Evaluation\<close>

text \<open>A polynomial over bytes, read in the field.\<close>

abbreviation gf_poly :: "byte list \<Rightarrow> byte \<Rightarrow> gf256" where
  "gf_poly cs x \<equiv> peval (map GF cs) (GF x)"

lemma evaluate_loop_poly:
  "n \<le> length cs \<Longrightarrow>
   GF (evaluate_loop cs x n out) = peval (map GF (take n cs)) (GF x) + GF out * GF x ^ n"
proof (induction n arbitrary: out)
  case (Suc n)
  then have "take (Suc n) cs = take n cs @ [cs ! n]" by (simp add: take_Suc_conv_app_nth)
  with Suc show ?case by (simp add: GF_hom peval_snoc algebra_simps)
qed simp

lemma evaluate_poly:
  assumes "coefficients p \<noteq> []"
  shows "evaluate p x = Inr (unGF (gf_poly (coefficients p) x))"
proof (cases "x = 0")
  case True
  with assms show ?thesis by (simp add: evaluate_def GF_0 peval_0 hd_conv_nth hd_map)
next
  case False
  let ?cs = "coefficients p"
  let ?n = "length ?cs - 1"
  have "GF (evaluate_loop ?cs x ?n (?cs ! ?n)) = gf_poly ?cs x"
    using assms by (subst evaluate_loop_poly)
      (simp_all add: peval_last [of "map GF ?cs"] map_butlast last_map last_conv_nth butlast_conv_take take_map)
  then have "evaluate_loop ?cs x ?n (?cs ! ?n) = unGF (gf_poly ?cs x)"
    by (metis gf256.sel)
  with assms False show ?thesis by (simp add: evaluate_def)
qed

section \<open>What \<open>Split\<close> returns\<close>

text \<open>The coefficients drawn for byte \<open>b\<close> of the secret, and the share of a byte at \<open>x\<close>.\<close>

definition drawn :: "byte list \<Rightarrow> nat \<Rightarrow> byte list \<Rightarrow> nat \<Rightarrow> byte list" where
  "drawn secret t rnd b = secret ! b # take (t - 1) (drop (b * (t - 1)) rnd)"

definition share_spec :: "byte list \<Rightarrow> nat \<Rightarrow> byte list \<Rightarrow> nat \<Rightarrow> byte list" where
  "share_spec secret t rnd i =
     map (\<lambda>b. unGF (gf_poly (drawn secret t rnd b) (of_nat i + 1))) [0..<length secret] @ [of_nat i + 1]"

lemma length_share_spec [simp]: "length (share_spec secret t rnd i) = Suc (length secret)"
  by (simp add: share_spec_def)

lemma fill_shares_eq:
  assumes "coefficients p \<noteq> []" "distinct is" "\<forall>i\<in>set is. i < length out"
  shows "fill_shares p idx is out =
     Inr (map (\<lambda>i. if i \<in> set is
                     then (out ! i)[idx := unGF (gf_poly (coefficients p) (of_nat i + 1))]
                     else out ! i) [0..<length out])"
  using assms(2,3)
proof (induction "is" arbitrary: out)
  case Nil
  then show ?case by (simp add: map_nth)
next
  case (Cons i "is")
  show ?case
    using Cons by (auto simp: evaluate_poly [OF assms(1)] nth_list_update)
qed

lemma makePolynomial_eq:
  assumes "2 \<le> t" "t \<le> 255" "nat t - 1 \<le> length rnd"
  shows "makePolynomial v (word_of_int t - 1) rnd =
     Inr (\<lparr>coefficients = v # take (nat t - 1) rnd\<rparr>, drop (nat t - 1) rnd)"
proof -
  have "unat (of_int t :: byte) = nat t"
    using assms by (simp add: unat_eq_nat_uint uint_word_of_int take_bit_int_eq_self)
  then show ?thesis using assms by (simp add: makePolynomial_def Let_def)
qed

lemma makePolynomial_short:
  assumes "2 \<le> t" "t \<le> 255" "length rnd < nat t - 1"
  shows "makePolynomial v (word_of_int t - 1) rnd = Inl RandomFailed"
proof -
  have "unat (of_int t :: byte) = nat t"
    using assms by (simp add: unat_eq_nat_uint uint_word_of_int take_bit_int_eq_self)
  then show ?thesis using assms by (simp add: makePolynomial_def Let_def)
qed

lemma drawn_Suc: "drawn (v # vals) t rnd (Suc b) = drawn vals t (drop (t - 1) rnd) b"
  by (simp add: drawn_def add.commute)

lemma drawn_0: "drawn (v # vals) t rnd 0 = v # take (t - 1) rnd"
  by (simp add: drawn_def)

lemma split_loop_eq:
  assumes "2 \<le> t" "t \<le> 255"
  shows "length out = parts \<Longrightarrow> \<forall>row\<in>set out. idx + length vals \<le> length row \<Longrightarrow>
    length vals * (nat t - 1) \<le> length rnd \<Longrightarrow>
    split_loop idx vals parts t rnd out =
      Inr (map (\<lambda>i. take idx (out ! i)
                  @ map (\<lambda>b. unGF (gf_poly (drawn vals (nat t) rnd b) (of_nat i + 1))) [0..<length vals]
                  @ drop (idx + length vals) (out ! i)) [0..<parts],
           drop (length vals * (nat t - 1)) rnd)"
proof (induction vals arbitrary: idx rnd out)
  case Nil
  then show ?case by (auto simp: map_nth)
next
  case (Cons v vals)
  let ?p = "\<lparr>coefficients = v # take (nat t - 1) rnd\<rparr>"
  let ?y = "\<lambda>i. unGF (gf_poly (coefficients ?p) (of_nat i + 1))"
  let ?out = "map (\<lambda>i. (out ! i)[idx := ?y i]) [0..<parts]"
  have "nat t - 1 \<le> length rnd" using Cons.prems(3) by simp
  then have poly: "makePolynomial v (of_int (t - 1)) rnd = Inr (?p, drop (nat t - 1) rnd)"
    using assms by (simp add: makePolynomial_eq)
  have fill: "fill_shares ?p idx [0..<parts] out = Inr ?out"
    using Cons.prems(1) by (subst fill_shares_eq) auto
  have rows: "i < parts \<Longrightarrow> Suc idx + length vals \<le> length (out ! i)" for i
    using Cons.prems(1,2) by (auto simp: all_set_conv_all_nth)
  have idx: "i < parts \<Longrightarrow> idx < length (out ! i)" for i using rows [of i] by simp
  have "split_loop idx (v # vals) parts t rnd out
      = split_loop (Suc idx) vals parts t (drop (nat t - 1) rnd) ?out"
    by (simp only: split_loop.simps poly bindE_Inr prod.case fill)
  also have "\<dots> = Inr (map (\<lambda>i. take (Suc idx) (?out ! i)
        @ map (\<lambda>b. unGF (gf_poly (drawn vals (nat t) (drop (nat t - 1) rnd) b) (of_nat i + 1))) [0..<length vals]
        @ drop (Suc idx + length vals) (?out ! i)) [0..<parts],
      drop (length vals * (nat t - 1)) (drop (nat t - 1) rnd))"
    using Cons.prems rows by (intro Cons.IH) auto
  also have "\<dots> = Inr (map (\<lambda>i. take idx (out ! i)
        @ map (\<lambda>b. unGF (gf_poly (drawn (v # vals) (nat t) rnd b) (of_nat i + 1))) [0..<length (v # vals)]
        @ drop (idx + length (v # vals)) (out ! i)) [0..<parts],
      drop (length (v # vals) * (nat t - 1)) rnd)"
    using rows idx by (auto simp: map_upt_Suc drawn_Suc drawn_0 take_Suc_conv_app_nth add.commute
        simp del: upt_Suc)
  finally show ?case .
qed

lemma split_loop_short:
  assumes "2 \<le> t" "t \<le> 255"
  shows "length rnd < length vals * (nat t - 1) \<Longrightarrow> length out = parts \<Longrightarrow>
    split_loop idx vals parts t rnd out = Inl RandomFailed"
proof (induction vals arbitrary: idx rnd out)
  case (Cons v vals)
  show ?case
  proof (cases "length rnd < nat t - 1")
    case True
    then show ?thesis using assms by (simp add: makePolynomial_short)
  next
    case False
    then have "length (drop (nat t - 1) rnd) < length vals * (nat t - 1)"
      using Cons.prems(1) by simp arith
    with False assms Cons.prems(2) show ?thesis
      by (simp add: makePolynomial_eq fill_shares_eq Cons.IH)
  qed
qed simp

definition split_params_ok :: "byte list \<Rightarrow> int \<Rightarrow> int \<Rightarrow> bool" where
  "split_params_ok secret parts threshold \<longleftrightarrow>
     2 \<le> threshold \<and> threshold \<le> parts \<and> parts \<le> 255 \<and> secret \<noteq> []"

lemma allocate_shares_eq:
  "allocate_shares len parts = map (\<lambda>i. replicate len 0 @ [of_nat i + 1]) [0..<parts]"
  unfolding allocate_shares_def by (simp add: replicate_append_same [symmetric] list_update_append)

lemma Split_eq:
  assumes "split_params_ok secret parts t" "length secret * (nat t - 1) \<le> length rnd"
  shows "Split secret parts t rnd =
    Inr (map (share_spec secret (nat t) rnd) [0..<nat parts], drop (length secret * (nat t - 1)) rnd)"
  using assms unfolding split_params_ok_def Split_def
  by (simp, subst split_loop_eq)
    (auto simp: allocate_shares_eq share_spec_def)

lemma Split_ok:
  assumes "Split secret parts t rnd = Inr r"
  shows "split_params_ok secret parts t" "length secret * (nat t - 1) \<le> length rnd"
proof -
  show ok: "split_params_ok secret parts t"
    using assms by (auto simp: Split_def split_params_ok_def split: if_splits)
  show "length secret * (nat t - 1) \<le> length rnd"
  proof (rule ccontr)
    assume "\<not> ?thesis"
    then have "Split secret parts t rnd = Inl RandomFailed"
      using ok by (simp add: Split_def split_params_ok_def split_loop_short allocate_shares_eq)
    with assms show False by simp
  qed
qed

section \<open>What \<open>Combine\<close> returns\<close>

lemma GF_interp_factor:
  assumes "basis_loop xs x i js basis = Inr r"
  shows "GF r = GF basis * (\<Prod>j\<leftarrow>filter (\<lambda>j. j \<noteq> i) js. (GF x - GF (xs ! j)) / (GF (xs ! i) - GF (xs ! j)))"
  using assms
proof (induction js arbitrary: basis)
  case (Cons j js)
  show ?case
  proof (cases "i = j")
    case False
    with Cons.prems obtain t where t: "div_u8 (add x (xs ! j)) (add (xs ! i) (xs ! j)) = Some t"
      and r: "basis_loop xs x i js (mult basis t) = Inr r"
      by (auto simp: Let_def split: option.splits)
    from Cons.IH [OF r] GF_div [OF t] False show ?thesis
      by (simp add: GF_hom mult.assoc)
  qed (use Cons in simp)
qed simp

lemma basis_loop_defined:
  assumes "distinct xs" "i < length xs" "set js \<subseteq> {..<length xs}"
  shows "\<exists>r. basis_loop xs x i js basis = Inr r"
  using assms(3)
proof (induction js arbitrary: basis)
  case (Cons j js)
  show ?case
  proof (cases "i = j")
    case False
    then have "xs ! i \<noteq> xs ! j" using assms Cons.prems by (simp add: nth_eq_iff_index_eq)
    with False Cons show ?thesis by (simp add: div_u8_Some Let_def)
  qed (use Cons in simp)
qed simp

lemma basis_loop_lagrange:
  assumes "distinct xs" "i < length xs"
  shows "basis_loop xs x i [0..<length xs] 1 = Inr (unGF (lagrange_basis (map GF xs) i (GF x)))"
proof -
  obtain r where r: "basis_loop xs x i [0..<length xs] 1 = Inr r"
    using basis_loop_defined [OF assms, of "[0..<length xs]" x 1] by (auto simp: lessThan_atLeast0)
  have "{j \<in> {0..<length xs}. j \<noteq> i} = {..<length xs} - {i}" by auto
  then have "GF r = lagrange_basis (map GF xs) i (GF x)"
    using GF_interp_factor [OF r] assms
    by (simp add: GF_hom lagrange_basis_def prod.distinct_set_conv_list [symmetric] del: gf_minus)
  then show ?thesis using r by (metis gf256.sel)
qed

lemma interpolate_loop_lagrange:
  assumes "distinct xs" "set is \<subseteq> {..<length xs}" "length ys = length xs"
  shows "interpolate_loop xs ys x is result =
    Inr (unGF (GF result + (\<Sum>i\<leftarrow>is. map GF ys ! i * lagrange_basis (map GF xs) i (GF x))))"
  using assms(2)
proof (induction "is" arbitrary: result)
  case (Cons i "is")
  then show ?case using assms(1,3) by (simp add: basis_loop_lagrange GF_hom add.assoc)
qed simp

text \<open>The byte loop is Lagrange interpolation in the field; it never divides by zero when the
  abscissas are distinct.\<close>

lemma interpolatePolynomial_lagrange:
  assumes "distinct xs" "length ys = length xs"
  shows "interpolatePolynomial xs ys x = Inr (unGF (lagrange (map GF xs) (map GF ys) (GF x)))"
  unfolding interpolatePolynomial_def
  by (subst interpolate_loop_lagrange [OF assms(1) _ assms(2)])
    (auto simp: GF_hom lagrange_def sum.distinct_set_conv_list [symmetric] atLeast0LessThan)

lemma collect_samples_eq:
  "collect_samples n parts seen =
    (if distinct (map (\<lambda>p. p ! (n - 1)) parts) \<and> set (map (\<lambda>p. p ! (n - 1)) parts) \<inter> set seen = {}
     then Inr (map (\<lambda>p. p ! (n - 1)) parts) else Inl DuplicatePart)"
  by (induction parts arbitrary: seen) (auto simp: Let_def bindE_def)

lemma nth_share_spec_last [simp]: "share_spec secret t rnd i ! length secret = of_nat i + 1"
  by (simp add: share_spec_def nth_append)

lemma nth_share_spec:
  "b < length secret \<Longrightarrow>
   share_spec secret t rnd i ! b = unGF (gf_poly (drawn secret t rnd b) (of_nat i + 1))"
  by (simp add: share_spec_def nth_append)

lemma coordinate_inj: "i < 255 \<Longrightarrow> j < 255 \<Longrightarrow> (of_nat i + 1 :: byte) = of_nat j + 1 \<Longrightarrow> i = j"
  by (simp add: word_of_nat_eq_iff take_bit_nat_eq_self)

lemma coordinate_nonzero: "i < 255 \<Longrightarrow> (of_nat i + 1 :: byte) \<noteq> 0"
  using word_of_nat_eq_0_iff [of "Suc i", where 'a = 8] by (auto simp: add.commute dest: dvd_imp_le)

lemma distinct_coordinates:
  assumes "distinct idx" "\<forall>i\<in>set idx. i < n" "n \<le> 255"
  shows "distinct (map (\<lambda>i. of_nat i + 1 :: byte) idx)"
  using assms by (auto simp: distinct_map intro!: inj_onI coordinate_inj)

lemma Combine_shares:
  assumes "distinct idx" "\<forall>i\<in>set idx. i < 255" "t \<le> length idx" "2 \<le> t" "secret \<noteq> []"
  shows "Combine (map (share_spec secret t rnd) idx) = Inr secret"
proof -
  let ?parts = "map (share_spec secret t rnd) idx"
  let ?n = "Suc (length secret)"
  let ?xs = "map (\<lambda>i. of_nat i + 1 :: byte) idx"
  have dist: "distinct ?xs" using distinct_coordinates assms(1,2) by auto
  have len: "2 \<le> length ?parts" using assms by simp
  have first: "length (?parts ! 0) = ?n" using len by (cases idx) auto
  have samples: "collect_samples ?n ?parts [] = Inr ?xs"
    using dist by (simp add: collect_samples_eq comp_def)
  have byte: "interpolatePolynomial ?xs (map (\<lambda>part. part ! b) ?parts) 0 = Inr (secret ! b)"
    if b: "b < length secret" for b
  proof -
    let ?cs = "map GF (drawn secret t rnd b)"
    have "lagrange (map GF ?xs) (map GF (map (\<lambda>part. part ! b) ?parts)) (GF 0) = peval ?cs (GF 0)"
    proof (rule lagrange_recovers)
      show "distinct (map GF ?xs)" using dist by (simp add: distinct_map inj_on_def)
      show "length ?cs \<le> length (map GF ?xs)" using assms(3,4) by (simp add: drawn_def)
    qed (use b in \<open>simp add: nth_share_spec\<close>)
    also have "\<dots> = GF (secret ! b)" by (simp add: GF_0 peval_0 drawn_def)
    finally show ?thesis using dist by (simp add: interpolatePolynomial_lagrange)
  qed
  have "Combine ?parts = mapE (\<lambda>b. interpolatePolynomial ?xs (map (\<lambda>part. part ! b) ?parts) 0)
      [0..<?n - 1]"
    using len first assms(5) samples unfolding Combine_def
    by (auto simp: Let_def map_tl [symmetric])
  also have "\<dots> = Inr (map ((!) secret) [0..<length secret])"
    using byte by (intro mapE_Inr_map [THEN trans]) auto
  finally show ?thesis by (simp add: map_nth)
qed

section \<open>Consistency of too few shares with every secret\<close>

lemma chunk_concat:
  assumes "\<forall>b<n. length (f b) = k" "b < n"
  shows "take k (drop (b * k) (concat (map f [0..<n]))) = f b"
proof -
  have "length (concat (map f [0..<b])) = b * k" if "b \<le> n" for b
    using assms(1) that by (induction b) simp_all
  then have "length (concat (map f [0..<b])) = b * k" using assms(2) by simp
  moreover have "[0..<n] = [0..<b] @ b # [Suc b..<n]"
    using assms(2) upt_add_eq_append [of 0 b "n - b"] by (simp add: upt_conv_Cons)
  ultimately show ?thesis using assms by simp
qed

text \<open>A choice of coefficients for one byte that gives the secret byte \<open>v\<close> and agrees with given
  values at fewer than \<open>t\<close> coordinates.\<close>

lemma coefficients_exist:
  assumes "distinct idx" "\<forall>i\<in>set idx. i < 255" "length idx < t"
  shows "\<exists>cs. length cs = t \<and> hd cs = v \<and>
    (\<forall>i\<in>set idx. gf_poly cs (of_nat i + 1) = y i)"
proof -
  let ?xs = "0 # map (\<lambda>i. GF (of_nat i + 1)) idx"
  let ?ys = "GF v # map y idx"
  have "distinct (map GF (map (\<lambda>i. of_nat i + 1) idx))"
    using distinct_coordinates [OF assms(1,2)] by (simp only: distinct_map) (auto intro: inj_onI)
  then have "distinct ?xs"
    using assms(2) coordinate_nonzero by (auto simp: comp_def dest!: sym [of 0])
  then obtain cs where cs: "length cs = t" "\<And>i. i < length ?xs \<Longrightarrow> peval cs (?xs ! i) = ?ys ! i"
    using interpolant_exists [of ?xs t ?ys] assms(3) by auto
  have "cs \<noteq> []" using cs(1) assms(3) by auto
  moreover have "peval cs 0 = GF v" using cs(2) [of 0] by simp
  ultimately have "hd (map unGF cs) = v" by (simp add: peval_0 hd_map)
  moreover have "gf_poly (map unGF cs) (of_nat i + 1) = y i" if "i \<in> set idx" for i
  proof -
    from that obtain k where "k < length idx" "idx ! k = i" by (auto simp: in_set_conv_nth)
    with cs(2) [of "Suc k"] show ?thesis by (simp add: comp_def)
  qed
  ultimately show ?thesis using cs(1) by (intro exI [of _ "map unGF cs"]) simp
qed

section \<open>The interface of threshold sharing\<close>

text \<open>What a client of the package relies on: as many parts as asked for, and any \<open>threshold\<close> of them,
  at distinct positions and in any order, combine to the secret.\<close>

locale secret_sharing =
  fixes split :: "'s \<Rightarrow> int \<Rightarrow> int \<Rightarrow> 'r \<Rightarrow> 'e + ('p list \<times> 'r)"
    and combine :: "'p list \<Rightarrow> 'e + 's"
  assumes split_length: "split secret n k r = Inr (parts, r') \<Longrightarrow> length parts = nat n"
    and combine_split: "split secret n k r = Inr (parts, r') \<Longrightarrow> distinct idx \<Longrightarrow>
      \<forall>i\<in>set idx. i < length parts \<Longrightarrow> nat k \<le> length idx \<Longrightarrow> combine (map ((!) parts) idx) = Inr secret"
begin

lemma surviving_parts:
  assumes "split secret n k r = Inr (parts, r')"
    and "nat k \<le> length (filter (\<lambda>i. alive i) [0..<length parts])"
  shows "combine (map ((!) parts) (filter alive [0..<length parts])) = Inr secret"
  by (rule combine_split [OF assms(1)]) (use assms(2) in auto)

end

lemma Combine_Split:
  assumes "Split secret parts threshold rnd = Inr (shares, rest)"
    and "distinct idx" and "\<forall>i\<in>set idx. i < length shares" and "nat threshold \<le> length idx"
  shows "Combine (map (\<lambda>i. shares ! i) idx) = Inr secret"
proof -
  from Split_ok [OF assms(1)] have ok: "split_params_ok secret parts threshold"
    and "length secret * (nat threshold - 1) \<le> length rnd" by auto
  from Split_eq [OF this] assms(1)
  have shares: "shares = map (share_spec secret (nat threshold) rnd) [0..<nat parts]" by simp
  then have "map (\<lambda>i. shares ! i) idx = map (share_spec secret (nat threshold) rnd) idx"
    using assms(3) by simp
  moreover have "Combine (map (share_spec secret (nat threshold) rnd) idx) = Inr secret"
    using ok assms(2-4) shares by (intro Combine_shares) (auto simp: split_params_ok_def)
  ultimately show ?thesis by (simp only:)
qed

lemma Split_length: "Split secret parts threshold rnd = Inr (shares, rest) \<Longrightarrow> length shares = nat parts"
  using Split_ok Split_eq by fastforce

interpretation shamir: secret_sharing Split Combine
  by unfold_locales (rule Split_length, assumption, rule Combine_Split)

section \<open>Properties\<close>

text \<open>C5. Splitting a secret and combining any \<open>threshold\<close> or more distinct shares, in any order,
  returns the secret.\<close>

theorem split_combine:
  assumes "Split secret parts threshold rnd = Inr (shares, rest)"
    and "distinct idx" and "\<forall>i\<in>set idx. i < length shares" and "nat threshold \<le> length idx"
  shows "Combine (map (\<lambda>i. shares ! i) idx) = Inr secret"
  by (rule shamir.combine_split [OF assms(1) _ _ assms(4)]) (use assms in auto)

text \<open>C16. Fewer than \<open>threshold\<close> shares do not determine the secret: for every secret of the same
  length there are random bytes with which \<open>Split\<close> hands out the very same shares.\<close>

theorem split_perfect_secrecy:
  assumes "Split secret parts threshold rnd = Inr (shares, rest)"
    and "length idx < nat threshold" and "distinct idx" and "\<forall>i\<in>set idx. i < length shares"
    and "length secret' = length secret"
  shows "\<exists>rnd' shares' rest'. Split secret' parts threshold rnd' = Inr (shares', rest')
    \<and> (\<forall>i\<in>set idx. shares' ! i = shares ! i)"
proof -
  let ?t = "nat threshold"
  let ?n = "length secret"
  from Split_ok [OF assms(1)] have ok: "split_params_ok secret parts threshold"
    and rnd: "?n * (?t - 1) \<le> length rnd" by auto
  from Split_eq [OF this] assms(1)
  have shares: "shares = map (share_spec secret ?t rnd) [0..<nat parts]" by simp
  have idx: "\<forall>i\<in>set idx. i < 255" using assms(4) shares ok by (auto simp: split_params_ok_def)
  have "\<forall>b. \<exists>cs. length cs = ?t \<and> hd cs = secret' ! b \<and>
      (\<forall>i\<in>set idx. gf_poly cs (of_nat i + 1) = gf_poly (drawn secret ?t rnd b) (of_nat i + 1))"
    by (intro allI coefficients_exist [OF assms(3) idx assms(2)])
  then obtain C where C: "\<And>b. length (C b) = ?t" "\<And>b. hd (C b) = secret' ! b"
    "\<And>b i. i \<in> set idx \<Longrightarrow> gf_poly (C b) (of_nat i + 1) = gf_poly (drawn secret ?t rnd b) (of_nat i + 1)"
    by metis
  define rnd' where "rnd' = concat (map (\<lambda>b. tl (C b)) [0..<?n])"
  have drawn: "drawn secret' ?t rnd' b = C b" if "b < ?n" for b
  proof -
    have "C b \<noteq> []" using C(1) [of b] ok by (auto simp: split_params_ok_def)
    moreover have "take (?t - 1) (drop (b * (?t - 1)) rnd') = tl (C b)"
      unfolding rnd'_def using that by (intro chunk_concat) (simp_all add: C(1))
    ultimately show ?thesis using C(2) [of b] by (metis drawn_def list.collapse)
  qed
  have "length rnd' = ?n * (?t - 1)"
    unfolding rnd'_def by (simp add: length_concat C(1) comp_def sum_list_triv)
  then have "Split secret' parts threshold rnd' =
      Inr (map (share_spec secret' ?t rnd') [0..<nat parts], drop (?n * (?t - 1)) rnd')"
    using ok assms(5) by (subst Split_eq) (auto simp: split_params_ok_def)
  moreover have "share_spec secret' ?t rnd' i = share_spec secret ?t rnd i" if "i \<in> set idx" for i
    using that assms(5) by (simp add: share_spec_def drawn C(3))
  ultimately show ?thesis using shares assms(4) by (intro exI conjI) (assumption, auto)
qed

text \<open>C18. \<open>Split\<close> succeeds exactly for admissible parameters and enough random bytes, and then returns
  \<open>parts\<close> shares, each one byte longer than the secret and ending in its coordinate, which
  is the share's index plus one.\<close>

theorem split_result:
  "((\<exists>r. Split secret parts threshold rnd = Inr r) \<longleftrightarrow>
      split_params_ok secret parts threshold \<and> length secret * (nat threshold - 1) \<le> length rnd)
   \<and> (\<forall>shares rest. Split secret parts threshold rnd = Inr (shares, rest) \<longrightarrow>
        length shares = nat parts \<and> rest = drop (length secret * (nat threshold - 1)) rnd
        \<and> (\<forall>i<nat parts. length (shares ! i) = length secret + 1 \<and> last (shares ! i) = of_nat i + 1))"
  (is "?iff \<and> ?shape")
proof
  show ?iff using Split_ok Split_eq by blast
  have "?shape" if "split_params_ok secret parts threshold"
    and "length secret * (nat threshold - 1) \<le> length rnd"
    using Split_eq [OF that] by (auto simp: share_spec_def)
  then show ?shape using Split_ok by blast
qed

text \<open>C17. \<open>Combine\<close> never panics: whatever the parts, it returns one of its four errors or a value,
  and it returns a value exactly when there are two parts or more, of one common length of at
  least two bytes, with pairwise distinct last bytes.\<close>

theorem combine_total:
  "Combine parts \<in> {Inl LessThanTwoParts, Inl PartBelowTwoBytes, Inl PartLengthsDiffer, Inl DuplicatePart}
     \<union> {Inr secret | secret. Suc (length secret) = length (parts ! 0)}
   \<and> ((\<exists>secret. Combine parts = Inr secret) \<longleftrightarrow>
        2 \<le> length parts \<and> 2 \<le> length (parts ! 0)
        \<and> (\<forall>p\<in>set parts. length p = length (parts ! 0)) \<and> distinct (map last parts))"
proof (cases "2 \<le> length parts \<and> 2 \<le> length (parts ! 0) \<and> (\<forall>p\<in>set (tl parts). length p = length (parts ! 0))")
  case False
  then show ?thesis by (cases parts) (auto simp: Combine_def Let_def Suc_le_eq)
next
  case True
  let ?n = "length (parts ! 0)"
  let ?xs = "map (\<lambda>p. p ! (?n - 1)) parts"
  have len: "\<forall>p\<in>set parts. length p = ?n" using True by (cases parts) auto
  then have xs: "?xs = map last parts"
  proof (intro map_cong refl)
    fix p assume "p \<in> set parts"
    with len True have "length p = ?n" "p \<noteq> []" by auto
    then show "p ! (?n - 1) = last p" by (simp add: last_conv_nth)
  qed
  then have dist_last: "distinct ?xs \<longleftrightarrow> distinct (map last parts)" by (simp only:)
  have eq: "Combine parts = bindE (collect_samples ?n parts []) (\<lambda>xs.
      mapE (\<lambda>idx. interpolatePolynomial xs (map (\<lambda>part. part ! idx) parts) 0) [0..<?n - 1])"
    using True by (auto simp: Combine_def Let_def)
  show ?thesis
  proof (cases "distinct ?xs")
    case False
    then have "Combine parts = Inl DuplicatePart" by (simp add: eq collect_samples_eq)
    moreover have "\<not> distinct (map last parts)" using False dist_last by blast
    ultimately show ?thesis by simp
  next
    case dist: True
    define f where "f = (\<lambda>b. unGF (lagrange (map GF ?xs) (map GF (map (\<lambda>part. part ! b) parts)) (GF 0)))"
    have "Combine parts = Inr (map f [0..<?n - 1])"
      using dist unfolding eq f_def
      by (simp add: collect_samples_eq interpolatePolynomial_lagrange mapE_Inr_map)
    moreover have "distinct (map last parts)" using dist dist_last by blast
    ultimately show ?thesis using True len by auto
  qed
qed

text \<open>The byte operations of the package are those of a field: addition is exclusive or,
  multiplication is associative, commutative and distributes over it, and \<open>inverse\<close> computes the
  multiplicative inverse of every non-zero byte, so \<open>div\<close> undoes \<open>mult\<close>.\<close>

lemma byte_field:
  "mult (mult a b) c = mult a (mult b c) \<and> mult a b = mult b a \<and> mult 1 a = a
   \<and> mult (add a b) c = add (mult a c) (mult b c)
   \<and> (a \<noteq> 0 \<longrightarrow> mult a (inverse_u8 a) = 1 \<and> div_u8 (mult a b) a = Some b)"
proof (intro conjI impI)
  assume "a \<noteq> 0"
  then have inv: "GF a * inverse_class.inverse (GF a) = 1" by simp
  then show "mult a (inverse_u8 a) = 1"
    by (simp add: inverse_gf256_def flip: GF_mult GF_1)
  with \<open>a \<noteq> 0\<close> show "div_u8 (mult a b) a = Some b"
    by (simp add: div_u8_def mult_commute [of a b] mult_assoc mult_commute [of b 1] mult_one_left)
qed (rule mult_assoc, rule mult_commute, rule mult_one_left, rule mult_xor_left)

section \<open>Witnesses\<close>

lemma split_example:
  "Split [0x42] 3 2 [0x17] = Inr ([[0x55, 1], [0x6C, 2], [0x7B, 3]], [])"
proof -
  have "mult 1 0x17 = 0x17" "mult 2 0x17 = 0x2E" "mult 3 0x17 = 0x39"
    by (simp_all add: mult_eval mult_round_def)
  moreover have "mult x (unGF 0) = 0" for x
    by (simp add: zero_gf256_def mult_commute [of x] mult_zero_left)
  ultimately show ?thesis
    by (simp add: Split_eq split_params_ok_def share_spec_def drawn_def upt_rec
        plus_gf256_def times_gf256_def add_def)
qed

theorem split_combine_witness: "Combine [[0x7B, 3], [0x55, 1]] = Inr [0x42 :: byte]"
  using split_combine [OF split_example, of "[2, 0]"] by simp

theorem split_perfect_secrecy_witness:
  "\<exists>rnd' shares' rest'. Split [0xFF] 3 2 rnd' = Inr (shares', rest') \<and> shares' ! 1 = [0x6C, 2]"
  using split_perfect_secrecy [OF split_example, of "[1]" "[0xFF]"] by simp

theorem split_result_witness: "length [[0x55, 1], [0x6C, 2], [0x7B, 3 :: byte]] = nat 3"
  using split_result [of "[0x42]" 3 2 "[0x17]"] split_example by blast

theorem byte_field_witness: "mult 0x53 (inverse_u8 0x53) = 1 \<and> div_u8 (mult 0x53 7) 0x53 = Some 7"
proof -
  have "(0x53 :: byte) \<noteq> 0" by simp
  with byte_field [where a = "0x53" and b = "7"] show ?thesis by blast
qed

theorem combine_total_witness: "\<exists>secret. Combine [[0x7B, 3], [0x55, 1 :: byte]] = Inr secret"
  using combine_total [of "[[0x7B, 3], [0x55, 1]]"] by simp

end
