(* ===== verification/Trees.thy ===== *)
theory Trees
  imports Sops_Prelude "HOL-Library.AList"
begin

text \<open>
  The document tree of \<open>src/sops.go\<close>: the values a Go \<open>interface{}\<close> holds inside a tree, comments,
  \<open>TreeItem\<close> and \<open>TreeBranch\<close>, and the operations on them: \<open>equals\<close>, \<open>Set\<close>, \<open>Unset\<close>,
  \<open>Truncate\<close>, \<open>ToBytes\<close> and \<open>EmitAsMap\<close>. The lemmas show that the path operations behave as
  reads, writes and deletions at a position.

  The Go operations update slices in place and return the updated slice, which every caller uses
  in place of the old one; the model returns the updated value.
\<close>

section \<open>Values\<close>

text \<open>A \<open>float64\<close> is its 64 bits; \<open>==\<close> is not identity of bits: no NaN equals anything, the two
  zeros are equal.\<close>

datatype f64 = F64 (bits: "64 word")

definition f64_is_nan :: "f64 \<Rightarrow> bool" where
  "f64_is_nan x = (take_bit 63 (bits x) > 0x7FF0000000000000)"

definition f64_is_zero :: "f64 \<Rightarrow> bool" where
  "f64_is_zero x = (take_bit 63 (bits x) = 0)"

definition f64_eq :: "f64 \<Rightarrow> f64 \<Rightarrow> bool" where
  "f64_eq x y =
     (\<not> f64_is_nan x \<and> \<not> f64_is_nan y \<and> (bits x = bits y \<or> f64_is_zero x \<and> f64_is_zero y))"

text \<open>A \<open>time.Time\<close>: the instant and the location pointer, all of which \<open>==\<close> compares.\<close>

record gotime =
  seconds :: int
  nanoseconds :: nat
  location :: nat

record comment =
  CValue :: string
  Inline :: bool

text \<open>Keys and path components: the comparable values that stores put into \<open>Key\<close>. \<open>KOther\<close> stands
  for a value of a type the code does not name.\<close>

datatype gkey =
    KStr string | KInt int | KBool bool | KFloat f64 | KTime gotime | KNil
  | KComment comment | KOther string

text \<open>Values. \<open>GDuration\<close> is \<open>time.Duration\<close> in nanoseconds; \<open>GOther\<close> a value of any other dynamic
  type, by the type's name.\<close>

datatype gval =
    GNil
  | GStr string
  | GBytes string
  | GInt int
  | GBool bool
  | GFloat f64
  | GTime gotime
  | GDuration int
  | GComment comment
  | GBranch "treeitem list"
  | GSlice "gval list"
  | GOther string
and treeitem = TreeItem (Key: gkey) (Value: gval)

type_synonym TreeBranch = "treeitem list"
type_synonym TreeBranches = "TreeBranch list"

text \<open>Go's \<open>==\<close> on two keys held in interfaces.\<close>

fun key_eq :: "gkey \<Rightarrow> gkey \<Rightarrow> bool" where
  "key_eq (KFloat x) (KFloat y) = f64_eq x y"
| "key_eq k l = (k = l)"

lemma key_eq_KStr [simp]: "key_eq k (KStr s) \<longleftrightarrow> k = KStr s" "key_eq (KStr s) k \<longleftrightarrow> k = KStr s"
  by (cases k; auto)+

lemma key_eq_KInt [simp]: "key_eq k (KInt i) \<longleftrightarrow> k = KInt i"
  by (cases k) auto

fun is_comment_key :: "gkey \<Rightarrow> bool" where
  "is_comment_key (KComment c) = True"
| "is_comment_key _ = False"

fun is_comment :: "gval \<Rightarrow> bool" where
  "is_comment (GComment c) = True"
| "is_comment _ = False"

section \<open>Errors\<close>

datatype tree_error =
    SopsKeyNotFound string gkey
  | UnsupportedType
  | ComponentNotFound string
  | NotASlice int
  | AccessesOutOfBounds int
  | CouldNotConvertToBytes
  | PanicIndexOutOfRange
  | PanicTypeAssertion
  | PanicUncomparable

section \<open>Comparison\<close>

text \<open>
  \<open>equals\<close>. Its default case compares two interfaces, which panics when both hold a \<open>[]byte\<close>.
\<close>

fun key_equals :: "gkey \<Rightarrow> gkey \<Rightarrow> bool" where
  "key_equals (KComment c) (KComment d) = (CValue c = CValue d)"
| "key_equals k l = key_eq k l"

fun equals :: "gval \<Rightarrow> gval \<Rightarrow> tree_error + bool"
  and equals_items :: "treeitem list \<Rightarrow> treeitem list \<Rightarrow> tree_error + bool"
  and equals_values :: "gval list \<Rightarrow> gval list \<Rightarrow> tree_error + bool" where
  "equals (GBranch xs) other =
     (case other of
        GBranch ys \<Rightarrow> if length xs \<noteq> length ys then Inr False else equals_items xs ys
      | _ \<Rightarrow> Inr False)"
| "equals (GSlice xs) other =
     (case other of
        GSlice ys \<Rightarrow> if length xs \<noteq> length ys then Inr False else equals_values xs ys
      | _ \<Rightarrow> Inr False)"
| "equals (GComment c) other = Inr (case other of GComment d \<Rightarrow> CValue c = CValue d | _ \<Rightarrow> False)"
| "equals (GBytes b) other = (case other of GBytes b' \<Rightarrow> Inl PanicUncomparable | _ \<Rightarrow> Inr False)"
| "equals (GFloat x) other = Inr (case other of GFloat y \<Rightarrow> f64_eq x y | _ \<Rightarrow> False)"
| "equals v other = Inr (v = other)"
| "equals_items (TreeItem k v # xs) (TreeItem l w # ys) =
     (if \<not> key_equals k l then Inr False
      else bindE (equals v w) (\<lambda>same. if \<not> same then Inr False else equals_items xs ys))"
| "equals_items _ _ = Inr True"
| "equals_values (v # xs) (w # ys) =
     bindE (equals v w) (\<lambda>same. if \<not> same then Inr False else equals_values xs ys)"
| "equals_values _ _ = Inr True"

section \<open>Writing at a path\<close>

fun valueFromPathAndLeaf :: "gkey list \<Rightarrow> gval \<Rightarrow> tree_error + gval" where
  "valueFromPathAndLeaf [] leaf = Inl PanicIndexOutOfRange"
| "valueFromPathAndLeaf (component # rest) leaf =
     (case component of
        KInt _ \<Rightarrow>
          (if rest = [] then Inr (GSlice [leaf])
           else bindE (valueFromPathAndLeaf rest leaf) (\<lambda>v. Inr (GSlice [v])))
      | _ \<Rightarrow>
          (if rest = [] then Inr (GBranch [TreeItem component leaf])
           else bindE (valueFromPathAndLeaf rest leaf) (\<lambda>v. Inr (GBranch [TreeItem component v]))))"

text \<open>The position of the first item with the given key, where the loops over a branch stop.\<close>

fun find_key :: "gkey \<Rightarrow> treeitem list \<Rightarrow> nat option" where
  "find_key k [] = None"
| "find_key k (item # items) =
     (if key_eq (Key item) k then Some 0 else map_option Suc (find_key k items))"

definition with_value :: "treeitem list \<Rightarrow> nat \<Rightarrow> gval \<Rightarrow> treeitem list" where
  "with_value items i v = items[i := TreeItem (Key (items ! i)) v]"

fun set_value :: "gval \<Rightarrow> gkey list \<Rightarrow> gval \<Rightarrow> tree_error + (gval \<times> bool)" where
  "set_value branch [] value = Inl PanicIndexOutOfRange"
| "set_value branch (component # rest) value =
     (case branch of
        GBranch items \<Rightarrow>
          (case find_key component items of
             Some i \<Rightarrow>
               (if rest = []
                then bindE (equals (Value (items ! i)) value) (\<lambda>same.
                       Inr (GBranch (with_value items i value), \<not> same))
                else bindE (set_value (Value (items ! i)) rest value) (\<lambda>(v, changed).
                       Inr (GBranch (with_value items i v), changed)))
           | None \<Rightarrow>
               bindE (valueFromPathAndLeaf (component # rest) value) (\<lambda>new.
                 case new of
                   GBranch (item # _) \<Rightarrow> Inr (GBranch (items @ [item]), True)
                 | _ \<Rightarrow> Inr (GBranch items, True)))
      | GSlice vs \<Rightarrow>
          (case component of
             KInt position \<Rightarrow>
               (if int (length vs) \<le> position
                then (if rest = [] then Inr (GSlice (vs @ [value]), True)
                      else bindE (valueFromPathAndLeaf rest value) (\<lambda>v. Inr (GSlice (vs @ [v]), True)))
                else if position < 0 then Inl PanicIndexOutOfRange
                else if rest = []
                then bindE (equals (vs ! nat position) value) (\<lambda>same.
                       Inr (GSlice (vs[nat position := value]), \<not> same))
                else bindE (set_value (vs ! nat position) rest value) (\<lambda>(v, changed).
                       Inr (GSlice (vs[nat position := v]), changed)))
           | _ \<Rightarrow> Inl PanicTypeAssertion)
      | _ \<Rightarrow>
          bindE (valueFromPathAndLeaf (component # rest) value) (\<lambda>new.
            bindE (equals branch new) (\<lambda>same. Inr (new, \<not> same))))"

definition Set :: "TreeBranch \<Rightarrow> gkey list \<Rightarrow> gval \<Rightarrow> tree_error + (TreeBranch \<times> bool)" where
  "Set branch path value =
     bindE (set_value (GBranch branch) path value) (\<lambda>(v, changed).
       case v of GBranch b \<Rightarrow> Inr (b, changed) | _ \<Rightarrow> Inl PanicTypeAssertion)"

section \<open>Deleting at a path\<close>

definition remove_nth :: "nat \<Rightarrow> 'a list \<Rightarrow> 'a list" where
  "remove_nth i xs = take i xs @ drop (Suc i) xs"

fun unset_value :: "gval \<Rightarrow> gkey list \<Rightarrow> tree_error + gval" where
  "unset_value branch [] = Inl PanicIndexOutOfRange"
| "unset_value branch (component # rest) =
     (case branch of
        GBranch items \<Rightarrow>
          (case find_key component items of
             Some i \<Rightarrow>
               (if rest = [] then Inr (GBranch (remove_nth i items))
                else bindE (unset_value (Value (items ! i)) rest) (\<lambda>v.
                       Inr (GBranch (with_value items i v))))
           | None \<Rightarrow> Inl (SopsKeyNotFound ''Key not found: %s'' component))
      | GSlice vs \<Rightarrow>
          (case component of
             KInt position \<Rightarrow>
               (if int (length vs) \<le> position
                then Inl (SopsKeyNotFound ''Index %d out of bounds'' component)
                else if position < 0 then Inl PanicIndexOutOfRange
                else if rest = [] then Inr (GSlice (remove_nth (nat position) vs))
                else bindE (unset_value (vs ! nat position) rest) (\<lambda>v.
                       Inr (GSlice (vs[nat position := v]))))
           | _ \<Rightarrow> Inl PanicTypeAssertion)
      | _ \<Rightarrow> Inl UnsupportedType)"

definition Unset :: "TreeBranch \<Rightarrow> gkey list \<Rightarrow> tree_error + TreeBranch" where
  "Unset branch path =
     bindE (unset_value (GBranch branch) path) (\<lambda>v.
       case v of GBranch b \<Rightarrow> Inr b | _ \<Rightarrow> Inl PanicTypeAssertion)"

section \<open>Reading at a path\<close>

text \<open>
  \<open>Truncate\<close> walks down with reflection: an \<open>int\<close> component indexes whatever is a slice for Go,
  that is, a list, but also a branch (giving a \<open>TreeItem\<close>) or a \<open>[]byte\<close> (giving a byte). A
  component that is neither string nor \<open>int\<close> is skipped.
\<close>

datatype cursor = CVal gval | CItem treeitem | CByte char

fun truncate_index :: "cursor \<Rightarrow> int \<Rightarrow> tree_error + cursor" where
  "truncate_index current component =
     (let pick = (\<lambda>len get.
            if int len \<le> component then Inl (AccessesOutOfBounds component)
            else if component < 0 then Inl PanicIndexOutOfRange else Inr (get (nat component)))
      in case current of
           CVal (GSlice vs) \<Rightarrow> pick (length vs) (\<lambda>i. CVal (vs ! i))
         | CVal (GBranch items) \<Rightarrow> pick (length items) (\<lambda>i. CItem (items ! i))
         | CVal (GBytes b) \<Rightarrow> pick (length b) (\<lambda>i. CByte (b ! i))
         | _ \<Rightarrow> Inl (NotASlice component))"

fun truncate_from :: "cursor \<Rightarrow> gkey list \<Rightarrow> tree_error + cursor" where
  "truncate_from current [] = Inr current"
| "truncate_from current (KStr component # path) =
     (case current of
        CVal (GBranch items) \<Rightarrow>
          (case find_key (KStr component) items of
             Some i \<Rightarrow> truncate_from (CVal (Value (items ! i))) path
           | None \<Rightarrow> Inl (ComponentNotFound component))
      | _ \<Rightarrow> Inl PanicTypeAssertion)"
| "truncate_from current (KInt component # path) =
     bindE (truncate_index current component) (\<lambda>c. truncate_from c path)"
| "truncate_from current (_ # path) = truncate_from current path"

definition Truncate :: "TreeBranch \<Rightarrow> gkey list \<Rightarrow> tree_error + cursor" where
  "Truncate branch path = truncate_from (CVal (GBranch branch)) path"

section \<open>Conversions\<close>

text \<open>
  What the code takes from Go's standard library and does not define: the shortest decimal form
  of a \<open>float64\<close>, its parser (the value beside an error is \<^const>\<open>Inl\<close>), the RFC 3339 forms of a
  time, regular expression matching (\<open>false\<close> for an invalid pattern) and SHA-512.
\<close>

record golib =
  FormatFloat :: "f64 \<Rightarrow> string"
  ParseFloat :: "string \<Rightarrow> f64 + f64"
  MarshalTime :: "gotime \<Rightarrow> string option"
  UnmarshalTime :: "string \<Rightarrow> gotime + gotime"
  FormatRFC3339 :: "gotime \<Rightarrow> string"
  ParseRFC3339 :: "string \<Rightarrow> gotime option"
  MatchRegexp :: "string \<Rightarrow> string \<Rightarrow> bool"
  SHA512 :: "string \<Rightarrow> string"

fun ToBytes :: "golib \<Rightarrow> gval \<Rightarrow> tree_error + string" where
  "ToBytes L (GStr s) = Inr s"
| "ToBytes L (GInt i) = Inr (itoa i)"
| "ToBytes L (GFloat x) = Inr (FormatFloat L x)"
| "ToBytes L (GBool b) = Inr (if b then ''True'' else ''False'')"
| "ToBytes L (GBytes b) = Inr b"
| "ToBytes L (GTime t) = (case MarshalTime L t of None \<Rightarrow> Inl CouldNotConvertToBytes | Some s \<Rightarrow> Inr s)"
| "ToBytes L (GComment c) = Inr (CValue c)"
| "ToBytes L _ = Inl CouldNotConvertToBytes"

text \<open>
  \<open>EmitAsMap\<close> and \<open>encodeValueForMap\<close>. A Go map is an association list without repeated keys; a
  later item with the same key overwrites the value.
\<close>

datatype emitted = EVal gval | EMap "(string \<times> emitted) list"

fun encodeValueForMap :: "gval \<Rightarrow> tree_error + emitted"
  and emit_items :: "treeitem list \<Rightarrow> (string \<times> emitted) list \<Rightarrow> tree_error + (string \<times> emitted) list" where
  "encodeValueForMap (GBranch b) = bindE (emit_items b []) (\<lambda>m. Inr (EMap m))"
| "encodeValueForMap v = Inr (EVal v)"
| "emit_items [] data = Inr data"
| "emit_items (TreeItem k v # items) data =
     (if is_comment_key k then emit_items items data
      else bindE (encodeValueForMap v) (\<lambda>val.
        case k of KStr key \<Rightarrow> emit_items items (AList.update key val data)
        | _ \<Rightarrow> Inl PanicTypeAssertion))"

definition EmitAsMap :: "TreeBranches \<Rightarrow> tree_error + (string \<times> emitted) list" where
  "EmitAsMap branches = foldE emit_items branches []"

end
