(* ===== verification/Tree_Paths.thy ===== *)
theory Tree_Paths
  imports Trees
begin

text \<open>
  Properties of the path operations of \<open>src/sops.go\<close>. The abstract view of a document is the
  partial function \<open>lookup\<close> from paths to values; \<open>Set\<close> and \<open>Unset\<close> are shown to write and
  delete in that view, through the interface \<open>path_store\<close>.
\<close>

section \<open>The abstract view\<close>

fun lookup :: "gval \<Rightarrow> gkey list \<Rightarrow> gval option" where
  "lookup v [] = Some v"
| "lookup (GBranch items) (KStr s # path) =
     (case find_key (KStr s) items of Some i \<Rightarrow> lookup (Value (items ! i)) path | None \<Rightarrow> None)"
| "lookup (GSlice vs) (KInt i # path) =
     (if 0 \<le> i \<and> i < int (length vs) then lookup (vs ! nat i) path else None)"
| "lookup _ _ = None"

fun_cases lookup_ConsE: "lookup v (k # path) = Some w"

text \<open>Where the view is defined, \<open>Truncate\<close> computes it.\<close>

lemma truncate_lookup: "lookup v path = Some w \<Longrightarrow> truncate_from (CVal v) path = Inr (CVal w)"
  by (induction v path rule: lookup.induct) (auto split: option.splits if_splits)

section \<open>Positions of keys\<close>

lemma find_key_Some: "find_key k items = Some i \<Longrightarrow> i < length items \<and> key_eq (Key (items ! i)) k"
  by (induction items arbitrary: i) (auto split: if_splits)

lemma find_key_append: "find_key k (xs @ ys) =
    (case find_key k xs of Some i \<Rightarrow> Some i | None \<Rightarrow> map_option (\<lambda>i. i + length xs) (find_key k ys))"
  by (induction xs) (auto split: option.splits simp: option.map_comp comp_def option.map_ident)

lemma find_key_map_Key: "map Key xs = map Key ys \<Longrightarrow> find_key k xs = find_key k ys"
proof (induction xs arbitrary: ys)
  case (Cons x xs)
  then show ?case by (cases ys) auto
qed simp

lemma map_Key_with_value [simp]: "map Key (with_value items i v) = map Key items"
  by (cases "i < length items") (auto simp: with_value_def map_update list_update_beyond intro: nth_equalityI simp: nth_list_update)

lemma find_key_with_value [simp]: "find_key k (with_value items i v) = find_key k items"
  by (rule find_key_map_Key) simp

lemma length_with_value [simp]: "length (with_value items i v) = length items"
  by (simp add: with_value_def)

lemma nth_with_value:
  "i < length items \<Longrightarrow> with_value items i v ! j = (if i = j then TreeItem (Key (items ! i)) v else items ! j)"
  by (simp add: with_value_def nth_list_update)

lemma with_value_undo [simp]:
  "i < length items \<Longrightarrow> with_value (with_value items i v) i (Value (items ! i)) = items"
  by (simp add: with_value_def)

section \<open>Comparison never panics on a value without byte slices\<close>

fun no_bytes :: "gval \<Rightarrow> bool" and no_bytes_item :: "treeitem \<Rightarrow> bool" where
  "no_bytes (GBytes b) = False"
| "no_bytes (GBranch items) = (\<forall>item\<in>set items. no_bytes_item item)"
| "no_bytes (GSlice vs) = (\<forall>v\<in>set vs. no_bytes v)"
| "no_bytes _ = True"
| "no_bytes_item (TreeItem k v) = no_bytes v"

lemma equals_defined:
  "no_bytes w \<Longrightarrow> \<not> isl (equals v w)"
  "\<forall>item\<in>set ys. no_bytes_item item \<Longrightarrow> \<not> isl (equals_items xs ys)"
  "\<forall>u\<in>set us. no_bytes u \<Longrightarrow> \<not> isl (equals_values vs us)"
  by (induction v w and xs ys and vs us rule: equals_equals_items_equals_values.induct)
    (auto simp: isl_bindE split: gval.splits)

lemma equals_total: "no_bytes w \<Longrightarrow> \<exists>b. equals v w = Inr b"
  using equals_defined(1) by (simp add: not_isl_iff)

section \<open>Where a path can be written\<close>

text \<open>A path that a write creates from nothing reads back only if its indices are 0.\<close>

fun fresh_path :: "gkey list \<Rightarrow> bool" where
  "fresh_path [] = True"
| "fresh_path (KStr s # path) = fresh_path path"
| "fresh_path (KInt i # path) = (i = 0 \<and> fresh_path path)"
| "fresh_path _ = False"

fun is_container :: "gval \<Rightarrow> bool" where
  "is_container (GBranch b) = True"
| "is_container (GSlice vs) = True"
| "is_container _ = False"

text \<open>A path addresses a position: strings into maps, indices into lists up to one past the end.\<close>

fun settable :: "gval \<Rightarrow> gkey list \<Rightarrow> bool" where
  "settable v [] = True"
| "settable (GBranch items) (KStr s # path) =
     (case find_key (KStr s) items of
        Some i \<Rightarrow> settable (Value (items ! i)) path
      | None \<Rightarrow> fresh_path path)"
| "settable (GSlice vs) (KInt i # path) =
     (0 \<le> i \<and> (if i < int (length vs) then settable (vs ! nat i) path
                else i = int (length vs) \<and> fresh_path path))"
| "settable v path = (\<not> is_container v \<and> fresh_path path)"

lemma valueFromPathAndLeaf_lookup:
  "path \<noteq> [] \<Longrightarrow> fresh_path path \<Longrightarrow>
   \<exists>v. valueFromPathAndLeaf path leaf = Inr v \<and> lookup v path = Some leaf \<and> is_container v"
proof (induction path rule: fresh_path.induct)
  case (2 s path)
  then show ?case by (cases "path = []") auto
next
  case (3 i path)
  then show ?case by (cases "path = []") auto
qed auto

lemma equals_not_container:
  "\<not> is_container v \<Longrightarrow> is_container w \<Longrightarrow> equals v w = Inr False"
  by (cases v; cases w) auto

lemma valueFromPathAndLeaf_KStr:
  assumes "fresh_path rest"
  shows "\<exists>w. valueFromPathAndLeaf (KStr s # rest) leaf = Inr (GBranch [TreeItem (KStr s) w])
     \<and> lookup w rest = Some leaf"
  using valueFromPathAndLeaf_lookup [of rest leaf] assms by (cases "rest = []") auto

lemma valueFromPathAndLeaf_KInt:
  assumes "fresh_path rest"
  shows "\<exists>w. valueFromPathAndLeaf (KInt i # rest) leaf = Inr (GSlice [w]) \<and> lookup w rest = Some leaf"
  using valueFromPathAndLeaf_lookup [of rest leaf] assms by (cases "rest = []") auto

text \<open>What a write at a settable path does: it succeeds, the path then reads the value, and a map
  stays a map.\<close>

definition writes :: "gval \<Rightarrow> gkey list \<Rightarrow> gval \<Rightarrow> bool" where
  "writes v path x \<longleftrightarrow> (\<exists>v' ch. set_value v path x = Inr (v', ch) \<and> lookup v' path = Some x
     \<and> (\<forall>b. v = GBranch b \<longrightarrow> (\<exists>b'. v' = GBranch b')))"

lemma writes_scalar:
  assumes "\<not> is_container v" "fresh_path (k # rest)"
  shows "writes v (k # rest) x"
proof -
  obtain w where w: "valueFromPathAndLeaf (k # rest) x = Inr w" "lookup w (k # rest) = Some x"
    "is_container w"
    using valueFromPathAndLeaf_lookup [OF _ assms(2), of x] by blast
  then have "set_value v (k # rest) x = Inr (w, True)"
    using assms(1) equals_not_container [OF assms(1), of w] by (cases v) (auto simp del: valueFromPathAndLeaf.simps)
  with w assms(1) show ?thesis by (auto simp: writes_def)
qed

lemma writes_KStr:
  assumes "settable (GBranch items) (KStr s # rest)" "no_bytes x"
    and IH: "\<And>v. rest \<noteq> [] \<Longrightarrow> settable v rest \<Longrightarrow> writes v rest x"
  shows "writes (GBranch items) (KStr s # rest) x"
proof (cases "find_key (KStr s) items")
  case None
  with assms obtain w where w: "valueFromPathAndLeaf (KStr s # rest) x = Inr (GBranch [TreeItem (KStr s) w])"
      "lookup w rest = Some x"
    using valueFromPathAndLeaf_KStr [of rest s x] by auto
  have "find_key (KStr s) (items @ [TreeItem (KStr s) w]) = Some (length items)"
    using None by (simp add: find_key_append)
  with w None show ?thesis by (auto simp: writes_def nth_append simp del: valueFromPathAndLeaf.simps)
next
  case (Some i)
  then have i: "i < length items" using find_key_Some by blast
  show ?thesis
  proof (cases "rest = []")
    case True
    obtain b where "equals (Value (items ! i)) x = Inr b" using equals_total [OF assms(2)] by blast
    with True Some i show ?thesis by (auto simp: writes_def nth_with_value)
  next
    case False
    with IH [of "Value (items ! i)"] assms(1) Some show ?thesis
      using i by (auto simp: writes_def nth_with_value)
  qed
qed

lemma writes_KInt:
  assumes "settable (GSlice vs) (KInt p # rest)" "no_bytes x"
    and IH: "\<And>v. rest \<noteq> [] \<Longrightarrow> settable v rest \<Longrightarrow> writes v rest x"
  shows "writes (GSlice vs) (KInt p # rest) x"
proof (cases "p < int (length vs)")
  case True
  then have p: "0 \<le> p" "nat p < length vs" using assms(1) by auto
  show ?thesis
  proof (cases "rest = []")
    case True
    obtain b where "equals (vs ! nat p) x = Inr b" using equals_total [OF assms(2)] by blast
    with True p show ?thesis by (auto simp: writes_def)
  next
    case False
    with IH [of "vs ! nat p"] assms(1) True show ?thesis using p by (auto simp: writes_def)
  qed
next
  case False
  with assms(1) have p: "p = int (length vs)" and fresh: "fresh_path rest" by auto
  show ?thesis
  proof (cases "rest = []")
    case True
    then show ?thesis using p by (auto simp: writes_def nth_append)
  next
    case nonempty: False
    with fresh obtain w where "valueFromPathAndLeaf rest x = Inr w" "lookup w rest = Some x"
      using valueFromPathAndLeaf_lookup by blast
    with nonempty p show ?thesis by (auto simp: writes_def nth_append)
  qed
qed

lemma set_value_writes: "path \<noteq> [] \<Longrightarrow> settable v path \<Longrightarrow> no_bytes x \<Longrightarrow> writes v path x"
proof (induction path arbitrary: v)
  case (Cons k rest)
  show ?case
  proof (cases "is_container v")
    case False
    with Cons.prems show ?thesis by (cases v; cases k) (auto intro!: writes_scalar)
  next
    case True
    with Cons.prems(2) consider
        (map) items s where "v = GBranch items" "k = KStr s"
      | (list) vs i where "v = GSlice vs" "k = KInt i"
      by (cases v; cases k) auto
    then show ?thesis
    proof cases
      case map
      with Cons show ?thesis by (auto intro!: writes_KStr simp del: settable.simps)
    next
      case list
      with Cons show ?thesis by (auto intro!: writes_KInt simp del: settable.simps)
    qed
  qed
qed simp

section \<open>Writes leave other paths alone\<close>

fun diverge :: "gkey list \<Rightarrow> gkey list \<Rightarrow> bool" where
  "diverge (k # ks) (l # ls) = (if k = l then diverge ks ls else True)"
| "diverge _ _ = False"

lemma find_key_distinct:
  "find_key k items = Some i \<Longrightarrow> find_key (KStr s) items = Some j \<Longrightarrow> k \<noteq> KStr s \<Longrightarrow> i \<noteq> j"
  by (metis find_key_Some key_eq_KStr)

lemma set_value_frame:
  assumes "set_value v p x = Inr (v', ch)" "lookup v q = Some w" "diverge p q"
  shows "lookup v' q = Some w"
  using assms
proof (induction p arbitrary: v v' q ch)
  case (Cons k ks)
  then obtain l ls where q: "q = l # ls" by (cases q) auto
  from Cons.prems(2) consider
      (map) items s j where "v = GBranch items" "l = KStr s" "find_key (KStr s) items = Some j"
        "lookup (Value (items ! j)) ls = Some w"
    | (list) vs i where "v = GSlice vs" "l = KInt i" "0 \<le> i" "i < int (length vs)"
        "lookup (vs ! nat i) ls = Some w"
    unfolding q by (elim lookup_ConsE) (auto split: option.splits if_splits)
  then show ?case
  proof cases
    case map
    then have j: "j < length items" using find_key_Some by blast
    show ?thesis
    proof (cases "find_key k items")
      case None
      with map have "k \<noteq> KStr s" by auto
      with None Cons.prems(1) map q j show ?thesis
        by (auto simp: find_key_append nth_append split: gval.splits list.splits option.splits simp del: valueFromPathAndLeaf.simps)
    next
      case (Some i)
      then have i: "i < length items" using find_key_Some by blast
      show ?thesis
      proof (cases "k = KStr s")
        case False
        with find_key_distinct Some map have "i \<noteq> j" by blast
        with Some Cons.prems(1) map q i show ?thesis
          by (auto simp: nth_with_value split: if_splits)
      next
        case True
        with Cons.prems(3) q map have "diverge ks ls" by simp
        with True Some map q i Cons show ?thesis
          by (auto simp: nth_with_value split: if_splits)
      qed
    qed
  next
    case list
    then show ?thesis
      using Cons q by (cases k) (auto simp: nth_append nth_list_update nat_less_iff split: if_splits)
  qed
qed simp

section \<open>The interface of a store with paths\<close>

text \<open>
  What a client of \<open>Set\<close> relies on: a write at a writable path is defined, reads back, and leaves
  independent paths alone. A sequence of writes, as several \<open>sops set\<close> commands make them, then
  reads back at every path written.
\<close>

fun put_all :: "('t \<Rightarrow> 'p \<Rightarrow> 'v \<Rightarrow> 't option) \<Rightarrow> 't \<Rightarrow> ('p \<times> 'v) list \<Rightarrow> 't option" where
  "put_all put t [] = Some t"
| "put_all put t ((p, v) # rest) = (case put t p v of None \<Rightarrow> None | Some t' \<Rightarrow> put_all put t' rest)"

locale path_store =
  fixes look :: "'t \<Rightarrow> 'p \<Rightarrow> 'v option"
    and put :: "'t \<Rightarrow> 'p \<Rightarrow> 'v \<Rightarrow> 't option"
    and indep :: "'p \<Rightarrow> 'p \<Rightarrow> bool"
  assumes put_look: "put t p v = Some t' \<Longrightarrow> look t' p = Some v"
    and put_frame: "put t p v = Some t' \<Longrightarrow> indep p q \<Longrightarrow> look t q = Some w \<Longrightarrow> look t' q = Some w"
begin

lemma put_all_frame:
  "put_all put t pvs = Some t' \<Longrightarrow> \<forall>(p, v)\<in>set pvs. indep p q \<Longrightarrow> look t q = Some w \<Longrightarrow> look t' q = Some w"
proof (induction pvs arbitrary: t)
  case (Cons a pvs)
  then obtain p v t1 where a: "a = (p, v)" "put t p v = Some t1" "put_all put t1 pvs = Some t'"
    by (cases a) (auto split: option.splits)
  with Cons.prems have "look t1 q = Some w" by (auto intro: put_frame)
  with a Cons show ?case by simp
qed simp

lemma put_all_look:
  assumes "put_all put t pvs = Some t'" "sorted_wrt (\<lambda>(p, _) (q, _). indep q p) pvs" "(p, v) \<in> set pvs"
  shows "look t' p = Some v"
  using assms
proof (induction pvs arbitrary: t)
  case (Cons qw rest)
  obtain q w where qw: "qw = (q, w)" by (cases qw)
  with Cons.prems(1) obtain t1 where t1: "put t q w = Some t1" "put_all put t1 rest = Some t'"
    by (auto split: option.splits)
  show ?case
  proof (cases "(p, v) \<in> set rest")
    case True
    with Cons t1 qw show ?thesis by auto
  next
    case False
    with Cons.prems(2,3) qw have "p = q" "v = w" "\<forall>(r, u)\<in>set rest. indep r p" by auto
    with put_all_frame [OF t1(2)] put_look [OF t1(1)] show ?thesis by blast
  qed
qed simp

end

text \<open>Documents under \<open>Set\<close> are such a store.\<close>

definition put_document :: "TreeBranch \<Rightarrow> gkey list \<Rightarrow> gval \<Rightarrow> TreeBranch option" where
  "put_document b path v =
     (if path \<noteq> [] \<and> settable (GBranch b) path \<and> no_bytes v
      then case Set b path v of Inr (b', _) \<Rightarrow> Some b' | Inl _ \<Rightarrow> None else None)"

lemma Set_writes:
  assumes "path \<noteq> []" "settable (GBranch b) path" "no_bytes v"
  shows "\<exists>b' ch. Set b path v = Inr (b', ch) \<and> lookup (GBranch b') path = Some v"
  using set_value_writes [OF assms] by (fastforce simp: writes_def Set_def)

lemma Set_value: "Set b path v = Inr (b', ch) \<Longrightarrow> set_value (GBranch b) path v = Inr (GBranch b', ch)"
  by (auto simp: Set_def split: gval.splits)

interpretation document: path_store "\<lambda>b. lookup (GBranch b)" put_document diverge
proof
  fix b p v b' assume put: "put_document b p v = Some b'"
  then obtain ch where "p \<noteq> []" "settable (GBranch b) p" "no_bytes v" "Set b p v = Inr (b', ch)"
    by (auto simp: put_document_def split: if_splits sum.splits)
  with Set_writes [of p b v] show "lookup (GBranch b') p = Some v" by auto
next
  fix b p v b' q w
  assume "put_document b p v = Some b'" and *: "diverge p q" "lookup (GBranch b) q = Some w"
  then obtain ch where "Set b p v = Inr (b', ch)"
    by (auto simp: put_document_def split: if_splits sum.splits)
  with * show "lookup (GBranch b') q = Some w" by (auto dest: Set_value intro: set_value_frame)
qed

section \<open>Adding and deleting an entry\<close>

lemma unset_added:
  assumes "lookup v p = Some (GBranch items)" "find_key (KStr k) items = None"
  shows "\<exists>v'. set_value v (p @ [KStr k]) x = Inr (v', True) \<and> unset_value v' (p @ [KStr k]) = Inr v
    \<and> (\<forall>b. v = GBranch b \<longrightarrow> (\<exists>b'. v' = GBranch b'))"
  using assms
proof (induction v p rule: lookup.induct)
  case (1 v)
  then show ?case by (auto simp: find_key_append remove_nth_def)
next
  case (2 its s path)
  then obtain i where i: "find_key (KStr s) its = Some i" "lookup (Value (its ! i)) path = Some (GBranch items)"
    by (auto split: option.splits)
  then have "i < length its" using find_key_Some by blast
  with 2 i show ?case by (auto simp: nth_with_value)
next
  case (3 vs i path)
  then have i: "0 \<le> i" "i < int (length vs)" "lookup (vs ! nat i) path = Some (GBranch items)"
    by (auto split: if_splits)
  with 3 show ?case by (auto simp: nat_less_iff)
qed (simp_all del: set_value.simps unset_value.simps append.simps)

section \<open>Properties\<close>

definition sample_branch :: TreeBranch where
  "sample_branch =
     [TreeItem (KStr ''a'') (GInt 1),
      TreeItem (KStr ''b'') (GSlice [GBranch [TreeItem (KStr ''c'') (GStr ''x'')], GNil])]"


text \<open>C11. \<open>Set\<close> at a path whose components address maps by string and lists by an index up to their
  length succeeds, and \<open>Truncate\<close> at that path then returns the value set.\<close>

theorem set_truncate:
  assumes "path \<noteq> []" "settable (GBranch branch) path" "no_bytes value"
  shows "\<exists>branch' changed. Set branch path value = Inr (branch', changed)
    \<and> Truncate branch' path = Inr (CVal value)"
  using Set_writes [OF assms] truncate_lookup by (fastforce simp: Truncate_def)

lemma set_truncate_witness:
  "\<exists>branch' changed. Set sample_branch [KStr ''b'', KInt 0, KStr ''d'', KInt 0] (GBool True) = Inr (branch', changed)
    \<and> Truncate branch' [KStr ''b'', KInt 0, KStr ''d'', KInt 0] = Inr (CVal (GBool True))"
  by (rule set_truncate) (simp_all add: sample_branch_def)

text \<open>C19. \<open>Set\<close> changes nothing at a path that leaves the written path at some component: what
  \<open>Truncate\<close> returned there it still returns.\<close>

theorem set_frame:
  assumes "Set branch path value = Inr (branch', changed)" "diverge path other"
    and "lookup (GBranch branch) other = Some w"
  shows "Truncate branch other = Inr (CVal w) \<and> Truncate branch' other = Inr (CVal w)"
  using assms set_value_frame [OF Set_value] truncate_lookup by (simp add: Truncate_def)

lemma set_frame_witness:
  "Truncate sample_branch [KStr ''b'', KInt 0, KStr ''c''] = Inr (CVal (GStr ''x''))
    \<and> (\<exists>b'. Set sample_branch [KStr ''a''] GNil = Inr (b', True)
          \<and> Truncate b' [KStr ''b'', KInt 0, KStr ''c''] = Inr (CVal (GStr ''x'')))"
proof -
  obtain b' where b: "Set sample_branch [KStr ''a''] GNil = Inr (b', True)"
    by (simp add: sample_branch_def Set_def)
  have "Truncate sample_branch [KStr ''b'', KInt 0, KStr ''c''] = Inr (CVal (GStr ''x''))
      \<and> Truncate b' [KStr ''b'', KInt 0, KStr ''c''] = Inr (CVal (GStr ''x''))"
    by (rule set_frame [OF b]) (simp_all add: sample_branch_def)
  with b show ?thesis by blast
qed

text \<open>Several \<open>Set\<close> calls at pairwise diverging paths: every path reads the value written there.\<close>

lemma set_sequence:
  assumes "put_all put_document branch pvs = Some branch'"
    and "sorted_wrt (\<lambda>(p, _) (q, _). diverge q p) pvs" and "(path, value) \<in> set pvs"
  shows "Truncate branch' path = Inr (CVal value)"
  using document.put_all_look [OF assms] by (simp add: Truncate_def truncate_lookup)

lemma set_sequence_witness:
  "\<exists>b'. put_all put_document sample_branch [([KStr ''a''], GNil), ([KStr ''b'', KInt 1], GInt 7)] = Some b'
    \<and> Truncate b' [KStr ''a''] = Inr (CVal GNil)"
proof -
  obtain b' where b: "put_all put_document sample_branch [([KStr ''a''], GNil), ([KStr ''b'', KInt 1], GInt 7)] = Some b'"
    by (simp add: sample_branch_def put_document_def Set_def with_value_def)
  moreover have "Truncate b' [KStr ''a''] = Inr (CVal GNil)"
    by (rule set_sequence [OF b]) simp_all
  ultimately show ?thesis by blast
qed

text \<open>Deleting with \<open>Unset\<close> an entry that \<open>Set\<close> has just added to a map restores the
  document.\<close>

lemma set_unset:
  assumes "lookup (GBranch branch) path = Some (GBranch items)" "find_key (KStr key) items = None"
  shows "\<exists>branch'. Set branch (path @ [KStr key]) value = Inr (branch', True)
    \<and> Unset branch' (path @ [KStr key]) = Inr branch"
proof -
  obtain v' b' where v': "set_value (GBranch branch) (path @ [KStr key]) value = Inr (v', True)"
    "unset_value v' (path @ [KStr key]) = Inr (GBranch branch)" and b': "v' = GBranch b'"
    using unset_added [OF assms, of "value"] by (elim exE conjE) metis
  then have "Set branch (path @ [KStr key]) value = Inr (b', True)" by (simp only: Set_def) simp
  moreover have "Unset b' (path @ [KStr key]) = Inr branch" using v'(2) b' by (simp only: Unset_def) simp
  ultimately show ?thesis by blast
qed

lemma set_unset_witness:
  "\<exists>branch'. Set sample_branch ([KStr ''b'', KInt 0] @ [KStr ''d'']) (GInt 3) = Inr (branch', True)
    \<and> Unset branch' ([KStr ''b'', KInt 0] @ [KStr ''d'']) = Inr sample_branch"
  by (rule set_unset [where items = "[TreeItem (KStr ''c'') (GStr ''x'')]"]) (simp_all add: sample_branch_def)

text \<open>C38. A list index applied to a map: \<open>Truncate\<close> returns the item at that position instead of
  failing, \<open>Unset\<close> reports the key as missing, and \<open>Set\<close> reports a change while it
  changes nothing.\<close>

theorem index_on_map:
  assumes "0 \<le> i" "i < int (length branch)" "find_key (KInt i) branch = None"
  shows "Truncate branch [KInt i] = Inr (CItem (branch ! nat i))
    \<and> Set branch [KInt i] value = Inr (branch, True)
    \<and> Unset branch [KInt i] = Inl (SopsKeyNotFound ''Key not found: %s'' (KInt i))"
  using assms by (simp add: Truncate_def Set_def Unset_def)

lemma index_on_map_witness:
  "Truncate sample_branch [KInt 1] = Inr (CItem (sample_branch ! nat 1))
    \<and> Set sample_branch [KInt 1] (GStr ''v'') = Inr (sample_branch, True)
    \<and> Unset sample_branch [KInt 1] = Inl (SopsKeyNotFound ''Key not found: %s'' (KInt 1))"
  by (rule index_on_map) (simp_all add: sample_branch_def)

end
