(* ===== verification/Master_Keys.thy ===== *)
theory Master_Keys
  imports Trees "HOL-Library.List_Lexorder" "HOL-Library.Char_ord"
begin

text \<open>
  The master keys of the packages \<open>src/pgp\<close>, \<open>src/kms\<close>, \<open>src/gcpkms\<close>, \<open>src/hckms\<close>, \<open>src/azkv\<close>,
  \<open>src/hcvault\<close> and \<open>src/age\<close>, the operations of the interface \<open>keys.MasterKey\<close> that need no
  service, the parsers of key identifiers, and \<open>KeyFromMasterKey\<close> of
  \<open>src/keyservice/keyservice.go\<close>. Fields that only configure a client (credentials, HTTP clients,
  cached age identities) are left out: they never reach a file.
\<close>

section \<open>Key records\<close>

record pgp_key =
  Fingerprint :: string
  pgp_enc :: string
  pgp_created :: gotime

text \<open>An encryption context is nil or a map; the model keeps a map as an association list.\<close>

type_synonym kms_context = "(string \<times> string) list option"

record kms_key =
  Arn :: string
  Role :: string
  kms_enc :: string
  kms_created :: gotime
  EncryptionContext :: kms_context
  AwsProfile :: string

record gcp_key =
  ResourceID :: string
  gcp_enc :: string
  gcp_created :: gotime

record hckms_key =
  KeyID :: string
  Region :: string
  KeyUUID :: string
  hckms_enc :: string
  hckms_created :: gotime

record azkv_key =
  VaultURL :: string
  Name :: string
  Version :: string
  azkv_enc :: string
  azkv_created :: gotime

record vault_key =
  VaultAddress :: string
  EnginePath :: string
  KeyName :: string
  vault_enc :: string
  vault_created :: gotime

record age_key =
  Recipient :: string
  age_enc :: string

datatype master_key =
    PGP pgp_key | KMS kms_key | GCPKMS gcp_key | HCKMS hckms_key | AZKV azkv_key
  | HCVAULT vault_key | AGE age_key

section \<open>The interface \<open>keys.MasterKey\<close>\<close>

fun EncryptedDataKey :: "master_key \<Rightarrow> string" where
  "EncryptedDataKey (PGP k) = pgp_enc k"
| "EncryptedDataKey (KMS k) = kms_enc k"
| "EncryptedDataKey (GCPKMS k) = gcp_enc k"
| "EncryptedDataKey (HCKMS k) = hckms_enc k"
| "EncryptedDataKey (AZKV k) = azkv_enc k"
| "EncryptedDataKey (HCVAULT k) = vault_enc k"
| "EncryptedDataKey (AGE k) = age_enc k"

fun SetEncryptedDataKey :: "string \<Rightarrow> master_key \<Rightarrow> master_key" where
  "SetEncryptedDataKey enc (PGP k) = PGP (k\<lparr>pgp_enc := enc\<rparr>)"
| "SetEncryptedDataKey enc (KMS k) = KMS (k\<lparr>kms_enc := enc\<rparr>)"
| "SetEncryptedDataKey enc (GCPKMS k) = GCPKMS (k\<lparr>gcp_enc := enc\<rparr>)"
| "SetEncryptedDataKey enc (HCKMS k) = HCKMS (k\<lparr>hckms_enc := enc\<rparr>)"
| "SetEncryptedDataKey enc (AZKV k) = AZKV (k\<lparr>azkv_enc := enc\<rparr>)"
| "SetEncryptedDataKey enc (HCVAULT k) = HCVAULT (k\<lparr>vault_enc := enc\<rparr>)"
| "SetEncryptedDataKey enc (AGE k) = AGE (k\<lparr>age_enc := enc\<rparr>)"

fun TypeToIdentifier :: "master_key \<Rightarrow> string" where
  "TypeToIdentifier (PGP k) = ''pgp''"
| "TypeToIdentifier (KMS k) = ''kms''"
| "TypeToIdentifier (GCPKMS k) = ''gcp_kms''"
| "TypeToIdentifier (HCKMS k) = ''hckms''"
| "TypeToIdentifier (AZKV k) = ''azure_kv''"
| "TypeToIdentifier (HCVAULT k) = ''hc_vault''"
| "TypeToIdentifier (AGE k) = ''age''"

text \<open>\<open>kmsContextToString\<close>: the pairs sorted by key.\<close>

definition kmsContextToString :: "kms_context \<Rightarrow> string" where
  "kmsContextToString ctx =
     (case ctx of None \<Rightarrow> ''''
      | Some pairs \<Rightarrow> str_join '','' (map (\<lambda>(k, v). k @ '':'' @ v) (sort_key fst pairs)))"

definition kms_ToString :: "kms_key \<Rightarrow> string" where
  "kms_ToString key =
     (let arnRole = (if Role key \<noteq> '''' then Arn key @ ''+'' @ Role key else Arn key);
          context = kmsContextToString (EncryptionContext key)
      in if AwsProfile key \<noteq> '''' then arnRole @ ''|'' @ context @ ''|'' @ AwsProfile key
         else if context \<noteq> '''' then arnRole @ ''|'' @ context
         else arnRole)"

fun ToString :: "master_key \<Rightarrow> string" where
  "ToString (PGP k) = Fingerprint k"
| "ToString (KMS k) = kms_ToString k"
| "ToString (GCPKMS k) = ResourceID k"
| "ToString (HCKMS k) = KeyID k"
| "ToString (AZKV k) = VaultURL k @ ''/keys/'' @ Name k @ ''/'' @ Version k"
| "ToString (HCVAULT k) = VaultAddress k @ ''/v1/'' @ EnginePath k @ ''/keys/'' @ KeyName k"
| "ToString (AGE k) = Recipient k"

text \<open>Rotation after 180 days, for all but age keys. The instants are in nanoseconds.\<close>

definition unix_nano :: "gotime \<Rightarrow> int" where
  "unix_nano t = seconds t * 1000000000 + int (nanoseconds t)"

definition key_ttl :: int where
  "key_ttl = 3600 * 1000000000 * 24 * 30 * 6"

fun CreationDate :: "master_key \<Rightarrow> gotime option" where
  "CreationDate (PGP k) = Some (pgp_created k)"
| "CreationDate (KMS k) = Some (kms_created k)"
| "CreationDate (GCPKMS k) = Some (gcp_created k)"
| "CreationDate (HCKMS k) = Some (hckms_created k)"
| "CreationDate (AZKV k) = Some (azkv_created k)"
| "CreationDate (HCVAULT k) = Some (vault_created k)"
| "CreationDate (AGE k) = None"

definition NeedsRotation :: "gotime \<Rightarrow> master_key \<Rightarrow> bool" where
  "NeedsRotation now key =
     (case CreationDate key of None \<Rightarrow> False
      | Some created \<Rightarrow> unix_nano now - unix_nano created > key_ttl)"

datatype map_value = MStr string | MCtx "(string \<times> string) list"

definition utc :: "gotime \<Rightarrow> gotime" where
  "utc t = t\<lparr>location := 0\<rparr>"

fun ToMap :: "golib \<Rightarrow> master_key \<Rightarrow> (string \<times> map_value) list" where
  "ToMap L (PGP k) =
     [(''fp'', MStr (Fingerprint k)),
      (''created_at'', MStr (FormatRFC3339 L (utc (pgp_created k)))), (''enc'', MStr (pgp_enc k))]"
| "ToMap L (KMS k) =
     [(''arn'', MStr (Arn k))]
     @ (if Role k \<noteq> '''' then [(''role'', MStr (Role k))] else [])
     @ [(''created_at'', MStr (FormatRFC3339 L (utc (kms_created k)))), (''enc'', MStr (kms_enc k))]
     @ (case EncryptionContext k of None \<Rightarrow> [] | Some c \<Rightarrow> [(''context'', MCtx c)])"
| "ToMap L (GCPKMS k) =
     [(''resource_id'', MStr (ResourceID k)),
      (''created_at'', MStr (FormatRFC3339 L (utc (gcp_created k)))), (''enc'', MStr (gcp_enc k))]"
| "ToMap L (HCKMS k) =
     [(''key_id'', MStr (KeyID k)),
      (''created_at'', MStr (FormatRFC3339 L (utc (hckms_created k)))), (''enc'', MStr (hckms_enc k))]"
| "ToMap L (AZKV k) =
     [(''vaultUrl'', MStr (VaultURL k)), (''key'', MStr (Name k)), (''version'', MStr (Version k)),
      (''created_at'', MStr (FormatRFC3339 L (utc (azkv_created k)))), (''enc'', MStr (azkv_enc k))]"
| "ToMap L (HCVAULT k) =
     [(''vault_address'', MStr (VaultAddress k)), (''key_name'', MStr (KeyName k)),
      (''engine_path'', MStr (EnginePath k)), (''enc'', MStr (vault_enc k)),
      (''created_at'', MStr (FormatRFC3339 L (utc (vault_created k))))]"
| "ToMap L (AGE k) = [(''recipient'', MStr (Recipient k)), (''enc'', MStr (age_enc k))]"

lemma EncryptedDataKey_Set [simp]: "EncryptedDataKey (SetEncryptedDataKey enc k) = enc"
  by (cases k) auto

lemma TypeToIdentifier_Set [simp]: "TypeToIdentifier (SetEncryptedDataKey enc k) = TypeToIdentifier k"
  by (cases k) auto

lemma ToString_Set [simp]: "ToString (SetEncryptedDataKey enc k) = ToString k"
  by (cases k) (auto simp: kms_ToString_def Let_def)

section \<open>The key sent to a key service\<close>

datatype rpc_key =
    PgpKey string
  | KmsKey string string "(string \<times> string) list" string
  | GcpKmsKey string
  | VaultKey string string string
  | AzureKeyvaultKey string string string
  | AgeKey string
  | HckmsKey string
  | NoKey

fun KeyFromMasterKey :: "master_key \<Rightarrow> rpc_key" where
  "KeyFromMasterKey (PGP mk) = PgpKey (Fingerprint mk)"
| "KeyFromMasterKey (GCPKMS mk) = GcpKmsKey (ResourceID mk)"
| "KeyFromMasterKey (HCVAULT mk) = VaultKey (VaultAddress mk) (EnginePath mk) (KeyName mk)"
| "KeyFromMasterKey (KMS mk) =
     KmsKey (Arn mk) (Role mk) (case EncryptionContext mk of None \<Rightarrow> [] | Some c \<Rightarrow> c) (AwsProfile mk)"
| "KeyFromMasterKey (AZKV mk) = AzureKeyvaultKey (VaultURL mk) (Name mk) (Version mk)"
| "KeyFromMasterKey (AGE mk) = AgeKey (Recipient mk)"
| "KeyFromMasterKey (HCKMS mk) = HckmsKey (KeyID mk)"

lemma KeyFromMasterKey_Set [simp]: "KeyFromMasterKey (SetEncryptedDataKey enc k) = KeyFromMasterKey k"
  by (cases k) auto

section \<open>Parsing key identifiers\<close>

text \<open>\<open>strings.Replace(s, " ", "", -1)\<close> and \<open>strings.Index\<close>.\<close>

definition remove_spaces :: "string \<Rightarrow> string" where
  "remove_spaces s = str_replace '' '' '''' s"

fun str_index :: "string \<Rightarrow> string \<Rightarrow> nat option" where
  "str_index s p =
     (if has_prefix s p then Some 0
      else case s of [] \<Rightarrow> None | _ # s' \<Rightarrow> map_option Suc (str_index s' p))"

declare str_index.simps [simp del]

definition NewMasterKeyFromFingerprint :: "gotime \<Rightarrow> string \<Rightarrow> pgp_key" where
  "NewMasterKeyFromFingerprint now fingerprint =
     \<lparr>Fingerprint = remove_spaces fingerprint, pgp_enc = '''', pgp_created = utc now\<rparr>"

definition MasterKeysFromFingerprintString :: "gotime \<Rightarrow> string \<Rightarrow> pgp_key list" where
  "MasterKeysFromFingerprintString now fingerprint =
     (if fingerprint = '''' then []
      else map (NewMasterKeyFromFingerprint now) (str_split CHR '','' fingerprint))"

definition shortenFingerprint :: "string \<Rightarrow> string" where
  "shortenFingerprint fingerprint =
     (let offset = int (length fingerprint) - 16 - (if has_suffix fingerprint ''!'' then 1 else 0)
      in if offset > 0 then drop (nat offset) fingerprint else fingerprint)"

definition NewMasterKeyFromArn :: "gotime \<Rightarrow> string \<Rightarrow> kms_context \<Rightarrow> string \<Rightarrow> kms_key" where
  "NewMasterKeyFromArn now arn0 context awsProfile =
     (let arn = remove_spaces arn0;
          base = \<lparr>Arn = arn, Role = '''', kms_enc = '''', kms_created = utc now,
                  EncryptionContext = context, AwsProfile = awsProfile\<rparr>
      in case str_index arn ''+arn:'' of
           Some roleIndex \<Rightarrow>
             if roleIndex > 0
             then base\<lparr>Arn := take roleIndex arn, Role := drop (Suc roleIndex) arn\<rparr>
             else base
         | None \<Rightarrow> base)"

definition MasterKeysFromArnString :: "gotime \<Rightarrow> string \<Rightarrow> kms_context \<Rightarrow> string \<Rightarrow> kms_key list" where
  "MasterKeysFromArnString now arn context awsProfile =
     (if arn = '''' then []
      else map (\<lambda>s. NewMasterKeyFromArn now s context awsProfile) (str_split CHR '','' arn))"

text \<open>
  \<open>ParseKMSContext\<close> on its three input types; a map with a value that is no string is \<open>None\<close>
  at that key, and so is a key that is no string.
\<close>

datatype kms_context_input =
    StringMap "(string \<times> string option) list"
  | AnyMap "(string option \<times> string option) list"
  | ContextString string
  | OtherInput

fun collect_pairs :: "(string option \<times> string option) list \<Rightarrow> (string \<times> string) list \<Rightarrow> kms_context" where
  "collect_pairs [] out = Some out"
| "collect_pairs ((Some k, Some v) # kvs) out = collect_pairs kvs (AList.update k v out)"
| "collect_pairs (_ # kvs) out = None"

fun ParseKMSContext :: "kms_context_input \<Rightarrow> kms_context" where
  "ParseKMSContext (StringMap m) =
     (if m = [] then None else collect_pairs (map (\<lambda>(k, v). (Some k, v)) m) [])"
| "ParseKMSContext (AnyMap m) = (if m = [] then None else collect_pairs m [])"
| "ParseKMSContext (ContextString s) =
     (if s = '''' then None
      else collect_pairs
        (map (\<lambda>kv. case str_split CHR '':'' kv of [k, v] \<Rightarrow> (Some k, Some v) | _ \<Rightarrow> (None, None))
          (str_split CHR '','' s)) [])"
| "ParseKMSContext OtherInput = Some []"

definition NewMasterKeyFromResourceID :: "gotime \<Rightarrow> string \<Rightarrow> gcp_key" where
  "NewMasterKeyFromResourceID now resourceID =
     \<lparr>ResourceID = remove_spaces resourceID, gcp_enc = '''', gcp_created = utc now\<rparr>"

definition MasterKeysFromResourceIDString :: "gotime \<Rightarrow> string \<Rightarrow> gcp_key list" where
  "MasterKeysFromResourceIDString now resourceID =
     (if resourceID = '''' then []
      else map (NewMasterKeyFromResourceID now) (str_split CHR '','' resourceID))"

datatype key_error =
    InvalidKeyIDFormat string | EmptyRegion string | EmptyKeyUUID string
  | NotAnAzureKeyURL string | AzureVersionFailed string
  | MissingScheme string | InvalidURL string | PrefixedVaultURL | BadVaultPath
  | EmptyAllowlistEntry nat | PanicSliceBounds

text \<open>\<open>strings.SplitN(s, ":", 2)\<close>, then trimming.\<close>

definition parseKeyID :: "string \<Rightarrow> key_error + string \<times> string" where
  "parseKeyID keyID0 =
     (let keyID = trim_space keyID0
      in case str_index keyID '':'' of
           None \<Rightarrow> Inl (InvalidKeyIDFormat keyID)
         | Some i \<Rightarrow>
             (let region = trim_space (take i keyID); keyUUID = trim_space (drop (Suc i) keyID)
              in if region = '''' then Inl (EmptyRegion keyID)
                 else if keyUUID = '''' then Inl (EmptyKeyUUID keyID)
                 else Inr (region, keyUUID)))"

definition hckms_NewMasterKey :: "gotime \<Rightarrow> string \<Rightarrow> key_error + hckms_key" where
  "hckms_NewMasterKey now keyID =
     bindE (parseKeyID keyID) (\<lambda>(region, keyUUID).
       Inr \<lparr>KeyID = keyID, Region = region, KeyUUID = keyUUID, hckms_enc = '''', hckms_created = utc now\<rparr>)"

definition NewMasterKeyFromKeyIDString :: "gotime \<Rightarrow> string \<Rightarrow> key_error + hckms_key list" where
  "NewMasterKeyFromKeyIDString now keyID =
     (if keyID = '''' then Inr []
      else mapE (hckms_NewMasterKey now)
        (filter (\<lambda>s. s \<noteq> '''') (map trim_space (str_split CHR '','' keyID))))"

text \<open>
  The Azure key URL \<open>^(https://[^/]+)/keys/([^/]+)(/[^/]*)?$\<close>: no group can contain a slash, so the
  match is the split at slashes. \<open>ensureKeyHasVersion\<close> asks the service, the parameter
  \<open>fetch\<close>, for the version when there is none.
\<close>

definition ensureKeyHasVersion :: "(string \<Rightarrow> string \<Rightarrow> string option) \<Rightarrow> azkv_key \<Rightarrow> key_error + azkv_key" where
  "ensureKeyHasVersion fetch key =
     (if Version key \<noteq> '''' then Inr key
      else case fetch (VaultURL key) (Name key) of
          None \<Rightarrow> Inl (AzureVersionFailed (Name key))
        | Some v \<Rightarrow> Inr (key\<lparr>Version := v\<rparr>))"

definition azkv_newMasterKey :: "gotime \<Rightarrow> string \<Rightarrow> string \<Rightarrow> string \<Rightarrow> azkv_key" where
  "azkv_newMasterKey now vaultURL keyName keyVersion =
     \<lparr>VaultURL = vaultURL, Name = keyName, Version = keyVersion, azkv_enc = '''', azkv_created = utc now\<rparr>"

definition NewMasterKeyWithOptionalVersion ::
    "(string \<Rightarrow> string \<Rightarrow> string option) \<Rightarrow> gotime \<Rightarrow> string \<Rightarrow> string \<Rightarrow> string \<Rightarrow> key_error + azkv_key" where
  "NewMasterKeyWithOptionalVersion fetch now vaultURL keyName keyVersion =
     ensureKeyHasVersion fetch (azkv_newMasterKey now vaultURL keyName keyVersion)"

definition NewMasterKeyFromURL ::
    "(string \<Rightarrow> string \<Rightarrow> string option) \<Rightarrow> gotime \<Rightarrow> string \<Rightarrow> key_error + azkv_key" where
  "NewMasterKeyFromURL fetch now url0 =
     (let url = trim_space url0;
          found = (\<lambda>host name version.
            if host \<noteq> '''' \<and> name \<noteq> ''''
            then ensureKeyHasVersion fetch (azkv_newMasterKey now (''https://'' @ host) name version)
            else Inl (NotAnAzureKeyURL url))
      in case str_split CHR ''/'' url of
           [scheme, blank, host, keys, name] \<Rightarrow>
             (if scheme = ''https:'' \<and> blank = '''' \<and> keys = ''keys'' then found host name ''''
              else Inl (NotAnAzureKeyURL url))
         | [scheme, blank, host, keys, name, version] \<Rightarrow>
             (if scheme = ''https:'' \<and> blank = '''' \<and> keys = ''keys'' then found host name version
              else Inl (NotAnAzureKeyURL url))
         | _ \<Rightarrow> Inl (NotAnAzureKeyURL url))"

definition MasterKeysFromURLs ::
    "(string \<Rightarrow> string \<Rightarrow> string option) \<Rightarrow> gotime \<Rightarrow> string \<Rightarrow> key_error + azkv_key list" where
  "MasterKeysFromURLs fetch now urls =
     (if urls = '''' then Inr []
      else mapE (NewMasterKeyFromURL fetch now) (str_split CHR '','' urls))"

section \<open>Facts about the parsers\<close>

lemma update_fresh: "k \<notin> fst ` set out \<Longrightarrow> AList.update k v out = out @ [(k, v)]"
  by (induction out) auto

lemma collect_pairs_distinct:
  "distinct (map fst (out @ pairs)) \<Longrightarrow>
   collect_pairs (map (\<lambda>(k, v). (Some k, Some v)) pairs) out = Some (out @ pairs)"
  by (induction pairs arbitrary: out) (auto simp: update_fresh)

definition plain :: "string \<Rightarrow> bool" where
  "plain s \<longleftrightarrow> CHR '','' \<notin> set s \<and> CHR '':'' \<notin> set s"

lemma split_pair: "plain k \<Longrightarrow> plain v \<Longrightarrow> str_split CHR '':'' (k @ '':'' @ v) = [k, v]"
  by (simp add: plain_def str_split_append str_split_no_sep)

lemma str_join_nonempty: "ws \<noteq> [] \<Longrightarrow> \<forall>w\<in>set ws. w \<noteq> [] \<Longrightarrow> str_join sep ws \<noteq> []"
  by (induction sep ws rule: str_join.induct) auto

lemma str_index_bound: "str_index s p = Some i \<Longrightarrow> i + length p \<le> length s \<and> has_prefix (drop i s) p"
proof (induction s arbitrary: i)
  case Nil
  then show ?case by (subst (asm) str_index.simps) (auto split: if_splits)
next
  case (Cons x s)
  then show ?case
    by (subst (asm) (2) str_index.simps) (auto split: if_splits dest: prefix_length_le)
qed

lemma str_index_absent: "c \<notin> set s \<Longrightarrow> str_index s (c # p) = None"
  by (induction s) (subst str_index.simps; auto)+

lemma str_index_first: "c \<notin> set s \<Longrightarrow> str_index (s @ c # t) [c] = Some (length s)"
  by (induction s) (subst str_index.simps; auto)+

section \<open>Properties\<close>

text \<open>Parsing the printed form of an encryption context gives back the context, its pairs in the
  order of the keys, provided no key or value holds a comma or a colon.\<close>

lemma context_round_trip:
  assumes "pairs \<noteq> []" "distinct (map fst pairs)"
    and "\<forall>(k, v)\<in>set pairs. plain k \<and> plain v"
  shows "ParseKMSContext (ContextString (kmsContextToString (Some pairs))) = Some (sort_key fst pairs)"
proof -
  let ?ps = "sort_key fst pairs" and ?print = "\<lambda>(k, v). k @ '':'' @ v"
  have plain: "\<forall>(k, v)\<in>set ?ps. plain k \<and> plain v" using assms(3) by simp
  have nonempty: "map ?print ?ps \<noteq> []" using assms(1) by (metis map_is_Nil_conv set_empty set_sort)
  have "str_split CHR '','' (str_join '','' (map ?print ?ps)) = map ?print ?ps"
    by (rule str_split_join [OF nonempty]) (use plain in \<open>auto simp: plain_def\<close>)
  moreover have "str_join '','' (map ?print ?ps) \<noteq> ''''"
    by (rule str_join_nonempty [OF nonempty]) auto
  moreover have "map (\<lambda>kv. case str_split CHR '':'' kv of [k, v] \<Rightarrow> (Some k, Some v) | _ \<Rightarrow> (None, None))
      (map ?print ?ps) = map (\<lambda>(k, v). (Some k, Some v)) ?ps"
    using plain split_pair by fastforce
  moreover have "distinct (map fst ?ps)"
    using assms(2) by (metis distinct_map distinct_sort set_sort)
  ultimately show ?thesis
    using collect_pairs_distinct [of "[]" ?ps] by (simp add: kmsContextToString_def del: map_map)
qed

lemma context_round_trip_witness:
  "ParseKMSContext (ContextString (kmsContextToString (Some [(''b'', ''2''), (''a'', ''1'')])))
    = Some [(''a'', ''1''), (''b'', ''2'')]"
  using context_round_trip [of "[(''b'', ''2''), (''a'', ''1'')]"]
  by (simp add: plain_def)

text \<open>A context with a colon in a value, such as an ARN, prints to a string that parses to no
  context at all.\<close>

lemma context_with_colon:
  assumes "plain k" "CHR '','' \<notin> set v" "CHR '':'' \<in> set v"
  shows "ParseKMSContext (ContextString (kmsContextToString (Some [(k, v)]))) = None"
proof -
  obtain v1 v2 where v: "v = v1 @ CHR '':'' # v2" "CHR '':'' \<notin> set v1"
    using assms(3) by (meson split_list_first)
  obtain w ws where "str_split CHR '':'' v2 = w # ws" by (cases "str_split CHR '':'' v2") auto
  then have "str_split CHR '':'' (k @ '':'' @ v) = k # v1 # w # ws"
    using assms(1) v by (simp add: plain_def str_split_append)
  moreover have "str_split CHR '','' (k @ '':'' @ v) = [k @ '':'' @ v]"
    using assms by (intro str_split_no_sep) (auto simp: plain_def)
  ultimately show ?thesis by (simp add: kmsContextToString_def)
qed

lemma context_with_colon_witness:
  "ParseKMSContext (ContextString (kmsContextToString (Some [(''role'', ''arn:aws'')]))) = None"
  by (rule context_with_colon) (simp_all add: plain_def)

end
