(* ===== verification/Tree_Crypt.thy ===== *)
theory Tree_Crypt
  imports Master_Keys
begin

text \<open>
  Encrypting and decrypting a document, of \<open>src/sops.go\<close>: metadata and tree, directives in comments,
  the walk over a tree with its stack of active comments, the decision which leaf is encrypted, and
  \<open>Tree.Encrypt\<close> and \<open>Tree.Decrypt\<close> with the message authentication code they compute.

  The hash is modelled by the bytes written to it, and the cipher by two functions over a state of
  its own, which the AES cipher uses for its stash and its random source. An error of the walk drops
  hash and tree, so the model returns no state with it; a failing \<open>Decrypt\<close> of the cipher does
  return one, since the walk goes on after a comment that does not decrypt.
\<close>

section \<open>Metadata and trees\<close>

record Metadata =
  LastModified :: gotime
  UnencryptedSuffix :: string
  EncryptedSuffix :: string
  UnencryptedRegex :: string
  EncryptedRegex :: string
  UnencryptedCommentRegex :: string
  EncryptedCommentRegex :: string
  MessageAuthenticationCode :: string
  MACOnlyEncrypted :: bool
  SopsVersion :: string
  KeyGroups :: "master_key list list"
  ShamirThreshold :: int
  DataKey :: "string option"

record Tree =
  TreeMetadata :: Metadata
  Branches :: TreeBranches
  FilePath :: string

section \<open>Directives\<close>

datatype Directive = DirectiveNone | DirectiveUnencrypted | DirectiveEncrypted

definition ParseDirective :: "string \<Rightarrow> Directive" where
  "ParseDirective commentValue =
     (let c = to_lower (trim_space commentValue)
      in if c = ''sops:unencrypted'' then DirectiveUnencrypted
         else if c = ''sops:encrypted'' then DirectiveEncrypted
         else DirectiveNone)"

section \<open>The walk\<close>

datatype 'e walk_error =
    CannotWalkValue
  | CommentWalkedTo gval
  | NonStringKey gkey
  | NotConvertible tree_error
  | CouldNotEncrypt 'e
  | EncryptedCommentMatches string
  | CouldNotDecrypt 'e
  | PanicNotAString
  | PanicEmptyCommentsStack

type_synonym ('e, 's) onLeaves =
  "gval \<Rightarrow> string list \<Rightarrow> string list list \<Rightarrow> 's \<Rightarrow> 'e walk_error + (gval \<times> 's)"

text \<open>
  \<open>commentsStack\<close> is the stack of the enclosing containers; the last element, which the loops of
  \<open>walkSlice\<close> and \<open>walkBranch\<close> update, is the argument \<open>active\<close>.
\<close>

fun push_comment :: "gval \<Rightarrow> string list \<Rightarrow> string list" where
  "push_comment (GComment c) active = active @ [CValue c]"
| "push_comment _ active = active"

fun walkValue :: "('e, 's) onLeaves \<Rightarrow> gval \<Rightarrow> string list \<Rightarrow> string list list \<Rightarrow> 's
      \<Rightarrow> 'e walk_error + (gval \<times> 's)"
  and walkSlice :: "('e, 's) onLeaves \<Rightarrow> gval list \<Rightarrow> string list \<Rightarrow> string list list \<Rightarrow> string list \<Rightarrow> 's
      \<Rightarrow> 'e walk_error + (gval list \<times> 's)"
  and walkBranch :: "('e, 's) onLeaves \<Rightarrow> treeitem list \<Rightarrow> string list \<Rightarrow> string list list \<Rightarrow> string list \<Rightarrow> 's
      \<Rightarrow> 'e walk_error + (treeitem list \<times> 's)" where
  "walkValue onLeaves (GStr s) path stack st = onLeaves (GStr s) path stack st"
| "walkValue onLeaves (GBytes b) path stack st = onLeaves (GStr b) path stack st"
| "walkValue onLeaves (GInt i) path stack st = onLeaves (GInt i) path stack st"
| "walkValue onLeaves (GBool b) path stack st = onLeaves (GBool b) path stack st"
| "walkValue onLeaves (GFloat x) path stack st = onLeaves (GFloat x) path stack st"
| "walkValue onLeaves (GTime t) path stack st = onLeaves (GTime t) path stack st"
| "walkValue onLeaves (GComment c) path stack st = onLeaves (GComment c) path stack st"
| "walkValue onLeaves (GBranch items) path stack st =
     bindE (walkBranch onLeaves items path stack [] st) (\<lambda>(items', st'). Inr (GBranch items', st'))"
| "walkValue onLeaves (GSlice vs) path stack st =
     bindE (walkSlice onLeaves vs path stack [] st) (\<lambda>(vs', st'). Inr (GSlice vs', st'))"
| "walkValue onLeaves GNil path stack st = Inr (GNil, st)"
| "walkValue onLeaves _ path stack st = Inl CannotWalkValue"
| "walkSlice onLeaves [] path stack active st = Inr ([], st)"
| "walkSlice onLeaves (v # vs) path stack active st =
     bindE (walkValue onLeaves v path (stack @ [push_comment v active]) st) (\<lambda>(v', st1).
       bindE (walkSlice onLeaves vs path stack (if is_comment v then push_comment v active else []) st1)
         (\<lambda>(vs', st2). Inr (v' # vs', st2)))"
| "walkBranch onLeaves [] path stack active st = Inr ([], st)"
| "walkBranch onLeaves (TreeItem (KComment c) v # items) path stack active st =
     bindE (onLeaves (GComment c) path (stack @ [active @ [CValue c]]) st) (\<lambda>(enc, st1).
       bindE (case enc of
                GComment encComment \<Rightarrow> Inr encComment
              | GStr comment \<Rightarrow> Inr \<lparr>CValue = comment, Inline = Inline c\<rparr>
              | _ \<Rightarrow> Inl (CommentWalkedTo enc)) (\<lambda>key.
         bindE (walkBranch onLeaves items path stack (active @ [CValue c]) st1) (\<lambda>(items', st2).
           Inr (TreeItem (KComment key) v # items', st2))))"
| "walkBranch onLeaves (TreeItem (KStr key) v # items) path stack active st =
     bindE (walkValue onLeaves v (path @ [key]) (stack @ [push_comment v active]) st) (\<lambda>(v', st1).
       bindE (walkBranch onLeaves items path stack (if is_comment v then push_comment v active else []) st1)
         (\<lambda>(items', st2). Inr (TreeItem (KStr key) v' # items', st2)))"
| "walkBranch onLeaves (TreeItem key v # items) path stack active st = Inl (NonStringKey key)"

section \<open>The decision\<close>

text \<open>
  The comments of the stack in the order of the loops, without the comment being walked itself,
  which is the last of the last group.
\<close>

definition comments_in_scope :: "string list list \<Rightarrow> bool \<Rightarrow> string list" where
  "comments_in_scope commentsStack isComment =
     (if isComment \<and> commentsStack \<noteq> []
      then concat (butlast commentsStack) @ butlast (last commentsStack)
      else concat commentsStack)"

definition apply_directive :: "bool \<Rightarrow> string \<Rightarrow> bool" where
  "apply_directive encrypted c =
     (case ParseDirective c of
        DirectiveUnencrypted \<Rightarrow> False | DirectiveEncrypted \<Rightarrow> True | DirectiveNone \<Rightarrow> encrypted)"

definition shouldBeEncrypted :: "golib \<Rightarrow> Metadata \<Rightarrow> string list \<Rightarrow> string list list \<Rightarrow> bool \<Rightarrow> 'e walk_error + bool" where
  "shouldBeEncrypted L m path commentsStack isComment =
     (if isComment \<and> EncryptedCommentRegex m = '''' then Inr False
      else
        let scope = comments_in_scope commentsStack isComment;
            e0 = True;
            e1 = (if UnencryptedSuffix m \<noteq> '''' \<and> list_ex (\<lambda>v. has_suffix v (UnencryptedSuffix m)) path
                  then False else e0);
            e2 = (if EncryptedSuffix m \<noteq> '''' then list_ex (\<lambda>v. has_suffix v (EncryptedSuffix m)) path else e1);
            e3 = (if UnencryptedRegex m \<noteq> '''' \<and> list_ex (MatchRegexp L (UnencryptedRegex m)) path
                  then False else e2);
            e4 = (if EncryptedRegex m \<noteq> '''' then list_ex (MatchRegexp L (EncryptedRegex m)) path else e3);
            e5 = (if UnencryptedCommentRegex m \<noteq> ''''
                     \<and> list_ex (MatchRegexp L (UnencryptedCommentRegex m)) (concat commentsStack)
                  then False else e4)
        in if EncryptedCommentRegex m \<noteq> '''' \<and> commentsStack = [] then Inl PanicEmptyCommentsStack
           else
             let e6 = (if EncryptedCommentRegex m \<noteq> ''''
                       then list_ex (MatchRegexp L (EncryptedCommentRegex m)) scope else e5)
             in if isComment \<and> commentsStack \<noteq> [] \<and> last commentsStack \<noteq> []
                   \<and> ParseDirective (last (last commentsStack)) \<noteq> DirectiveNone
                then Inr False
                else Inr (foldl apply_directive e6 scope))"

section \<open>Encrypt and Decrypt\<close>

record ('e, 's) cipher =
  cipher_Encrypt :: "gval \<Rightarrow> string \<Rightarrow> string \<Rightarrow> 's \<Rightarrow> 'e + (string \<times> 's)"
  cipher_Decrypt :: "string \<Rightarrow> string \<Rightarrow> string \<Rightarrow> 's \<Rightarrow> ('e + gval) \<times> 's"

definition MACOnlyEncryptedInitialization :: string where
  "MACOnlyEncryptedInitialization =
     map char_of [0x8a, 0x3f, 0xd2, 0xad, 0x54, 0xce, 0x66, 0x52, 0x7b, 0x10, 0x34, 0xf3, 0xd1, 0x47,
       0xbe, 0xb, 0xb, 0x97, 0x5b, 0x3b, 0xf4, 0x4f, 0x72, 0xc6, 0xfd, 0xad, 0xec, 0x81, 0x76, 0xf2,
       0x7d, 0x69 :: nat]"

definition path_string :: "string list \<Rightarrow> string" where
  "path_string path = str_join '':'' path @ '':''"

definition hash_leaf :: "golib \<Rightarrow> Metadata \<Rightarrow> bool \<Rightarrow> gval \<Rightarrow> string \<Rightarrow> 'e walk_error + string" where
  "hash_leaf L m encrypted v h =
     (if (\<not> MACOnlyEncrypted m \<or> encrypted) \<and> \<not> is_comment v
      then case ToBytes L v of Inl e \<Rightarrow> Inl (NotConvertible e) | Inr bytes \<Rightarrow> Inr (h @ bytes)
      else Inr h)"

definition encrypt_leaf :: "golib \<Rightarrow> Metadata \<Rightarrow> ('e, 's) cipher \<Rightarrow> string \<Rightarrow> ('e, string \<times> 's) onLeaves" where
  "encrypt_leaf L m C key v path commentsStack st =
     bindE (shouldBeEncrypted L m path commentsStack (is_comment v)) (\<lambda>encrypted.
       bindE (hash_leaf L m encrypted v (fst st)) (\<lambda>h.
         if \<not> encrypted then Inr (v, (h, snd st))
         else case cipher_Encrypt C v key (path_string path) (snd st) of
             Inl e \<Rightarrow> Inl (CouldNotEncrypt e)
           | Inr (text, s) \<Rightarrow>
               if is_comment v \<and> UnencryptedCommentRegex m \<noteq> ''''
                  \<and> MatchRegexp L (UnencryptedCommentRegex m) text
               then Inl (EncryptedCommentMatches text)
               else Inr (GStr text, (h, s))))"

definition decrypt_leaf :: "golib \<Rightarrow> Metadata \<Rightarrow> ('e, 's) cipher \<Rightarrow> string \<Rightarrow> ('e, string \<times> 's) onLeaves" where
  "decrypt_leaf L m C key v path commentsStack st =
     bindE (shouldBeEncrypted L m path commentsStack (is_comment v)) (\<lambda>encrypted.
       bindE (if \<not> encrypted then Inr (v, snd st)
              else case v of
                  GComment c \<Rightarrow>
                    (case cipher_Decrypt C (CValue c) key (path_string path) (snd st) of
                       (Inl e, s) \<Rightarrow> Inr (GComment c, s)
                     | (Inr w, s) \<Rightarrow> Inr (w, s))
                | GStr text \<Rightarrow>
                    (case cipher_Decrypt C text key (path_string path) (snd st) of
                       (Inl e, s) \<Rightarrow> Inl (CouldNotDecrypt e)
                     | (Inr w, s) \<Rightarrow> Inr (w, s))
                | _ \<Rightarrow> Inl PanicNotAString) (\<lambda>(w, s).
         bindE (hash_leaf L m encrypted w (fst st)) (\<lambda>h. Inr (w, (h, s)))))"

text \<open>\<open>fmt.Sprintf("%X", b)\<close>.\<close>

definition hex_char :: "nat \<Rightarrow> char" where
  "hex_char d = (if d < 10 then char_of (48 + d) else char_of (55 + d))"

definition hex_upper :: "string \<Rightarrow> string" where
  "hex_upper b = concat (map (\<lambda>c. [hex_char (of_char c div 16), hex_char (of_char c mod 16)]) b)"

fun walk_branches :: "('e, 's) onLeaves \<Rightarrow> TreeBranches \<Rightarrow> 's \<Rightarrow> 'e walk_error + (TreeBranches \<times> 's)" where
  "walk_branches onLeaves [] st = Inr ([], st)"
| "walk_branches onLeaves (b # bs) st =
     bindE (walkBranch onLeaves b [] [] [] st) (\<lambda>(b', st1).
       bindE (walk_branches onLeaves bs st1) (\<lambda>(bs', st2). Inr (b' # bs', st2)))"

definition initial_hash :: "Metadata \<Rightarrow> string" where
  "initial_hash m = (if MACOnlyEncrypted m then MACOnlyEncryptedInitialization else '''')"

text \<open>Both return the new tree, the MAC, and the state of the cipher.\<close>

definition Tree_Encrypt :: "golib \<Rightarrow> ('e, 's) cipher \<Rightarrow> string \<Rightarrow> Tree \<Rightarrow> 's \<Rightarrow> 'e walk_error + (Tree \<times> string \<times> 's)" where
  "Tree_Encrypt L C key tree s =
     (let m = TreeMetadata tree
      in bindE (walk_branches (encrypt_leaf L m C key) (Branches tree) (initial_hash m, s)) (\<lambda>(bs, (h, s')).
           Inr (tree\<lparr>Branches := bs\<rparr>, hex_upper (SHA512 L h), s')))"

definition Tree_Decrypt :: "golib \<Rightarrow> ('e, 's) cipher \<Rightarrow> string \<Rightarrow> Tree \<Rightarrow> 's \<Rightarrow> 'e walk_error + (Tree \<times> string \<times> 's)" where
  "Tree_Decrypt L C key tree s =
     (let m = TreeMetadata tree
      in bindE (walk_branches (decrypt_leaf L m C key) (Branches tree) (initial_hash m, s)) (\<lambda>(bs, (h, s')).
           Inr (tree\<lparr>Branches := bs\<rparr>, hex_upper (SHA512 L h), s')))"

end
