(* ===== verification/Base64.thy ===== *)
theory Base64
  imports Sops_Prelude
begin

text \<open>
  The package \<open>encoding/base64\<close> of Go's standard library, in the two variants the code uses:
  \<open>StdEncoding\<close> with padding and \<open>RawURLEncoding\<close> without. The decoder skips carriage returns and
  line feeds and, as Go's non-strict one, ignores the unused bits of a last group.
\<close>

definition std_alphabet :: string where
  "std_alphabet = ''ABCDEFGHIJKLMNOPQRSTUVWXYZabcdefghijklmnopqrstuvwxyz0123456789+/''"

definition url_alphabet :: string where
  "url_alphabet = ''ABCDEFGHIJKLMNOPQRSTUVWXYZabcdefghijklmnopqrstuvwxyz0123456789-_''"

definition enc6 :: "string \<Rightarrow> nat \<Rightarrow> char" where
  "enc6 A n = A ! n"

fun position :: "'a \<Rightarrow> 'a list \<Rightarrow> nat option" where
  "position x [] = None"
| "position x (y # ys) = (if x = y then Some 0 else map_option Suc (position x ys))"

definition dec6 :: "string \<Rightarrow> char \<Rightarrow> nat option" where
  "dec6 A c = position c A"

abbreviation byte_nat :: "char \<Rightarrow> nat" where
  "byte_nat c \<equiv> of_char c"

fun b64_encode :: "string \<Rightarrow> bool \<Rightarrow> string \<Rightarrow> string" where
  "b64_encode A pad (a # b # c # rest) =
     [enc6 A (byte_nat a div 4),
      enc6 A ((byte_nat a mod 4) * 16 + byte_nat b div 16),
      enc6 A ((byte_nat b mod 16) * 4 + byte_nat c div 64),
      enc6 A (byte_nat c mod 64)] @ b64_encode A pad rest"
| "b64_encode A pad [a, b] =
     [enc6 A (byte_nat a div 4),
      enc6 A ((byte_nat a mod 4) * 16 + byte_nat b div 16),
      enc6 A ((byte_nat b mod 16) * 4)] @ (if pad then ''='' else '''')"
| "b64_encode A pad [a] =
     [enc6 A (byte_nat a div 4),
      enc6 A ((byte_nat a mod 4) * 16)] @ (if pad then ''=='' else '''')"
| "b64_encode A pad [] = ''''"

definition byte1 :: "nat \<Rightarrow> nat \<Rightarrow> char" where "byte1 x y = char_of (x * 4 + y div 16)"
definition byte2 :: "nat \<Rightarrow> nat \<Rightarrow> char" where "byte2 y z = char_of ((y mod 16) * 16 + z div 4)"
definition byte3 :: "nat \<Rightarrow> nat \<Rightarrow> char" where "byte3 z w = char_of ((z mod 4) * 64 + w)"

definition decode2 :: "string \<Rightarrow> char \<Rightarrow> char \<Rightarrow> string option" where
  "decode2 A a b =
     (case (dec6 A a, dec6 A b) of (Some x, Some y) \<Rightarrow> Some [byte1 x y] | _ \<Rightarrow> None)"

definition decode3 :: "string \<Rightarrow> char \<Rightarrow> char \<Rightarrow> char \<Rightarrow> string option" where
  "decode3 A a b c =
     (case (dec6 A a, dec6 A b, dec6 A c) of
        (Some x, Some y, Some z) \<Rightarrow> Some [byte1 x y, byte2 y z] | _ \<Rightarrow> None)"

definition decode4 :: "string \<Rightarrow> char \<Rightarrow> char \<Rightarrow> char \<Rightarrow> char \<Rightarrow> string option" where
  "decode4 A a b c d =
     (case (dec6 A a, dec6 A b, dec6 A c, dec6 A d) of
        (Some x, Some y, Some z, Some w) \<Rightarrow> Some [byte1 x y, byte2 y z, byte3 z w] | _ \<Rightarrow> None)"

fun decode_groups :: "string \<Rightarrow> bool \<Rightarrow> string \<Rightarrow> string option" where
  "decode_groups A pad [] = Some []"
| "decode_groups A pad [a] = None"
| "decode_groups A pad [a, b] = (if pad then None else decode2 A a b)"
| "decode_groups A pad [a, b, c] = (if pad then None else decode3 A a b c)"
| "decode_groups A pad (a # b # c # d # rest) =
     (if pad \<and> d = CHR ''=''
      then if rest \<noteq> [] then None else if c = CHR ''='' then decode2 A a b else decode3 A a b c
      else case decode4 A a b c d of None \<Rightarrow> None
        | Some bytes \<Rightarrow> map_option ((@) bytes) (decode_groups A pad rest))"

definition b64_decode :: "string \<Rightarrow> bool \<Rightarrow> string \<Rightarrow> string option" where
  "b64_decode A pad s = decode_groups A pad (filter (\<lambda>c. c \<noteq> CHR 0x0A \<and> c \<noteq> CHR 0x0D) s)"

definition EncodeToString :: "string \<Rightarrow> string" where
  "EncodeToString = b64_encode std_alphabet True"

definition DecodeString :: "string \<Rightarrow> string option" where
  "DecodeString = b64_decode std_alphabet True"

definition RawURLEncode :: "string \<Rightarrow> string" where
  "RawURLEncode = b64_encode url_alphabet False"

definition RawURLDecode :: "string \<Rightarrow> string option" where
  "RawURLDecode = b64_decode url_alphabet False"

section \<open>Round trip\<close>

definition b64_alphabet :: "string \<Rightarrow> bool" where
  "b64_alphabet A \<longleftrightarrow> length A = 64 \<and> distinct A \<and> CHR ''='' \<notin> set A \<and> CHR 0x0A \<notin> set A \<and> CHR 0x0D \<notin> set A"

lemma b64_alphabets [simp]: "b64_alphabet std_alphabet" "b64_alphabet url_alphabet"
  by code_simp+

lemma position_nth: "distinct xs \<Longrightarrow> i < length xs \<Longrightarrow> position (xs ! i) xs = Some i"
proof (induction xs arbitrary: i)
  case (Cons x xs)
  then show ?case by (cases i) auto
qed simp

lemma dec6_enc6 [simp]: "b64_alphabet A \<Longrightarrow> n < 64 \<Longrightarrow> dec6 A (enc6 A n) = Some n"
  by (simp add: dec6_def enc6_def b64_alphabet_def position_nth)

lemma enc6_in [simp]: "b64_alphabet A \<Longrightarrow> n < 64 \<Longrightarrow> enc6 A n \<in> set A"
  by (simp add: enc6_def b64_alphabet_def)

lemma enc6_not_pad: "b64_alphabet A \<Longrightarrow> n < 64 \<Longrightarrow> enc6 A n \<noteq> CHR ''=''"
  using enc6_in [of A n] by (metis b64_alphabet_def)

lemma byte_bound [simp]: "byte_nat c < 256"
  by simp

lemma byte_div: "byte_nat c div 16 < 16" "byte_nat c div 64 < 4"
  using byte_bound [of c] by linarith+

lemma sextets [simp]:
  "byte_nat a div 4 < 64" "(byte_nat a mod 4) * 16 + byte_nat b div 16 < 64"
  "(byte_nat b mod 16) * 4 + byte_nat c div 64 < 64" "byte_nat c mod 64 < 64"
  "(byte_nat a mod 4) * 16 < 64" "(byte_nat b mod 16) * 4 < 64"
  using byte_bound [of a] byte_bound [of b] byte_bound [of c] by linarith+

lemma byte1_enc [simp]: "byte1 (byte_nat a div 4) ((byte_nat a mod 4) * 16 + byte_nat b div 16) = a"
  and byte1_enc0 [simp]: "byte1 (byte_nat a div 4) ((byte_nat a mod 4) * 16) = a"
proof -
  have "((byte_nat a mod 4) * 16 + byte_nat b div 16) div 16 = byte_nat a mod 4"
    using byte_bound [of b] by linarith
  then show "byte1 (byte_nat a div 4) ((byte_nat a mod 4) * 16 + byte_nat b div 16) = a"
    by (simp add: byte1_def)
  show "byte1 (byte_nat a div 4) ((byte_nat a mod 4) * 16) = a"
    by (simp add: byte1_def)
qed

lemma byte2_enc [simp]:
  "byte2 ((byte_nat a mod 4) * 16 + byte_nat b div 16) ((byte_nat b mod 16) * 4 + byte_nat c div 64) = b"
  "byte2 ((byte_nat a mod 4) * 16 + byte_nat b div 16) ((byte_nat b mod 16) * 4) = b"
proof -
  have "((byte_nat a mod 4) * 16 + byte_nat b div 16) mod 16 = byte_nat b div 16"
    "((byte_nat b mod 16) * 4 + byte_nat c div 64) div 4 = byte_nat b mod 16"
    using byte_div [of b] byte_div [of c] by simp_all
  moreover have "byte_nat b div 16 * 16 + byte_nat b mod 16 = byte_nat b" by simp
  ultimately show
    "byte2 ((byte_nat a mod 4) * 16 + byte_nat b div 16) ((byte_nat b mod 16) * 4 + byte_nat c div 64) = b"
    "byte2 ((byte_nat a mod 4) * 16 + byte_nat b div 16) ((byte_nat b mod 16) * 4) = b"
    by (simp_all add: byte2_def)
qed

lemma byte3_enc [simp]: "byte3 ((byte_nat b mod 16) * 4 + byte_nat c div 64) (byte_nat c mod 64) = c"
proof -
  have "((byte_nat b mod 16) * 4 + byte_nat c div 64) mod 4 = byte_nat c div 64"
    using byte_div [of c] by simp
  moreover have "byte_nat c div 64 * 64 + byte_nat c mod 64 = byte_nat c" by simp
  ultimately show ?thesis by (simp add: byte3_def)
qed

lemma decode_groups_encode:
  assumes "b64_alphabet A"
  shows "decode_groups A pad (b64_encode A pad s) = Some s"
  using assms
  by (induction A pad s rule: b64_encode.induct)
    (simp_all add: decode2_def decode3_def decode4_def enc6_not_pad)

lemma b64_encode_chars:
  assumes "b64_alphabet A"
  shows "set (b64_encode A pad s) \<subseteq> insert CHR ''='' (set A)"
  using assms by (induction A pad s rule: b64_encode.induct) auto

lemma b64_decode_encode:
  assumes "b64_alphabet A"
  shows "b64_decode A pad (b64_encode A pad s) = Some s"
proof -
  have "filter (\<lambda>c. c \<noteq> CHR 0x0A \<and> c \<noteq> CHR 0x0D) (b64_encode A pad s) = b64_encode A pad s"
    using b64_encode_chars [OF assms] assms by (intro filter_True) (auto simp: b64_alphabet_def)
  then show ?thesis using assms by (simp add: b64_decode_def decode_groups_encode)
qed

lemma DecodeString_EncodeToString [simp]: "DecodeString (EncodeToString s) = Some s"
  by (simp add: DecodeString_def EncodeToString_def b64_decode_encode)

lemma RawURLDecode_RawURLEncode [simp]: "RawURLDecode (RawURLEncode s) = Some s"
  by (simp add: RawURLDecode_def RawURLEncode_def b64_decode_encode)

lemma EncodeToString_nonempty [simp]: "EncodeToString s = [] \<longleftrightarrow> s = []"
  unfolding EncodeToString_def by (cases "(std_alphabet, True, s)" rule: b64_encode.cases) auto

lemma EncodeToString_chars:
  assumes "c \<notin> insert CHR ''='' (set std_alphabet)"
  shows "c \<notin> set (EncodeToString s)"
  using assms b64_encode_chars [of std_alphabet True s] unfolding EncodeToString_def by auto

lemma EncodeToString_no_sep [simp]:
  "CHR '','' \<notin> set (EncodeToString s)" "CHR '']'' \<notin> set (EncodeToString s)"
  "CHR 0x0A \<notin> set (EncodeToString s)"
  by (rule EncodeToString_chars, simp add: std_alphabet_def)+

end
