(* ===== verification/Key_Sources.thy ===== *)
theory Key_Sources
  imports Master_Keys Base64
begin

text \<open>
  \<open>EncryptContext\<close> and \<open>DecryptContext\<close> of the master keys, up to the calls into cloud SDKs, GnuPG and
  age, which are the parameters of \<open>sdk\<close>; the identifiers and guards the packages check before such
  a call; and the local key service of \<open>src/keyservice/server.go\<close>. Everything outside the program
  is a world of type \<open>'w\<close> that the calls may read and change.
\<close>

section \<open>Errors and external services\<close>

datatype svc_error =
    NoValidARN string
  | NoValidResourceID string
  | SdkFailed string
  | Base64Failed
  | KeyError key_error
  | AllowlistDenies string
  | TransitBackendEmpty | NoEncryptedData | NoDecryptedData | SecretNotAString
  | HuaweiCancelled | MissingCiphertext | MissingPlaintext
  | ZeroBytesReturned
  | BothPGPFailed "svc_error list"
  | UnknownRecipientType string
  | NoKeyGiven
  | RejectedByUser
  | PromptInputFailed

datatype vault_secret = EmptySecret | SecretData "(string \<times> gval) list"

text \<open>
  The calls outside the program. An error of such a call is its message. The AWS client is given
  by region, role and profile. \<open>hc_done\<close> says whether the context ends before the Huawei SDK
  returns; \<open>scan_answers\<close> are the lines typed at a prompt.
\<close>

record 'w sdk =
  openpgp_encrypt :: "string \<Rightarrow> string \<Rightarrow> 'w \<Rightarrow> (string + string) \<times> 'w"
  openpgp_decrypt :: "string \<Rightarrow> 'w \<Rightarrow> (string + string) \<times> 'w"
  gpg_encrypt :: "string \<Rightarrow> string \<Rightarrow> string \<Rightarrow> 'w \<Rightarrow> (string + string) \<times> 'w"
  gpg_decrypt :: "string \<Rightarrow> 'w \<Rightarrow> (string + string) \<times> 'w"
  aws_encrypt :: "string \<times> string \<times> string \<Rightarrow> string \<Rightarrow> (string \<times> string) list \<Rightarrow> string \<Rightarrow> 'w \<Rightarrow> (string + string) \<times> 'w"
  aws_decrypt :: "string \<times> string \<times> string \<Rightarrow> string \<Rightarrow> (string \<times> string) list \<Rightarrow> string \<Rightarrow> 'w \<Rightarrow> (string + string) \<times> 'w"
  google_encrypt :: "string \<Rightarrow> string \<Rightarrow> 'w \<Rightarrow> (string + string) \<times> 'w"
  google_decrypt :: "string \<Rightarrow> string \<Rightarrow> 'w \<Rightarrow> (string + string) \<times> 'w"
  azure_encrypt :: "string \<Rightarrow> string \<Rightarrow> string \<Rightarrow> string \<Rightarrow> 'w \<Rightarrow> (string + string) \<times> 'w"
  azure_decrypt :: "string \<Rightarrow> string \<Rightarrow> string \<Rightarrow> string \<Rightarrow> 'w \<Rightarrow> (string + string) \<times> 'w"
  huawei_encrypt :: "string \<Rightarrow> string \<Rightarrow> string \<Rightarrow> 'w \<Rightarrow> (string + string option) \<times> 'w"
  huawei_decrypt :: "string \<Rightarrow> string \<Rightarrow> string \<Rightarrow> 'w \<Rightarrow> (string + string option) \<times> 'w"
  vault_allowlist :: "string option"
  vault_write :: "string \<Rightarrow> string \<Rightarrow> (string \<times> string) \<Rightarrow> 'w \<Rightarrow> (string + vault_secret) \<times> 'w"
  age_seal :: "string \<Rightarrow> string \<Rightarrow> 'w \<Rightarrow> (string + string) \<times> 'w"
  age_open :: "string \<Rightarrow> string \<Rightarrow> 'w \<Rightarrow> (string + string) \<times> 'w"
  hc_done :: "'w \<Rightarrow> bool \<times> 'w"
  scan_answers :: "'w \<Rightarrow> string option list \<times> 'w"

type_synonym 'w call = "'w \<Rightarrow> (svc_error + string) \<times> 'w"

definition sdk_result :: "(string + string) \<Rightarrow> svc_error + string" where
  "sdk_result r = (case r of Inl e \<Rightarrow> Inl (SdkFailed e) | Inr s \<Rightarrow> Inr s)"

definition of_option :: "'e \<Rightarrow> 'a option \<Rightarrow> 'e + 'a" where
  "of_option e x = (case x of None \<Rightarrow> Inl e | Some a \<Rightarrow> Inr a)"

section \<open>PGP\<close>

text \<open>OpenPGP first, then GnuPG, whose output is trimmed; both errors are kept.\<close>

definition pgp_Encrypt :: "'w sdk \<Rightarrow> string \<Rightarrow> string \<Rightarrow> 'w call" where
  "pgp_Encrypt S fingerprint dataKey w =
     (case openpgp_encrypt S fingerprint dataKey w of
        (Inr c, w1) \<Rightarrow> (Inr c, w1)
      | (Inl e1, w1) \<Rightarrow>
          (case gpg_encrypt S fingerprint (shortenFingerprint fingerprint) dataKey w1 of
             (Inr c, w2) \<Rightarrow> (Inr (trim_space c), w2)
           | (Inl e2, w2) \<Rightarrow> (Inl (BothPGPFailed [SdkFailed e1, SdkFailed (trim_space e2)]), w2)))"

definition pgp_Decrypt :: "'w sdk \<Rightarrow> string \<Rightarrow> 'w call" where
  "pgp_Decrypt S encryptedKey w =
     (case openpgp_decrypt S encryptedKey w of
        (Inr p, w1) \<Rightarrow> (Inr p, w1)
      | (Inl e1, w1) \<Rightarrow>
          (case gpg_decrypt S encryptedKey w1 of
             (Inr p, w2) \<Rightarrow>
               if p = '''' then (Inl (BothPGPFailed [SdkFailed e1, ZeroBytesReturned]), w2)
               else (Inr p, w2)
           | (Inl e2, w2) \<Rightarrow> (Inl (BothPGPFailed [SdkFailed e1, SdkFailed (trim_space e2)]), w2)))"

section \<open>AWS KMS\<close>

text \<open>
  The region in an ARN: \<open>^arn:aws[\w-]*:kms:(.+):[0-9]+:(key|alias)/.+$\<close>. The character class before
  \<open>:kms:\<close> has no colon, so it ends at the first one; the region is the longest piece that leaves a
  matching rest.
\<close>

definition is_digit :: "char \<Rightarrow> bool" where
  "is_digit c \<longleftrightarrow> char_digit c \<noteq> None"

definition is_alpha :: "char \<Rightarrow> bool" where
  "is_alpha c \<longleftrightarrow> (let n = of_char c :: nat in 65 \<le> n \<and> n \<le> 90 \<or> 97 \<le> n \<and> n \<le> 122)"

definition is_word :: "char \<Rightarrow> bool" where
  "is_word c \<longleftrightarrow> is_digit c \<or> is_alpha c \<or> c = CHR ''_''"

definition arn_tail :: "string \<Rightarrow> bool" where
  "arn_tail s \<longleftrightarrow> has_prefix s '':'' \<and>
     (let digits = takeWhile is_digit (tl s); rest = dropWhile is_digit (tl s)
      in digits \<noteq> '''' \<and>
        (has_prefix rest '':key/'' \<and> length rest > 5 \<or> has_prefix rest '':alias/'' \<and> length rest > 7))"

definition arn_region :: "string \<Rightarrow> string option" where
  "arn_region arn =
     (if \<not> has_prefix arn ''arn:aws'' then None
      else let rest = dropWhile (\<lambda>c. is_word c \<or> c = CHR ''-'') (drop 7 arn)
        in if \<not> has_prefix rest '':kms:'' then None
           else let s = drop 5 rest
             in if CHR 0x0A \<in> set s then None
                else map_option (\<lambda>n. take n s) (find (\<lambda>n. arn_tail (drop n s)) (rev [1..<length s])))"

definition kms_Encrypt :: "'w sdk \<Rightarrow> kms_key \<Rightarrow> string \<Rightarrow> 'w call" where
  "kms_Encrypt S key dataKey w =
     (case arn_region (Arn key) of
        None \<Rightarrow> (Inl (NoValidARN (Arn key)), w)
      | Some region \<Rightarrow>
          (case aws_encrypt S (region, Role key, AwsProfile key) (Arn key)
                 (case EncryptionContext key of None \<Rightarrow> [] | Some c \<Rightarrow> c) dataKey w of
             (Inl e, w1) \<Rightarrow> (Inl (SdkFailed e), w1)
           | (Inr blob, w1) \<Rightarrow> (Inr (EncodeToString blob), w1)))"

definition kms_Decrypt :: "'w sdk \<Rightarrow> kms_key \<Rightarrow> 'w call" where
  "kms_Decrypt S key w =
     (case DecodeString (kms_enc key) of
        None \<Rightarrow> (Inl Base64Failed, w)
      | Some k \<Rightarrow>
          (case arn_region (Arn key) of
             None \<Rightarrow> (Inl (NoValidARN (Arn key)), w)
           | Some region \<Rightarrow>
               (case aws_decrypt S (region, Role key, AwsProfile key) (Arn key)
                      (case EncryptionContext key of None \<Rightarrow> [] | Some c \<Rightarrow> c) k w of
                  (r, w1) \<Rightarrow> (sdk_result r, w1))))"

text \<open>\<open>stsSessionName\<close>: the class \<open>[^a-zA-Z0-9=,.@-_]\<close> contains the range from \<open>@\<close> to \<open>_\<close>.\<close>

definition sts_allowed :: "char \<Rightarrow> bool" where
  "sts_allowed c \<longleftrightarrow> is_alpha c \<or> is_digit c \<or> c \<in> set ''=,.''
     \<or> (let n = of_char c :: nat in 64 \<le> n \<and> n \<le> 95)"

definition stsSessionName :: "string \<Rightarrow> string" where
  "stsSessionName hostname =
     (let name = ''sops@'' @ filter sts_allowed hostname
      in if length name \<ge> 64 then take 64 name else name)"

section \<open>GCP KMS, Azure Key Vault, Huawei Cloud KMS\<close>

text \<open>\<open>^projects/[^/]+/locations/[^/]+/keyRings/[^/]+/cryptoKeys/[^/]+$\<close>, split at the slashes.\<close>

definition valid_resource_id :: "string \<Rightarrow> bool" where
  "valid_resource_id s \<longleftrightarrow>
     (case str_split CHR ''/'' s of
        [a, p, b, l, c, r, d, k] \<Rightarrow>
          a = ''projects'' \<and> p \<noteq> '''' \<and> b = ''locations'' \<and> l \<noteq> '''' \<and> c = ''keyRings'' \<and> r \<noteq> ''''
          \<and> d = ''cryptoKeys'' \<and> k \<noteq> ''''
      | _ \<Rightarrow> False)"

definition gcp_Encrypt :: "'w sdk \<Rightarrow> gcp_key \<Rightarrow> string \<Rightarrow> 'w call" where
  "gcp_Encrypt S key dataKey w =
     (if \<not> valid_resource_id (ResourceID key) then (Inl (NoValidResourceID (ResourceID key)), w)
      else case google_encrypt S (ResourceID key) dataKey w of
          (Inl e, w1) \<Rightarrow> (Inl (SdkFailed e), w1)
        | (Inr c, w1) \<Rightarrow> (Inr (EncodeToString c), w1))"

definition gcp_Decrypt :: "'w sdk \<Rightarrow> gcp_key \<Rightarrow> 'w call" where
  "gcp_Decrypt S key w =
     (if \<not> valid_resource_id (ResourceID key) then (Inl (NoValidResourceID (ResourceID key)), w)
      else case DecodeString (gcp_enc key) of
          None \<Rightarrow> (Inl Base64Failed, w)
        | Some c \<Rightarrow> (case google_decrypt S (ResourceID key) c w of (r, w1) \<Rightarrow> (sdk_result r, w1)))"

definition azkv_Encrypt :: "'w sdk \<Rightarrow> azkv_key \<Rightarrow> string \<Rightarrow> 'w call" where
  "azkv_Encrypt S key dataKey w =
     (case azure_encrypt S (VaultURL key) (Name key) (Version key) dataKey w of
        (Inl e, w1) \<Rightarrow> (Inl (SdkFailed e), w1)
      | (Inr c, w1) \<Rightarrow> (Inr (RawURLEncode c), w1))"

definition azkv_Decrypt :: "'w sdk \<Rightarrow> azkv_key \<Rightarrow> 'w call" where
  "azkv_Decrypt S key w =
     (case RawURLDecode (azkv_enc key) of
        None \<Rightarrow> (Inl Base64Failed, w)
      | Some c \<Rightarrow>
          (case azure_decrypt S (VaultURL key) (Name key) (Version key) c w of (r, w1) \<Rightarrow> (sdk_result r, w1)))"

text \<open>
  The Huawei SDK knows no context: the call runs in a goroutine, and \<open>select\<close> returns early when
  the context is done first.
\<close>

definition hckms_Encrypt :: "'w sdk \<Rightarrow> ('w \<Rightarrow> bool \<times> 'w) \<Rightarrow> hckms_key \<Rightarrow> string \<Rightarrow> 'w call" where
  "hckms_Encrypt S ctxErr key dataKey w =
     (case ctxErr w of (cancelled, w0) \<Rightarrow>
        if cancelled then (Inl HuaweiCancelled, w0)
        else case huawei_encrypt S (Region key) (KeyUUID key) (EncodeToString dataKey) w0 of (r, w1) \<Rightarrow>
          (case hc_done S w1 of (done, w2) \<Rightarrow>
             if done then (Inl HuaweiCancelled, w2)
             else (case r of
                 Inl e \<Rightarrow> Inl (SdkFailed e)
               | Inr None \<Rightarrow> Inl MissingCiphertext
               | Inr (Some c) \<Rightarrow> Inr c, w2)))"

definition hckms_Decrypt :: "'w sdk \<Rightarrow> ('w \<Rightarrow> bool \<times> 'w) \<Rightarrow> hckms_key \<Rightarrow> 'w call" where
  "hckms_Decrypt S ctxErr key w =
     (case ctxErr w of (cancelled, w0) \<Rightarrow>
        if cancelled then (Inl HuaweiCancelled, w0)
        else case huawei_decrypt S (Region key) (KeyUUID key) (hckms_enc key) w0 of (r, w1) \<Rightarrow>
          (case hc_done S w1 of (done, w2) \<Rightarrow>
             if done then (Inl HuaweiCancelled, w2)
             else (case r of
                 Inl e \<Rightarrow> Inl (SdkFailed e)
               | Inr None \<Rightarrow> Inl MissingPlaintext
               | Inr (Some p) \<Rightarrow> of_option Base64Failed (DecodeString p), w2)))"

section \<open>HashiCorp Vault\<close>

record allowList =
  allow_All :: bool
  allow_URIs :: "string list"

definition with_slash :: "string \<Rightarrow> string" where
  "with_slash s = (if has_suffix s ''/'' then s else s @ ''/'')"

definition Allows :: "allowList \<Rightarrow> string \<Rightarrow> bool" where
  "Allows al address = (allow_All al \<or> list_ex (\<lambda>uri. has_prefix (with_slash address) uri) (allow_URIs al))"

definition trim_spaces :: "string \<Rightarrow> string" where
  "trim_spaces s = rev (dropWhile (\<lambda>c. c = CHR '' '') (rev (dropWhile (\<lambda>c. c = CHR '' '') s)))"

fun allowlist_uris :: "nat \<Rightarrow> string list \<Rightarrow> key_error + string list" where
  "allowlist_uris idx [] = Inr []"
| "allowlist_uris idx (uri # uris) =
     (if trim_spaces uri = '''' then Inl (EmptyAllowlistEntry (idx + 1))
      else bindE (allowlist_uris (Suc idx) uris) (\<lambda>us. Inr (with_slash (trim_spaces uri) # us)))"

definition parseAllowlistString :: "string \<Rightarrow> key_error + allowList" where
  "parseAllowlistString s =
     (if s = ''all'' then Inr \<lparr>allow_All = True, allow_URIs = []\<rparr>
      else if s = ''none'' then Inr \<lparr>allow_All = False, allow_URIs = []\<rparr>
      else bindE (allowlist_uris 0 (str_split CHR '','' s)) (\<lambda>uris.
             Inr \<lparr>allow_All = False, allow_URIs = uris\<rparr>))"

definition getAllowlist :: "string option \<Rightarrow> key_error + allowList" where
  "getAllowlist env =
     parseAllowlistString (case env of Some s \<Rightarrow> if s \<noteq> '''' then s else ''all'' | None \<Rightarrow> ''all'')"

text \<open>\<open>path.Clean\<close> and \<open>path.Join\<close>, by components.\<close>

fun clean_parts :: "bool \<Rightarrow> string list \<Rightarrow> string list \<Rightarrow> string list" where
  "clean_parts rooted out [] = rev out"
| "clean_parts rooted out (p # ps) =
     (if p = '''' \<or> p = ''.'' then clean_parts rooted out ps
      else if p = ''..'' then
        (case out of
           q # out' \<Rightarrow> if q = ''..'' then clean_parts rooted (p # out) ps else clean_parts rooted out' ps
         | [] \<Rightarrow> if rooted then clean_parts rooted [] ps else clean_parts rooted [p] ps)
      else clean_parts rooted (p # out) ps)"

definition path_clean :: "string \<Rightarrow> string" where
  "path_clean s =
     (let rooted = has_prefix s ''/''; parts = clean_parts rooted [] (str_split CHR ''/'' s)
      in if rooted then ''/'' @ str_join ''/'' parts
         else if parts = [] then ''.'' else str_join ''/'' parts)"

definition path_join :: "string list \<Rightarrow> string" where
  "path_join elems =
     (case filter (\<lambda>e. e \<noteq> '''') elems of [] \<Rightarrow> '''' | es \<Rightarrow> path_clean (str_join ''/'' es))"

text \<open>
  \<open>engineAndKeyFromPath\<close>. Both regular expressions match whole pieces between slashes, but for the
  last piece, of which a non-empty beginning suffices.
\<close>

definition version_piece :: "string \<Rightarrow> bool" where
  "version_piece s \<longleftrightarrow> (case s of v # ds \<Rightarrow> v = CHR ''v'' \<and> ds \<noteq> '''' \<and> list_all is_digit ds | [] \<Rightarrow> False)"

fun vault_pieces :: "string list \<Rightarrow> bool" where
  "vault_pieces (v # a # b # c # rest) \<longleftrightarrow>
     version_piece v \<and> a \<noteq> '''' \<and> b \<noteq> '''' \<and> c \<noteq> '''' \<or> vault_pieces (a # b # c # rest)"
| "vault_pieces _ \<longleftrightarrow> False"

fun prefixed_vault_pieces :: "string list \<Rightarrow> bool" where
  "prefixed_vault_pieces (p # v # a # b # c # rest) \<longleftrightarrow>
     p \<noteq> '''' \<and> version_piece v \<and> a \<noteq> '''' \<and> b \<noteq> '''' \<and> c \<noteq> '''' \<or> prefixed_vault_pieces (v # a # b # c # rest)"
| "prefixed_vault_pieces _ \<longleftrightarrow> False"

definition trim_slashes :: "string \<Rightarrow> string" where
  "trim_slashes s = rev (dropWhile (\<lambda>c. c = CHR ''/'') (rev (dropWhile (\<lambda>c. c = CHR ''/'') s)))"

definition engineAndKeyFromPath :: "string \<Rightarrow> key_error + (string \<times> string)" where
  "engineAndKeyFromPath fullPath =
     (let pieces = tl (str_split CHR ''/'' fullPath)
      in if prefixed_vault_pieces pieces then Inl PrefixedVaultURL
         else if \<not> vault_pieces pieces then Inl BadVaultPath
         else
           let dirs = str_split CHR ''/'' (trim_slashes fullPath)
           in if length dirs < 3 then Inl PanicSliceBounds
              else Inr (path_join (take (length dirs - 3) (tl dirs)), last dirs))"

text \<open>\<open>NewMasterKeyFromURI\<close>: \<open>url\<close> is \<open>url.Parse\<close>, giving the scheme, the request URI and the URL
  printed without its path.\<close>

definition NewMasterKeyFromURI ::
    "(string \<Rightarrow> (string \<times> string \<times> string) option) \<Rightarrow> gotime \<Rightarrow> string \<Rightarrow> key_error + vault_key option" where
  "NewMasterKeyFromURI url now uri =
     (if uri = '''' then Inr None
      else case url uri of
          None \<Rightarrow> Inl (InvalidURL uri)
        | Some (scheme, requestURI, address) \<Rightarrow>
            if scheme = '''' then Inl (MissingScheme uri)
            else bindE (engineAndKeyFromPath requestURI) (\<lambda>(enginePath, keyName).
                   Inr (Some \<lparr>VaultAddress = address, EnginePath = enginePath, KeyName = keyName,
                              vault_enc = '''', vault_created = utc now\<rparr>)))"

definition NewMasterKeysFromURIs ::
    "(string \<Rightarrow> (string \<times> string \<times> string) option) \<Rightarrow> gotime \<Rightarrow> string \<Rightarrow> key_error + vault_key option list" where
  "NewMasterKeysFromURIs url now uris =
     (if uris = '''' then Inr []
      else mapE (NewMasterKeyFromURI url now) (filter (\<lambda>u. u \<noteq> '''') (str_split CHR '','' uris)))"

definition vaultClient :: "'w sdk \<Rightarrow> string \<Rightarrow> svc_error + unit" where
  "vaultClient S address =
     (case getAllowlist (vault_allowlist S) of
        Inl e \<Rightarrow> Inl (KeyError e)
      | Inr al \<Rightarrow> if Allows al address then Inr () else Inl (AllowlistDenies address))"

definition secret_string :: "string \<Rightarrow> svc_error \<Rightarrow> vault_secret \<Rightarrow> svc_error + string" where
  "secret_string field missing secret =
     (case secret of
        EmptySecret \<Rightarrow> Inl TransitBackendEmpty
      | SecretData d \<Rightarrow>
          (case map_of d field of
             None \<Rightarrow> Inl missing
           | Some (GStr s) \<Rightarrow> Inr s
           | Some _ \<Rightarrow> Inl SecretNotAString))"

definition encryptedKeyFromSecret :: "vault_secret \<Rightarrow> svc_error + string" where
  "encryptedKeyFromSecret = secret_string ''ciphertext'' NoEncryptedData"

definition dataKeyFromSecret :: "vault_secret \<Rightarrow> svc_error + string" where
  "dataKeyFromSecret secret =
     bindE (secret_string ''plaintext'' NoDecryptedData secret) (\<lambda>s. of_option Base64Failed (DecodeString s))"

definition vault_Encrypt :: "'w sdk \<Rightarrow> vault_key \<Rightarrow> string \<Rightarrow> 'w call" where
  "vault_Encrypt S key dataKey w =
     (case vaultClient S (VaultAddress key) of
        Inl e \<Rightarrow> (Inl e, w)
      | Inr _ \<Rightarrow>
          (case vault_write S (VaultAddress key) (path_join [EnginePath key, ''encrypt'', KeyName key])
                 (''plaintext'', EncodeToString dataKey) w of
             (Inl e, w1) \<Rightarrow> (Inl (SdkFailed e), w1)
           | (Inr secret, w1) \<Rightarrow> (encryptedKeyFromSecret secret, w1)))"

definition vault_Decrypt :: "'w sdk \<Rightarrow> vault_key \<Rightarrow> 'w call" where
  "vault_Decrypt S key w =
     (case vaultClient S (VaultAddress key) of
        Inl e \<Rightarrow> (Inl e, w)
      | Inr _ \<Rightarrow>
          (case vault_write S (VaultAddress key) (path_join [EnginePath key, ''decrypt'', KeyName key])
                 (''ciphertext'', vault_enc key) w of
             (Inl e, w1) \<Rightarrow> (Inl (SdkFailed e), w1)
           | (Inr secret, w1) \<Rightarrow> (dataKeyFromSecret secret, w1)))"

section \<open>age\<close>

datatype recipient_kind = HybridRecipient | PluginRecipient | X25519Recipient | SSHRecipient

definition recipient_kind :: "string \<Rightarrow> recipient_kind option" where
  "recipient_kind recipient =
     (if has_prefix recipient ''age1pq1'' then Some HybridRecipient
      else if has_prefix recipient ''age1'' \<and> count_list recipient CHR ''1'' > 1 then Some PluginRecipient
      else if has_prefix recipient ''age1'' then Some X25519Recipient
      else if has_prefix recipient ''ssh-'' then Some SSHRecipient
      else None)"

definition age_Encrypt :: "'w sdk \<Rightarrow> string \<Rightarrow> string \<Rightarrow> 'w call" where
  "age_Encrypt S recipient dataKey w =
     (case recipient_kind recipient of
        None \<Rightarrow> (Inl (UnknownRecipientType recipient), w)
      | Some _ \<Rightarrow> (case age_seal S recipient dataKey w of (r, w1) \<Rightarrow> (sdk_result r, w1)))"

definition age_Decrypt :: "'w sdk \<Rightarrow> string \<Rightarrow> string \<Rightarrow> 'w call" where
  "age_Decrypt S recipient encryptedKey w =
     (case age_open S recipient encryptedKey w of (r, w1) \<Rightarrow> (sdk_result r, w1))"

section \<open>The local key service\<close>

record server =
  Prompt :: bool

text \<open>The master key a request stands for; its creation time is never used.\<close>

definition zero_time :: gotime where
  "zero_time = \<lparr>seconds = 0, nanoseconds = 0, location = 0\<rparr>"

fun server_encrypt_with :: "'w sdk \<Rightarrow> ('w \<Rightarrow> bool \<times> 'w) \<Rightarrow> rpc_key \<Rightarrow> string \<Rightarrow> 'w call" where
  "server_encrypt_with S ctxErr (PgpKey fp) p w = pgp_Encrypt S (remove_spaces fp) p w"
| "server_encrypt_with S ctxErr (KmsKey arn role ctx profile) p w =
     kms_Encrypt S \<lparr>Arn = arn, Role = role, kms_enc = '''', kms_created = zero_time,
       EncryptionContext = Some ctx, AwsProfile = profile\<rparr> p w"
| "server_encrypt_with S ctxErr (GcpKmsKey rid) p w =
     gcp_Encrypt S \<lparr>ResourceID = rid, gcp_enc = '''', gcp_created = zero_time\<rparr> p w"
| "server_encrypt_with S ctxErr (AzureKeyvaultKey url name version) p w =
     azkv_Encrypt S \<lparr>VaultURL = url, Name = name, Version = version, azkv_enc = '''', azkv_created = zero_time\<rparr> p w"
| "server_encrypt_with S ctxErr (VaultKey address engine name) p w =
     vault_Encrypt S \<lparr>VaultAddress = address, EnginePath = engine, KeyName = name, vault_enc = '''', vault_created = zero_time\<rparr> p w"
| "server_encrypt_with S ctxErr (AgeKey recipient) p w = age_Encrypt S recipient p w"
| "server_encrypt_with S ctxErr (HckmsKey kid) p w =
     (case hckms_NewMasterKey zero_time kid of
        Inl e \<Rightarrow> (Inl (KeyError e), w) | Inr key \<Rightarrow> hckms_Encrypt S ctxErr key p w)"
| "server_encrypt_with S ctxErr NoKey p w = (Inl NoKeyGiven, w)"

fun server_decrypt_with :: "'w sdk \<Rightarrow> ('w \<Rightarrow> bool \<times> 'w) \<Rightarrow> rpc_key \<Rightarrow> string \<Rightarrow> 'w call" where
  "server_decrypt_with S ctxErr (PgpKey fp) c w = pgp_Decrypt S c w"
| "server_decrypt_with S ctxErr (KmsKey arn role ctx profile) c w =
     kms_Decrypt S \<lparr>Arn = arn, Role = role, kms_enc = c, kms_created = zero_time,
       EncryptionContext = Some ctx, AwsProfile = profile\<rparr> w"
| "server_decrypt_with S ctxErr (GcpKmsKey rid) c w =
     gcp_Decrypt S \<lparr>ResourceID = rid, gcp_enc = c, gcp_created = zero_time\<rparr> w"
| "server_decrypt_with S ctxErr (AzureKeyvaultKey url name version) c w =
     azkv_Decrypt S \<lparr>VaultURL = url, Name = name, Version = version, azkv_enc = c, azkv_created = zero_time\<rparr> w"
| "server_decrypt_with S ctxErr (VaultKey address engine name) c w =
     vault_Decrypt S \<lparr>VaultAddress = address, EnginePath = engine, KeyName = name, vault_enc = c, vault_created = zero_time\<rparr> w"
| "server_decrypt_with S ctxErr (AgeKey recipient) c w = age_Decrypt S recipient c w"
| "server_decrypt_with S ctxErr (HckmsKey kid) c w =
     (case hckms_NewMasterKey zero_time kid of
        Inl e \<Rightarrow> (Inl (KeyError e), w) | Inr key \<Rightarrow> hckms_Decrypt S ctxErr (key\<lparr>hckms_enc := c\<rparr>) w)"
| "server_decrypt_with S ctxErr NoKey c w = (Inl NoKeyGiven, w)"

fun keyToString :: "rpc_key \<Rightarrow> string" where
  "keyToString (PgpKey fp) = ''PGP key with fingerprint '' @ fp"
| "keyToString (KmsKey arn role ctx profile) = ''AWS KMS key with ARN '' @ arn"
| "keyToString (GcpKmsKey rid) = ''GCP KMS key with resource ID '' @ rid"
| "keyToString (AzureKeyvaultKey url name version) =
     ''Azure Key Vault key with URL '' @ url @ ''/keys/'' @ name @ ''/'' @ version"
| "keyToString (VaultKey address engine name) =
     ''Hashicorp Vault key with URI '' @ address @ ''/v1/'' @ engine @ ''/keys/'' @ name"
| "keyToString (HckmsKey kid) = ''HuaweiCloud KMS key with ID '' @ kid"
| "keyToString _ = ''Unknown key type''"

text \<open>The prompt asks until it reads \<open>y\<close> or \<open>n\<close>; a line that cannot be read, \<open>None\<close>, or the end of
  the input is an error.\<close>

fun prompt_loop :: "string option list \<Rightarrow> svc_error option" where
  "prompt_loop [] = Some PromptInputFailed"
| "prompt_loop (None # answers) = Some PromptInputFailed"
| "prompt_loop (Some a # answers) =
     (if a = ''y'' then None else if a = ''n'' then Some RejectedByUser else prompt_loop answers)"

definition after_prompt :: "'w sdk \<Rightarrow> server \<Rightarrow> (svc_error + string) \<times> 'w \<Rightarrow> (svc_error + string) \<times> 'w" where
  "after_prompt S ks r =
     (case r of
        (Inl e, w) \<Rightarrow> (Inl e, w)
      | (Inr text, w) \<Rightarrow>
          if \<not> Prompt ks then (Inr text, w)
          else case scan_answers S w of (answers, w1) \<Rightarrow>
            (case prompt_loop answers of None \<Rightarrow> (Inr text, w1) | Some e \<Rightarrow> (Inl e, w1)))"

definition Server_Encrypt :: "'w sdk \<Rightarrow> ('w \<Rightarrow> bool \<times> 'w) \<Rightarrow> server \<Rightarrow> rpc_key \<Rightarrow> string \<Rightarrow> 'w call" where
  "Server_Encrypt S ctxErr ks key plaintext w = after_prompt S ks (server_encrypt_with S ctxErr key plaintext w)"

definition Server_Decrypt :: "'w sdk \<Rightarrow> ('w \<Rightarrow> bool \<times> 'w) \<Rightarrow> server \<Rightarrow> rpc_key \<Rightarrow> string \<Rightarrow> 'w call" where
  "Server_Decrypt S ctxErr ks key ciphertext w = after_prompt S ks (server_decrypt_with S ctxErr key ciphertext w)"

section \<open>Decryption inverts encryption\<close>

text \<open>
  The documented behaviour of the services: what one of them encrypts, it decrypts to the same
  plaintext, if to anything. Some versions of GnuPG exit with success and no output instead.
\<close>

definition pgp_lawful :: "'w sdk \<Rightarrow> bool" where
  "pgp_lawful S \<longleftrightarrow>
     (\<forall>fp p w c w1. (openpgp_encrypt S fp p w = (Inr c, w1)
          \<or> (\<exists>short out. gpg_encrypt S fp short p w = (Inr out, w1) \<and> c = trim_space out)) \<longrightarrow>
        (\<forall>w2 q w3. (openpgp_decrypt S c w2 = (Inr q, w3) \<longrightarrow> q = p)
          \<and> (gpg_decrypt S c w2 = (Inr q, w3) \<longrightarrow> q = p \<or> q = '''')))"

definition aws_lawful :: "'w sdk \<Rightarrow> bool" where
  "aws_lawful S \<longleftrightarrow>
     (\<forall>client arn ctx p w c w1. aws_encrypt S client arn ctx p w = (Inr c, w1) \<longrightarrow>
        (\<forall>w2 q w3. aws_decrypt S client arn ctx c w2 = (Inr q, w3) \<longrightarrow> q = p))"

definition google_lawful :: "'w sdk \<Rightarrow> bool" where
  "google_lawful S \<longleftrightarrow>
     (\<forall>rid p w c w1. google_encrypt S rid p w = (Inr c, w1) \<longrightarrow>
        (\<forall>w2 q w3. google_decrypt S rid c w2 = (Inr q, w3) \<longrightarrow> q = p))"

definition azure_lawful :: "'w sdk \<Rightarrow> bool" where
  "azure_lawful S \<longleftrightarrow>
     (\<forall>url name version p w c w1. azure_encrypt S url name version p w = (Inr c, w1) \<longrightarrow>
        (\<forall>w2 q w3. azure_decrypt S url name version c w2 = (Inr q, w3) \<longrightarrow> q = p))"

definition huawei_lawful :: "'w sdk \<Rightarrow> bool" where
  "huawei_lawful S \<longleftrightarrow>
     (\<forall>region uuid p w c w1. huawei_encrypt S region uuid p w = (Inr (Some c), w1) \<longrightarrow>
        (\<forall>w2 q w3. huawei_decrypt S region uuid c w2 = (Inr (Some q), w3) \<longrightarrow> q = p))"

definition vault_lawful :: "'w sdk \<Rightarrow> bool" where
  "vault_lawful S \<longleftrightarrow>
     (\<forall>address engine name p w s w1 c.
        vault_write S address (path_join [engine, ''encrypt'', name]) (''plaintext'', p) w = (Inr s, w1)
          \<and> encryptedKeyFromSecret s = Inr c \<longrightarrow>
        (\<forall>w2 s' w3 q.
           vault_write S address (path_join [engine, ''decrypt'', name]) (''ciphertext'', c) w2 = (Inr s', w3)
             \<and> secret_string ''plaintext'' NoDecryptedData s' = Inr q \<longrightarrow> q = p))"

definition age_lawful :: "'w sdk \<Rightarrow> bool" where
  "age_lawful S \<longleftrightarrow>
     (\<forall>recipient p w c w1. age_seal S recipient p w = (Inr c, w1) \<longrightarrow>
        (\<forall>w2 q w3. age_open S recipient c w2 = (Inr q, w3) \<longrightarrow> q = p))"

definition sdk_lawful :: "'w sdk \<Rightarrow> bool" where
  "sdk_lawful S \<longleftrightarrow> pgp_lawful S \<and> aws_lawful S \<and> google_lawful S \<and> azure_lawful S
     \<and> huawei_lawful S \<and> vault_lawful S \<and> age_lawful S"

lemma sdk_result_Inr [simp]: "sdk_result r = Inr p \<longleftrightarrow> r = Inr p"
  by (simp add: sdk_result_def split: sum.split)

lemma of_option_Inr [simp]: "of_option e x = Inr a \<longleftrightarrow> x = Some a"
  by (simp add: of_option_def split: option.split)

lemma after_prompt_Inr: "after_prompt S ks (r, w) = (Inr a, w1) \<Longrightarrow> r = Inr a"
  by (auto simp: after_prompt_def split: sum.splits if_splits prod.splits option.splits)

lemma pgp_round_trip:
  assumes "pgp_lawful S" "pgp_Encrypt S fp p w = (Inr c, w1)" "pgp_Decrypt S c w2 = (Inr q, w3)"
  shows "q = p"
proof -
  from assms(2) obtain w' where "openpgp_encrypt S fp p w = (Inr c, w')
      \<or> (\<exists>short out w''. gpg_encrypt S fp short p w'' = (Inr out, w') \<and> c = trim_space out)"
    by (auto simp: pgp_Encrypt_def split: prod.splits sum.splits)
  then have *: "openpgp_decrypt S c u = (Inr r, u') \<Longrightarrow> r = p"
      "gpg_decrypt S c u = (Inr r, u') \<Longrightarrow> r = p \<or> r = ''''" for u r u'
    using assms(1) unfolding pgp_lawful_def by blast+
  from assms(3) show ?thesis
    by (auto simp: pgp_Decrypt_def split: prod.splits sum.splits if_splits dest: *)
qed

lemma kms_round_trip:
  assumes "aws_lawful S" "kms_Encrypt S key p w = (Inr c, w1)" "kms_Decrypt S (key\<lparr>kms_enc := c\<rparr>) w2 = (Inr q, w3)"
  shows "q = p"
  using assms unfolding aws_lawful_def
  by (fastforce simp: kms_Encrypt_def kms_Decrypt_def split: option.splits prod.splits sum.splits)

lemma gcp_round_trip:
  assumes "google_lawful S" "gcp_Encrypt S key p w = (Inr c, w1)" "gcp_Decrypt S (key\<lparr>gcp_enc := c\<rparr>) w2 = (Inr q, w3)"
  shows "q = p"
  using assms unfolding google_lawful_def
  by (fastforce simp: gcp_Encrypt_def gcp_Decrypt_def split: prod.splits sum.splits if_splits)

lemma azkv_round_trip:
  assumes "azure_lawful S" "azkv_Encrypt S key p w = (Inr c, w1)" "azkv_Decrypt S (key\<lparr>azkv_enc := c\<rparr>) w2 = (Inr q, w3)"
  shows "q = p"
  using assms unfolding azure_lawful_def
  by (fastforce simp: azkv_Encrypt_def azkv_Decrypt_def split: prod.splits sum.splits)

lemma hckms_round_trip:
  assumes "huawei_lawful S" "hckms_Encrypt S ctx key p w = (Inr c, w1)"
    and "hckms_Decrypt S ctx' (key\<lparr>hckms_enc := c\<rparr>) w2 = (Inr q, w3)"
  shows "q = p"
proof -
  from assms(2) obtain u u' where "huawei_encrypt S (Region key) (KeyUUID key) (EncodeToString p) u = (Inr (Some c), u')"
    by (auto simp: hckms_Encrypt_def split: prod.splits sum.splits if_splits option.splits)
  moreover from assms(3) obtain t v v' where
      "huawei_decrypt S (Region key) (KeyUUID key) c v = (Inr (Some t), v')" "DecodeString t = Some q"
    by (auto simp: hckms_Decrypt_def split: prod.splits sum.splits if_splits option.splits)
  ultimately show ?thesis
    using assms(1) unfolding huawei_lawful_def by (metis DecodeString_EncodeToString option.inject)
qed

lemma vault_round_trip:
  assumes "vault_lawful S" "vault_Encrypt S key p w = (Inr c, w1)"
    and "vault_Decrypt S (key\<lparr>vault_enc := c\<rparr>) w2 = (Inr q, w3)"
  shows "q = p"
proof -
  from assms(2) obtain s where
      "vault_write S (VaultAddress key) (path_join [EnginePath key, ''encrypt'', KeyName key]) (''plaintext'', EncodeToString p) w = (Inr s, w1)"
      "encryptedKeyFromSecret s = Inr c"
    by (auto simp: vault_Encrypt_def split: prod.splits sum.splits)
  moreover from assms(3) obtain s' t where
      "vault_write S (VaultAddress key) (path_join [EnginePath key, ''decrypt'', KeyName key]) (''ciphertext'', c) w2 = (Inr s', w3)"
      "secret_string ''plaintext'' NoDecryptedData s' = Inr t" "DecodeString t = Some q"
    by (auto simp: vault_Decrypt_def dataKeyFromSecret_def split: prod.splits sum.splits)
  ultimately show ?thesis
    using assms(1) unfolding vault_lawful_def by (metis DecodeString_EncodeToString option.inject)
qed

lemma age_round_trip:
  assumes "age_lawful S" "age_Encrypt S r p w = (Inr c, w1)" "age_Decrypt S r c w2 = (Inr q, w3)"
  shows "q = p"
  using assms unfolding age_lawful_def
  by (fastforce simp: age_Encrypt_def age_Decrypt_def split: option.splits prod.splits)

lemma server_with_round_trip:
  assumes "sdk_lawful S" "server_encrypt_with S ctx key p w = (Inr c, w1)"
    and "server_decrypt_with S ctx' key c w2 = (Inr q, w3)"
  shows "q = p"
proof (cases key)
  case (KmsKey arn role ctx profile)
  with assms kms_round_trip [of S "\<lparr>Arn = arn, Role = role, kms_enc = '''', kms_created = zero_time,
       EncryptionContext = Some ctx, AwsProfile = profile\<rparr>"]
  show ?thesis by (auto simp: sdk_lawful_def)
next
  case (GcpKmsKey rid)
  with assms gcp_round_trip [of S "\<lparr>ResourceID = rid, gcp_enc = '''', gcp_created = zero_time\<rparr>"]
  show ?thesis by (auto simp: sdk_lawful_def)
next
  case (AzureKeyvaultKey url name version)
  with assms azkv_round_trip [of S "\<lparr>VaultURL = url, Name = name, Version = version, azkv_enc = '''', azkv_created = zero_time\<rparr>"]
  show ?thesis by (auto simp: sdk_lawful_def)
next
  case (VaultKey address engine name)
  with assms vault_round_trip [of S "\<lparr>VaultAddress = address, EnginePath = engine, KeyName = name, vault_enc = '''', vault_created = zero_time\<rparr>"]
  show ?thesis by (auto simp: sdk_lawful_def)
next
  case (HckmsKey kid)
  with assms show ?thesis by (auto simp: sdk_lawful_def intro: hckms_round_trip split: sum.splits)
qed (use assms in \<open>auto simp: sdk_lawful_def intro: pgp_round_trip age_round_trip\<close>)

lemma server_sound:
  assumes "sdk_lawful S" "Server_Encrypt S ctx ks key p w = (Inr c, w1)"
    and "Server_Decrypt S ctx' ks' key c w2 = (Inr q, w3)"
  shows "q = p"
proof -
  from assms(2) obtain u where "server_encrypt_with S ctx key p w = (Inr c, u)"
    unfolding Server_Encrypt_def by (metis after_prompt_Inr surj_pair)
  moreover from assms(3) obtain u' where "server_decrypt_with S ctx' key c w2 = (Inr q, u')"
    unfolding Server_Decrypt_def by (metis after_prompt_Inr surj_pair)
  ultimately show ?thesis by (rule server_with_round_trip [OF assms(1)])
qed

section \<open>The allowlist\<close>

lemma allowlist_uris_eq:
  "\<forall>entry\<in>set uris. trim_spaces entry \<noteq> '''' \<Longrightarrow>
   allowlist_uris idx uris = Inr (map (\<lambda>entry. with_slash (trim_spaces entry)) uris)"
  by (induction idx uris rule: allowlist_uris.induct) auto

lemma allowlist_uris_blank:
  "\<not> (\<forall>entry\<in>set uris. trim_spaces entry \<noteq> '''') \<Longrightarrow>
   \<exists>k. allowlist_uris idx uris = Inl (EmptyAllowlistEntry k)"
proof (induction idx uris rule: allowlist_uris.induct)
  case (2 idx uri uris)
  then show ?case by (cases "trim_spaces uri = ''''") (auto simp: res_simps)
qed simp

section \<open>Properties\<close>

text \<open>A set of services that encrypts by reversing and remembers nothing, for the witnesses.\<close>

definition sample_sdk :: "unit sdk" where
  "sample_sdk = \<lparr>openpgp_encrypt = \<lambda>fp p w. (Inl ''no ring'', w), openpgp_decrypt = \<lambda>c w. (Inl ''no ring'', w),
     gpg_encrypt = \<lambda>fp short p w. (Inl ''no gpg'', w), gpg_decrypt = \<lambda>c w. (Inl ''no gpg'', w),
     aws_encrypt = \<lambda>client arn ctx p w. (Inr (rev p), w), aws_decrypt = \<lambda>client arn ctx c w. (Inr (rev c), w),
     google_encrypt = \<lambda>rid p w. (Inr (rev p), w), google_decrypt = \<lambda>rid c w. (Inr (rev c), w),
     azure_encrypt = \<lambda>url name version p w. (Inr (rev p), w), azure_decrypt = \<lambda>url name version c w. (Inr (rev c), w),
     huawei_encrypt = \<lambda>region uuid p w. (Inr (Some (rev p)), w),
     huawei_decrypt = \<lambda>region uuid c w. (Inr (Some (rev c)), w),
     vault_allowlist = Some ''https://vault.example.com'',
     vault_write = \<lambda>address path (field, v) w. (Inl ''sealed'', w),
     age_seal = \<lambda>recipient p w. (Inr (rev p), w), age_open = \<lambda>recipient c w. (Inr (rev c), w),
     hc_done = \<lambda>w. (False, w), scan_answers = \<lambda>w. ([], w)\<rparr>"

lemma sample_sdk_lawful: "sdk_lawful sample_sdk"
  by (simp add: sdk_lawful_def pgp_lawful_def aws_lawful_def google_lawful_def azure_lawful_def
      huawei_lawful_def vault_lawful_def age_lawful_def sample_sdk_def)

text \<open>C15. The key service: whatever \<open>Decrypt\<close> returns for a ciphertext that \<open>Encrypt\<close> made with
  the same key, in whatever state of the world, is the plaintext that was encrypted. This goes
  through every encoding the key sources put between the program and the services.\<close>

theorem key_service_sound:
  assumes "sdk_lawful S" "Server_Encrypt S ctx ks key plaintext w = (Inr ciphertext, w1)"
    and "Server_Decrypt S ctx' ks' key ciphertext w2 = (Inr result, w3)"
  shows "result = plaintext"
  using server_sound [OF assms] .

definition sample_kms_key :: rpc_key where
  "sample_kms_key = KmsKey ''arn:aws:kms:eu-west-1:123:key/ab'' '''' [] ''''"

lemma key_service_sound_witness:
  "\<exists>c. Server_Encrypt sample_sdk (\<lambda>w. (False, w)) \<lparr>Prompt = False\<rparr> sample_kms_key ''secret'' () = (Inr c, ())
    \<and> Server_Decrypt sample_sdk (\<lambda>w. (False, w)) \<lparr>Prompt = False\<rparr> sample_kms_key c () = (Inr ''secret'', ())"
proof -
  have c: "Server_Encrypt sample_sdk (\<lambda>w. (False, w)) \<lparr>Prompt = False\<rparr> sample_kms_key ''secret'' () = (Inr ''dGVyY2Vz'', ())"
    by code_simp
  moreover have d: "Server_Decrypt sample_sdk (\<lambda>w. (False, w)) \<lparr>Prompt = False\<rparr> sample_kms_key ''dGVyY2Vz'' () = (Inr ''secret'', ())"
    by code_simp
  moreover have "''secret'' = ''secret''" by (rule key_service_sound [OF sample_sdk_lawful c d])
  ultimately show ?thesis by blast
qed

text \<open>C22. With an allowlist other than \<open>all\<close> and \<open>none\<close>, a Vault address is admitted exactly when no
  entry is blank and some entry is, up to a closing slash on both sides, a prefix of the address. So
  \<open>https://vault.example.com\<close> does not admit \<open>https://vault.example.com.evil\<close>. The section of
  \<open>README.rst\<close> on \<open>SOPS_HC_VAULT_ALLOWLIST\<close> says otherwise: that every URL which starts with one of the
  strings is contacted, so also this one, and it does not say that a blank entry bars every URL.\<close>

theorem allowlist_boundary:
  assumes "vault_allowlist S = Some s" "s \<notin> {'''', ''all'', ''none''}"
  shows "vaultClient S address = Inr () \<longleftrightarrow>
    (\<forall>entry\<in>set (str_split CHR '','' s). trim_spaces entry \<noteq> '''')
    \<and> (\<exists>entry\<in>set (str_split CHR '','' s). has_prefix (with_slash address) (with_slash (trim_spaces entry)))"
proof (cases "\<forall>entry\<in>set (str_split CHR '','' s). trim_spaces entry \<noteq> ''''")
  case True
  with assms show ?thesis
    by (auto simp: vaultClient_def getAllowlist_def parseAllowlistString_def allowlist_uris_eq Allows_def list_ex_iff)
next
  case False
  then obtain k where "allowlist_uris 0 (str_split CHR '','' s) = Inl (EmptyAllowlistEntry k)"
    using allowlist_uris_blank by blast
  with assms False show ?thesis
    by (auto simp: vaultClient_def getAllowlist_def parseAllowlistString_def)
qed

lemma allowlist_boundary_witness:
  "vaultClient sample_sdk ''https://vault.example.com.evil'' \<noteq> Inr ()
    \<and> vaultClient sample_sdk ''https://vault.example.com/ns'' = Inr ()"
proof -
  have s: "vault_allowlist sample_sdk = Some ''https://vault.example.com''" by (simp add: sample_sdk_def)
  show ?thesis
    using allowlist_boundary [OF s, of "''https://vault.example.com.evil''"]
      allowlist_boundary [OF s, of "''https://vault.example.com/ns''"]
    by (simp add: with_slash_def trim_spaces_def suffix_def)
qed

text \<open>The name of an AWS session: at most 64 bytes, and only bytes of the class the pattern
  gives. The range \<open>@-_\<close> in that pattern admits a backslash and drops hyphens, which host names have
  and AWS allows.\<close>

lemma session_name:
  "length (stsSessionName hostname) \<le> 64 \<and> CHR ''-'' \<notin> set (stsSessionName hostname)
   \<and> (CHR 0x5C \<in> set (take 59 hostname) \<longrightarrow> CHR 0x5C \<in> set (stsSessionName (take 59 hostname)))"
proof (intro conjI impI)
  show "length (stsSessionName hostname) \<le> 64" by (simp add: stsSessionName_def Let_def)
  have "\<not> sts_allowed CHR ''-''" by code_simp
  then show "CHR ''-'' \<notin> set (stsSessionName hostname)"
    by (auto simp: stsSessionName_def Let_def dest: in_set_takeD)
  have "sts_allowed CHR 0x5C" by code_simp
  moreover have "length (filter sts_allowed (take 59 hostname)) \<le> 59"
    by (rule order_trans [OF length_filter_le]) simp
  moreover assume "CHR 0x5C \<in> set (take 59 hostname)"
  ultimately show "CHR 0x5C \<in> set (stsSessionName (take 59 hostname))"
    by (simp add: stsSessionName_def Let_def)
qed

lemma session_name_witness: "CHR 0x5C \<in> set (stsSessionName (take 59 [CHR 0x5C]))"
  using session_name [of "[CHR 0x5C]"] by simp

end
