(* ===== verification/Key_Groups.thy ===== *)
theory Key_Groups
  imports Tree_Crypt Shamir_Sharing Key_Sources
begin

text \<open>
  The key groups of \<open>src/sops.go\<close>: encrypting the data key with every master key of every group
  (\<open>UpdateMasterKeysCtxWithKeyServices\<close>), splitting it among the groups with the package
  \<open>shamir\<close>, and recovering it (\<open>GetDataKeyCtxWithKeyServices\<close>, \<open>decryptKeyGroupCtx\<close>,
  \<open>decryptKeyCtx\<close>, \<open>sortKeyGroupIndices\<close>), with the counts of \<open>src/usererrors.go\<close>.

  Key services and the context are functions of a world \<open>'w\<close>; \<open>ctxErr\<close> is \<open>ctx.Err() != nil\<close>. A
  plaintext that a service returns as a nil slice is \<^const>\<open>None\<close>.
\<close>

record 'w keyservice =
  svc_Encrypt :: "rpc_key \<Rightarrow> string \<Rightarrow> 'w \<Rightarrow> (svc_error + string) \<times> 'w"
  svc_Decrypt :: "rpc_key \<Rightarrow> string \<Rightarrow> 'w \<Rightarrow> (svc_error + string option) \<times> 'w"

text \<open>The local client around the server of \<open>src/keyservice\<close>.\<close>

definition LocalClient :: "'w sdk \<Rightarrow> ('w \<Rightarrow> bool \<times> 'w) \<Rightarrow> server \<Rightarrow> 'w keyservice" where
  "LocalClient S ctxErr ks =
     \<lparr>svc_Encrypt = Server_Encrypt S ctxErr ks,
      svc_Decrypt = (\<lambda>key c w. case Server_Decrypt S ctxErr ks key c w of (r, w1) \<Rightarrow> (map_sum id Some r, w1))\<rparr>"

definition string_bytes :: "string \<Rightarrow> byte list" where
  "string_bytes = map (\<lambda>c. word_of_nat (of_char c))"

definition bytes_string :: "byte list \<Rightarrow> string" where
  "bytes_string = map (\<lambda>b. char_of (unat b))"

lemma string_bytes_inverse [simp]: "bytes_string (string_bytes s) = s"
proof -
  have "char_of (unat (word_of_nat (of_char c) :: byte)) = c" for c
    using byte_bound [of c] by (simp add: unat_of_nat)
  then show ?thesis by (simp add: bytes_string_def string_bytes_def comp_def)
qed

lemma length_string_bytes [simp]: "length (string_bytes s) = length s"
  by (simp add: string_bytes_def)

lemma bytes_string_inverse [simp]: "string_bytes (bytes_string b) = b"
proof -
  have "(word_of_nat (of_char (char_of (unat b) :: char)) :: byte) = b" for b :: byte
    using unsigned_less [of b, where ?'a = nat] by (simp add: of_char_of)
  then show ?thesis by (simp add: bytes_string_def string_bytes_def comp_def)
qed

section \<open>Encrypting the data key\<close>

datatype update_error =
    ContextAlreadyCancelled
  | NoKeyServicesProvided
  | NoKeyGroupsProvided
  | CouldNotSplit shamir_error
  | NotEnoughParts nat nat
  | EmptyKeyGroupProvided
  | ContextCancelledMidway
  | FailedToEncrypt string svc_error

text \<open>The services are tried in order until one succeeds.\<close>

fun encrypt_with_services ::
    "'w keyservice list \<Rightarrow> master_key \<Rightarrow> string \<Rightarrow> 'w \<Rightarrow> (update_error list + string) \<times> 'w" where
  "encrypt_with_services [] key part w = (Inl [], w)"
| "encrypt_with_services (svc # svcs) key part w =
     (case svc_Encrypt svc (KeyFromMasterKey key) part w of
        (Inr c, w1) \<Rightarrow> (Inr c, w1)
      | (Inl e, w1) \<Rightarrow>
          (case encrypt_with_services svcs key part w1 of
             (Inr c, w2) \<Rightarrow> (Inr c, w2)
           | (Inl es, w2) \<Rightarrow> (Inl (FailedToEncrypt (ToString key) e # es), w2)))"

text \<open>The loop over the keys of a group. The flag tells that the context ended it.\<close>

fun update_keys ::
    "('w \<Rightarrow> bool \<times> 'w) \<Rightarrow> 'w keyservice list \<Rightarrow> string \<Rightarrow> master_key list \<Rightarrow> update_error list \<Rightarrow> 'w
      \<Rightarrow> master_key list \<times> update_error list \<times> bool \<times> 'w" where
  "update_keys ctxErr svcs part [] errs w = ([], errs, False, w)"
| "update_keys ctxErr svcs part (key # ks) errs w =
     (case ctxErr w of (cancelled, w0) \<Rightarrow>
        if cancelled then (key # ks, errs @ [ContextCancelledMidway], True, w0)
        else case encrypt_with_services svcs key part w0 of
            (Inr c, w1) \<Rightarrow>
              (case update_keys ctxErr svcs part ks errs w1 of (ks', errs', stop, w2) \<Rightarrow>
                 (SetEncryptedDataKey c key # ks', errs', stop, w2))
          | (Inl es, w1) \<Rightarrow>
              (case update_keys ctxErr svcs part ks (errs @ es) w1 of (ks', errs', stop, w2) \<Rightarrow>
                 (key # ks', errs', stop, w2)))"

fun update_groups ::
    "('w \<Rightarrow> bool \<times> 'w) \<Rightarrow> 'w keyservice list \<Rightarrow> (master_key list \<times> string) list \<Rightarrow> update_error list \<Rightarrow> 'w
      \<Rightarrow> master_key list list \<times> update_error list \<times> bool \<times> 'w" where
  "update_groups ctxErr svcs [] errs w = ([], errs, False, w)"
| "update_groups ctxErr svcs ((grp, part) # gs) errs w =
     (if grp = [] then (grp # map fst gs, [EmptyKeyGroupProvided], True, w)
      else case update_keys ctxErr svcs part grp errs w of (grp', errs', stop, w1) \<Rightarrow>
        if stop then (grp' # map fst gs, errs', True, w1)
        else case update_groups ctxErr svcs gs errs' w1 of (groups', errs'', stop', w2) \<Rightarrow>
          (grp' # groups', errs'', stop', w2))"

definition default_threshold :: "Metadata \<Rightarrow> Metadata" where
  "default_threshold m =
     (if length (KeyGroups m) \<noteq> 1 \<and> ShamirThreshold m = 0
      then m\<lparr>ShamirThreshold := int (length (KeyGroups m))\<rparr> else m)"

definition split_data_key :: "Metadata \<Rightarrow> string \<Rightarrow> byte list \<Rightarrow> update_error + (string list \<times> byte list)" where
  "split_data_key m dataKey rnd =
     (if length (KeyGroups m) = 1 then Inr ([dataKey], rnd)
      else case Split (string_bytes dataKey) (int (length (KeyGroups m))) (ShamirThreshold m) rnd of
          Inl e \<Rightarrow> Inl (CouldNotSplit e)
        | Inr (parts, rnd') \<Rightarrow>
            if length parts \<noteq> length (KeyGroups m)
            then Inl (NotEnoughParts (length (KeyGroups m)) (length parts))
            else Inr (map bytes_string parts, rnd'))"

definition UpdateMasterKeys ::
    "('w \<Rightarrow> bool \<times> 'w) \<Rightarrow> 'w keyservice list \<Rightarrow> string \<Rightarrow> Metadata \<Rightarrow> byte list \<Rightarrow> 'w
      \<Rightarrow> update_error list \<times> Metadata \<times> byte list \<times> 'w" where
  "UpdateMasterKeys ctxErr svcs dataKey m rnd w =
     (case ctxErr w of (cancelled, w0) \<Rightarrow>
        if cancelled then ([ContextAlreadyCancelled], m, rnd, w0)
        else if svcs = [] then ([NoKeyServicesProvided], m, rnd, w0)
        else if KeyGroups m = [] then ([NoKeyGroupsProvided], m, rnd, w0)
        else let m1 = default_threshold m
          in case split_data_key m1 dataKey rnd of
              Inl e \<Rightarrow> ([e], m1, rnd, w0)
            | Inr (parts, rnd') \<Rightarrow>
                (case update_groups ctxErr svcs (zip (KeyGroups m1) parts) [] w0 of
                   (groups', errs, stop, w1) \<Rightarrow>
                     (errs,
                      if stop then m1\<lparr>KeyGroups := groups'\<rparr>
                      else m1\<lparr>KeyGroups := groups', DataKey := Some dataKey\<rparr>,
                      rnd', w1)))"

text \<open>\<open>GenerateDataKeyCtxWithKeyServices\<close>: 32 random bytes, then the update.\<close>

definition GenerateDataKey ::
    "('w \<Rightarrow> bool \<times> 'w) \<Rightarrow> 'w keyservice list \<Rightarrow> Tree \<Rightarrow> byte list \<Rightarrow> 'w
      \<Rightarrow> (string \<times> update_error list \<times> Tree \<times> byte list \<times> 'w) option" where
  "GenerateDataKey ctxErr svcs tree rnd w =
     (if length rnd < 32 then None
      else let newKey = bytes_string (take 32 rnd)
        in case UpdateMasterKeys ctxErr svcs newKey (TreeMetadata tree) (drop 32 rnd) w of
            (errs, m', rnd', w') \<Rightarrow> Some (newKey, errs, tree\<lparr>TreeMetadata := m'\<rparr>, rnd', w'))"

section \<open>Recovering the data key\<close>

text \<open>The errors of the services for one key, nil entries included.\<close>

datatype key_failure = KeyFailure string "svc_error option list"
datatype group_failure = GroupCancelled | GroupFailed "key_failure list"

datatype get_error =
    GetAlreadyCancelled
  | GetCancelledMidway
  | GetDataKeyError int "group_failure option list"
  | CouldNotCombine shamir_error

fun decrypt_with_services ::
    "'w keyservice list \<Rightarrow> master_key \<Rightarrow> string option \<Rightarrow> 'w \<Rightarrow> string option \<times> svc_error option list \<times> 'w" where
  "decrypt_with_services [] key part w = (part, [], w)"
| "decrypt_with_services (svc # svcs) key part w =
     (case part of
        Some p \<Rightarrow>
          (case decrypt_with_services svcs key part w of (part', errs, w') \<Rightarrow> (part', None # errs, w'))
      | None \<Rightarrow>
          (case svc_Decrypt svc (KeyFromMasterKey key) (EncryptedDataKey key) w of (r, w1) \<Rightarrow>
             (case decrypt_with_services svcs key (case r of Inr p \<Rightarrow> p | Inl _ \<Rightarrow> None) w1 of
                (part', errs, w') \<Rightarrow> (part', (case r of Inl e \<Rightarrow> Some e | Inr _ \<Rightarrow> None) # errs, w'))))"

definition decryptKey :: "'w keyservice list \<Rightarrow> master_key \<Rightarrow> 'w \<Rightarrow> (key_failure + string) \<times> 'w" where
  "decryptKey svcs key w =
     (case decrypt_with_services svcs key None w of
        (Some part, errs, w') \<Rightarrow> (Inr part, w')
      | (None, errs, w') \<Rightarrow> (Inl (KeyFailure (ToString key) errs), w'))"

text \<open>\<open>sortKeyGroupIndices\<close>: a type named twice in the order has the later priority.\<close>

definition key_priority :: "string list \<Rightarrow> master_key \<Rightarrow> nat" where
  "key_priority decryptionOrder key =
     (case map_of (rev (zip decryptionOrder [0..<length decryptionOrder])) (TypeToIdentifier key) of
        Some i \<Rightarrow> i | None \<Rightarrow> length decryptionOrder)"

text \<open>\<open>sort.SliceStable\<close> as a sort by insertion: an element moves behind those that are less than it.\<close>

fun insert_stable :: "('a \<Rightarrow> 'a \<Rightarrow> bool) \<Rightarrow> 'a \<Rightarrow> 'a list \<Rightarrow> 'a list" where
  "insert_stable lt x [] = [x]"
| "insert_stable lt x (y # ys) = (if lt y x then y # insert_stable lt x ys else x # y # ys)"

definition SliceStable :: "('a \<Rightarrow> 'a \<Rightarrow> bool) \<Rightarrow> 'a list \<Rightarrow> 'a list" where
  "SliceStable lt xs = foldr (insert_stable lt) xs []"

definition sortKeyGroupIndices :: "master_key list \<Rightarrow> string list \<Rightarrow> nat list" where
  "sortKeyGroupIndices grp decryptionOrder =
     SliceStable (\<lambda>i j. key_priority decryptionOrder (grp ! i) < key_priority decryptionOrder (grp ! j)) [0..<length grp]"

fun decrypt_in_order ::
    "('w \<Rightarrow> bool \<times> 'w) \<Rightarrow> 'w keyservice list \<Rightarrow> master_key list \<Rightarrow> key_failure list \<Rightarrow> 'w
      \<Rightarrow> (group_failure + string) \<times> 'w" where
  "decrypt_in_order ctxErr svcs [] keyErrs w = (Inl (GroupFailed keyErrs), w)"
| "decrypt_in_order ctxErr svcs (key # ks) keyErrs w =
     (case ctxErr w of (cancelled, w0) \<Rightarrow>
        if cancelled then (Inl GroupCancelled, w0)
        else case decryptKey svcs key w0 of
            (Inr part, w1) \<Rightarrow> (Inr part, w1)
          | (Inl e, w1) \<Rightarrow> decrypt_in_order ctxErr svcs ks (keyErrs @ [e]) w1)"

definition decryptKeyGroup ::
    "('w \<Rightarrow> bool \<times> 'w) \<Rightarrow> 'w keyservice list \<Rightarrow> string list \<Rightarrow> master_key list \<Rightarrow> 'w
      \<Rightarrow> (group_failure + string) \<times> 'w" where
  "decryptKeyGroup ctxErr svcs decryptionOrder grp w =
     decrypt_in_order ctxErr svcs (map ((!) grp) (sortKeyGroupIndices grp decryptionOrder)) [] w"

text \<open>The loop over the groups gives the result of each; \<^const>\<open>None\<close> when the context ends it.\<close>

fun decrypt_groups ::
    "('w \<Rightarrow> bool \<times> 'w) \<Rightarrow> 'w keyservice list \<Rightarrow> string list \<Rightarrow> master_key list list \<Rightarrow> 'w
      \<Rightarrow> (group_failure + string) list option \<times> 'w" where
  "decrypt_groups ctxErr svcs decryptionOrder [] w = (Some [], w)"
| "decrypt_groups ctxErr svcs decryptionOrder (grp # groups) w =
     (case ctxErr w of (cancelled, w0) \<Rightarrow>
        if cancelled then (None, w0)
        else case decryptKeyGroup ctxErr svcs decryptionOrder grp w0 of (r, w1) \<Rightarrow>
          (case decrypt_groups ctxErr svcs decryptionOrder groups w1 of
             (rs, w2) \<Rightarrow> (map_option ((#) r) rs, w2)))"

fun parts_of :: "('e + 'a) list \<Rightarrow> 'a list" where
  "parts_of [] = []"
| "parts_of (Inr p # rs) = p # parts_of rs"
| "parts_of (Inl e # rs) = parts_of rs"

fun group_result :: "(group_failure + string) \<Rightarrow> group_failure option" where
  "group_result (Inl e) = Some e"
| "group_result (Inr p) = None"

definition combine_parts :: "Metadata \<Rightarrow> (group_failure + string) list \<Rightarrow> get_error + string" where
  "combine_parts m results =
     (let failure = GetDataKeyError (ShamirThreshold m) (map group_result results); parts = parts_of results
      in if length (KeyGroups m) > 1
         then if int (length parts) < ShamirThreshold m then Inl failure
              else case Combine (map string_bytes parts) of
                  Inl e \<Rightarrow> Inl (CouldNotCombine e)
                | Inr key \<Rightarrow> Inr (bytes_string key)
         else case parts of [key] \<Rightarrow> Inr key | _ \<Rightarrow> Inl failure)"

definition GetDataKey ::
    "('w \<Rightarrow> bool \<times> 'w) \<Rightarrow> 'w keyservice list \<Rightarrow> string list \<Rightarrow> Metadata \<Rightarrow> 'w
      \<Rightarrow> (get_error + string) \<times> Metadata \<times> 'w" where
  "GetDataKey ctxErr svcs decryptionOrder m w =
     (case ctxErr w of (cancelled, w0) \<Rightarrow>
        if cancelled then (Inl GetAlreadyCancelled, m, w0)
        else case DataKey m of
            Some key \<Rightarrow> (Inr key, m, w0)
          | None \<Rightarrow>
              (case decrypt_groups ctxErr svcs decryptionOrder (KeyGroups m) w0 of
                 (None, w1) \<Rightarrow> (Inl GetCancelledMidway, m, w1)
               | (Some results, w1) \<Rightarrow>
                   (case combine_parts m results of
                      Inl e \<Rightarrow> (Inl e, m, w1)
                    | Inr key \<Rightarrow> (Inr key, m\<lparr>DataKey := Some key\<rparr>, w1))))"

text \<open>The counts of \<open>src/usererrors.go\<close>.\<close>

definition successfulKeyGroups :: "group_failure option list \<Rightarrow> nat" where
  "successfulKeyGroups GroupResults = length (filter (\<lambda>r. r = None) GroupResults)"

definition isSuccessful :: "svc_error option list \<Rightarrow> bool" where
  "isSuccessful errs = list_ex (\<lambda>e. e = None) errs"

definition MasterKeyCount :: "Metadata \<Rightarrow> nat" where
  "MasterKeyCount m = foldl (\<lambda>count grp. count + length grp) 0 (KeyGroups m)"

end
