(* ===== verification/Metadata_Store.thy ===== *)
theory Metadata_Store
  imports Tree_Crypt Flatten
begin

text \<open>
  The stored form of the metadata, \<open>src/stores/stores.go\<close> and \<open>src/stores/metadata.go\<close>: the struct
  \<open>metadata\<close> with its key structs, the conversions between it and \<open>sops.Metadata\<close>, and the two
  operations every store goes through, \<open>ExtractMetadata\<close> and \<open>SerializeMetadata\<close>.

  The package \<open>mapstructure\<close> turns the struct into a Go map and back; it is third-party code, so
  its two conversions are the parameter \<open>mapstructure\<close>.
\<close>

section \<open>The stored structs\<close>

record pgpkey =
  pgpkey_CreatedAt :: string
  pgpkey_enc :: string
  pgpkey_Fingerprint :: string

record kmskey =
  kmskey_Arn :: string
  kmskey_Role :: string
  kmskey_Context :: kms_context
  kmskey_CreatedAt :: string
  kmskey_enc :: string
  kmskey_AwsProfile :: string

record gcpkmskey =
  gcpkmskey_ResourceID :: string
  gcpkmskey_CreatedAt :: string
  gcpkmskey_enc :: string

record vaultkey =
  vaultkey_VaultAddress :: string
  vaultkey_EnginePath :: string
  vaultkey_KeyName :: string
  vaultkey_CreatedAt :: string
  vaultkey_enc :: string

record azkvkey =
  azkvkey_VaultURL :: string
  azkvkey_Name :: string
  azkvkey_Version :: string
  azkvkey_CreatedAt :: string
  azkvkey_enc :: string

record agekey =
  agekey_Recipient :: string
  agekey_enc :: string

record hckmskey =
  hckmskey_KeyID :: string
  hckmskey_CreatedAt :: string
  hckmskey_enc :: string

record keygroup =
  PGPKeys :: "pgpkey list"
  KMSKeys :: "kmskey list"
  GCPKMSKeys :: "gcpkmskey list"
  HCKmsKeys :: "hckmskey list"
  AzureKeyVaultKeys :: "azkvkey list"
  VaultKeys :: "vaultkey list"
  AgeKeys :: "agekey list"

text \<open>The struct \<open>metadata\<close>; the key lists at its top level are those of one group, \<open>TopKeys\<close>.\<close>

record stored_metadata =
  stored_ShamirThreshold :: int
  stored_KeyGroups :: "keygroup list"
  TopKeys :: keygroup
  stored_LastModified :: string
  stored_MessageAuthenticationCode :: string
  stored_UnencryptedSuffix :: string
  stored_EncryptedSuffix :: string
  stored_UnencryptedRegex :: string
  stored_EncryptedRegex :: string
  stored_UnencryptedCommentRegex :: string
  stored_EncryptedCommentRegex :: string
  stored_MACOnlyEncrypted :: bool
  stored_Version :: string

datatype store_error =
    ParsingTimestamp string
  | BadKey key_error
  | NoKeysFound
  | TooManyCryptRules
  | UnexpectedKeyType gkey
  | MapstructureError string
  | DuplicateSopsEntry
  | SopsEntryNotAMapping
  | MetadataNotFound
  | Unflattening flat_error
  | SerializingMetadata
  | FlatteningMetadata flat_error
  | ReservedPrefix string
  | ReservedKey string

section \<open>From \<open>sops.Metadata\<close>\<close>

fun stored_pgp :: "golib \<Rightarrow> master_key \<Rightarrow> pgpkey option" where
  "stored_pgp L (PGP k) =
     Some \<lparr>pgpkey_CreatedAt = FormatRFC3339 L (pgp_created k), pgpkey_enc = pgp_enc k,
           pgpkey_Fingerprint = Fingerprint k\<rparr>"
| "stored_pgp L _ = None"

definition pgpKeysFromGroup :: "golib \<Rightarrow> master_key list \<Rightarrow> pgpkey list" where
  "pgpKeysFromGroup L grp = List.map_filter (stored_pgp L) grp"

fun stored_kms :: "golib \<Rightarrow> master_key \<Rightarrow> kmskey option" where
  "stored_kms L (KMS k) =
     Some \<lparr>kmskey_Arn = Arn k, kmskey_Role = Role k, kmskey_Context = EncryptionContext k,
           kmskey_CreatedAt = FormatRFC3339 L (kms_created k), kmskey_enc = kms_enc k,
           kmskey_AwsProfile = AwsProfile k\<rparr>"
| "stored_kms L _ = None"

definition kmsKeysFromGroup :: "golib \<Rightarrow> master_key list \<Rightarrow> kmskey list" where
  "kmsKeysFromGroup L grp = List.map_filter (stored_kms L) grp"

fun stored_gcp :: "golib \<Rightarrow> master_key \<Rightarrow> gcpkmskey option" where
  "stored_gcp L (GCPKMS k) =
     Some \<lparr>gcpkmskey_ResourceID = ResourceID k, gcpkmskey_CreatedAt = FormatRFC3339 L (gcp_created k),
           gcpkmskey_enc = gcp_enc k\<rparr>"
| "stored_gcp L _ = None"

definition gcpkmsKeysFromGroup :: "golib \<Rightarrow> master_key list \<Rightarrow> gcpkmskey list" where
  "gcpkmsKeysFromGroup L grp = List.map_filter (stored_gcp L) grp"

fun stored_vault :: "golib \<Rightarrow> master_key \<Rightarrow> vaultkey option" where
  "stored_vault L (HCVAULT k) =
     Some \<lparr>vaultkey_VaultAddress = VaultAddress k, vaultkey_EnginePath = EnginePath k,
           vaultkey_KeyName = KeyName k, vaultkey_CreatedAt = FormatRFC3339 L (vault_created k),
           vaultkey_enc = vault_enc k\<rparr>"
| "stored_vault L _ = None"

definition vaultKeysFromGroup :: "golib \<Rightarrow> master_key list \<Rightarrow> vaultkey list" where
  "vaultKeysFromGroup L grp = List.map_filter (stored_vault L) grp"

fun stored_azkv :: "golib \<Rightarrow> master_key \<Rightarrow> azkvkey option" where
  "stored_azkv L (AZKV k) =
     Some \<lparr>azkvkey_VaultURL = VaultURL k, azkvkey_Name = Name k, azkvkey_Version = Version k,
           azkvkey_CreatedAt = FormatRFC3339 L (azkv_created k), azkvkey_enc = azkv_enc k\<rparr>"
| "stored_azkv L _ = None"

definition azkvKeysFromGroup :: "golib \<Rightarrow> master_key list \<Rightarrow> azkvkey list" where
  "azkvKeysFromGroup L grp = List.map_filter (stored_azkv L) grp"

fun stored_age :: "master_key \<Rightarrow> agekey option" where
  "stored_age (AGE k) = Some \<lparr>agekey_Recipient = Recipient k, agekey_enc = age_enc k\<rparr>"
| "stored_age _ = None"

definition ageKeysFromGroup :: "master_key list \<Rightarrow> agekey list" where
  "ageKeysFromGroup grp = List.map_filter stored_age grp"

fun stored_hckms :: "golib \<Rightarrow> master_key \<Rightarrow> hckmskey option" where
  "stored_hckms L (HCKMS k) =
     Some \<lparr>hckmskey_KeyID = KeyID k, hckmskey_CreatedAt = FormatRFC3339 L (hckms_created k),
           hckmskey_enc = hckms_enc k\<rparr>"
| "stored_hckms L _ = None"

definition hckmsKeysFromGroup :: "golib \<Rightarrow> master_key list \<Rightarrow> hckmskey list" where
  "hckmsKeysFromGroup L grp = List.map_filter (stored_hckms L) grp"

definition no_keys :: keygroup where
  "no_keys = \<lparr>PGPKeys = [], KMSKeys = [], GCPKMSKeys = [], HCKmsKeys = [], AzureKeyVaultKeys = [],
     VaultKeys = [], AgeKeys = []\<rparr>"

definition keygroup_from :: "golib \<Rightarrow> master_key list \<Rightarrow> keygroup" where
  "keygroup_from L grp =
     \<lparr>PGPKeys = pgpKeysFromGroup L grp, KMSKeys = kmsKeysFromGroup L grp,
      GCPKMSKeys = gcpkmsKeysFromGroup L grp, HCKmsKeys = hckmsKeysFromGroup L grp,
      AzureKeyVaultKeys = azkvKeysFromGroup L grp, VaultKeys = vaultKeysFromGroup L grp,
      AgeKeys = ageKeysFromGroup grp\<rparr>"

definition metadataFromInternal :: "golib \<Rightarrow> Metadata \<Rightarrow> stored_metadata" where
  "metadataFromInternal L m =
     (let one = (length (KeyGroups m) = 1)
      in \<lparr>stored_ShamirThreshold = ShamirThreshold m,
          stored_KeyGroups = (if one then [] else map (keygroup_from L) (KeyGroups m)),
          TopKeys = (if one then keygroup_from L (KeyGroups m ! 0) else no_keys),
          stored_LastModified = FormatRFC3339 L (LastModified m),
          stored_MessageAuthenticationCode = MessageAuthenticationCode m,
          stored_UnencryptedSuffix = UnencryptedSuffix m,
          stored_EncryptedSuffix = EncryptedSuffix m,
          stored_UnencryptedRegex = UnencryptedRegex m,
          stored_EncryptedRegex = EncryptedRegex m,
          stored_UnencryptedCommentRegex = UnencryptedCommentRegex m,
          stored_EncryptedCommentRegex = EncryptedCommentRegex m,
          stored_MACOnlyEncrypted = MACOnlyEncrypted m,
          stored_Version = SopsVersion m\<rparr>)"

section \<open>To \<open>sops.Metadata\<close>\<close>

definition parseTimestamp :: "golib \<Rightarrow> string \<Rightarrow> string \<Rightarrow> store_error + gotime" where
  "parseTimestamp L field raw =
     (case ParseRFC3339 L raw of None \<Rightarrow> Inl (ParsingTimestamp field) | Some t \<Rightarrow> Inr t)"

definition kmskey_toInternal :: "golib \<Rightarrow> kmskey \<Rightarrow> store_error + master_key" where
  "kmskey_toInternal L k =
     bindE (parseTimestamp L ''kms.created_at'' (kmskey_CreatedAt k)) (\<lambda>creationDate.
       Inr (KMS \<lparr>Arn = kmskey_Arn k, Role = kmskey_Role k, kms_enc = kmskey_enc k, kms_created = creationDate,
                 EncryptionContext = kmskey_Context k, AwsProfile = kmskey_AwsProfile k\<rparr>))"

definition gcpkmskey_toInternal :: "golib \<Rightarrow> gcpkmskey \<Rightarrow> store_error + master_key" where
  "gcpkmskey_toInternal L k =
     bindE (parseTimestamp L ''gcp_kms.created_at'' (gcpkmskey_CreatedAt k)) (\<lambda>creationDate.
       Inr (GCPKMS \<lparr>ResourceID = gcpkmskey_ResourceID k, gcp_enc = gcpkmskey_enc k, gcp_created = creationDate\<rparr>))"

definition azkvkey_toInternal :: "golib \<Rightarrow> azkvkey \<Rightarrow> store_error + master_key" where
  "azkvkey_toInternal L k =
     bindE (parseTimestamp L ''azure_kv.created_at'' (azkvkey_CreatedAt k)) (\<lambda>creationDate.
       Inr (AZKV \<lparr>VaultURL = azkvkey_VaultURL k, Name = azkvkey_Name k, Version = azkvkey_Version k,
                  azkv_enc = azkvkey_enc k, azkv_created = creationDate\<rparr>))"

definition vaultkey_toInternal :: "golib \<Rightarrow> vaultkey \<Rightarrow> store_error + master_key" where
  "vaultkey_toInternal L k =
     bindE (parseTimestamp L ''hc_vault.created_at'' (vaultkey_CreatedAt k)) (\<lambda>creationDate.
       Inr (HCVAULT \<lparr>VaultAddress = vaultkey_VaultAddress k, EnginePath = vaultkey_EnginePath k,
                     KeyName = vaultkey_KeyName k, vault_enc = vaultkey_enc k, vault_created = creationDate\<rparr>))"

definition pgpkey_toInternal :: "golib \<Rightarrow> pgpkey \<Rightarrow> store_error + master_key" where
  "pgpkey_toInternal L k =
     bindE (parseTimestamp L ''pgp.created_at'' (pgpkey_CreatedAt k)) (\<lambda>creationDate.
       Inr (PGP \<lparr>Fingerprint = pgpkey_Fingerprint k, pgp_enc = pgpkey_enc k, pgp_created = creationDate\<rparr>))"

definition agekey_toInternal :: "agekey \<Rightarrow> store_error + master_key" where
  "agekey_toInternal k = Inr (AGE \<lparr>Recipient = agekey_Recipient k, age_enc = agekey_enc k\<rparr>)"

text \<open>The date that \<open>NewMasterKey\<close> sets is overwritten.\<close>

definition hckmskey_toInternal :: "golib \<Rightarrow> gotime \<Rightarrow> hckmskey \<Rightarrow> store_error + master_key" where
  "hckmskey_toInternal L now k =
     bindE (parseTimestamp L ''hc_kms.created_at'' (hckmskey_CreatedAt k)) (\<lambda>creationDate.
       case hckms_NewMasterKey now (hckmskey_KeyID k) of
         Inl e \<Rightarrow> Inl (BadKey e)
       | Inr key \<Rightarrow> Inr (HCKMS (key\<lparr>hckms_enc := hckmskey_enc k, hckms_created := creationDate\<rparr>)))"

definition internalGroupFrom :: "golib \<Rightarrow> gotime \<Rightarrow> keygroup \<Rightarrow> store_error + master_key list" where
  "internalGroupFrom L now g =
     bindE (mapE (kmskey_toInternal L) (KMSKeys g)) (\<lambda>kms.
     bindE (mapE (gcpkmskey_toInternal L) (GCPKMSKeys g)) (\<lambda>gcp.
     bindE (mapE (hckmskey_toInternal L now) (HCKmsKeys g)) (\<lambda>hckms.
     bindE (mapE (azkvkey_toInternal L) (AzureKeyVaultKeys g)) (\<lambda>azkv.
     bindE (mapE (vaultkey_toInternal L) (VaultKeys g)) (\<lambda>vault.
     bindE (mapE (pgpkey_toInternal L) (PGPKeys g)) (\<lambda>pgp.
     bindE (mapE agekey_toInternal (AgeKeys g)) (\<lambda>age.
       Inr (kms @ gcp @ hckms @ azkv @ vault @ pgp @ age))))))))"

definition has_keys :: "keygroup \<Rightarrow> bool" where
  "has_keys g \<longleftrightarrow> PGPKeys g \<noteq> [] \<or> KMSKeys g \<noteq> [] \<or> GCPKMSKeys g \<noteq> [] \<or> HCKmsKeys g \<noteq> []
     \<or> AzureKeyVaultKeys g \<noteq> [] \<or> VaultKeys g \<noteq> [] \<or> AgeKeys g \<noteq> []"

definition internalKeygroups :: "golib \<Rightarrow> gotime \<Rightarrow> stored_metadata \<Rightarrow> store_error + master_key list list" where
  "internalKeygroups L now m =
     (if has_keys (TopKeys m)
      then bindE (internalGroupFrom L now (TopKeys m)) (\<lambda>grp. Inr [grp])
      else if stored_KeyGroups m \<noteq> [] then mapE (internalGroupFrom L now) (stored_KeyGroups m)
      else Inl NoKeysFound)"

definition cryptRuleCount :: "stored_metadata \<Rightarrow> nat" where
  "cryptRuleCount m =
     length (filter (\<lambda>rule. rule \<noteq> '''')
       [stored_UnencryptedSuffix m, stored_EncryptedSuffix m, stored_UnencryptedRegex m,
        stored_EncryptedRegex m, stored_UnencryptedCommentRegex m, stored_EncryptedCommentRegex m])"

definition DefaultUnencryptedSuffix :: string where
  "DefaultUnencryptedSuffix = ''_unencrypted''"

definition ToInternal :: "golib \<Rightarrow> gotime \<Rightarrow> stored_metadata \<Rightarrow> store_error + Metadata" where
  "ToInternal L now m =
     bindE (parseTimestamp L ''lastmodified'' (stored_LastModified m)) (\<lambda>lastModified.
     bindE (internalKeygroups L now m) (\<lambda>groups.
       if cryptRuleCount m > 1 then Inl TooManyCryptRules
       else Inr
         \<lparr>LastModified = lastModified,
          UnencryptedSuffix =
            (if cryptRuleCount m = 0 then DefaultUnencryptedSuffix else stored_UnencryptedSuffix m),
          EncryptedSuffix = stored_EncryptedSuffix m,
          UnencryptedRegex = stored_UnencryptedRegex m,
          EncryptedRegex = stored_EncryptedRegex m,
          UnencryptedCommentRegex = stored_UnencryptedCommentRegex m,
          EncryptedCommentRegex = stored_EncryptedCommentRegex m,
          MessageAuthenticationCode = stored_MessageAuthenticationCode m,
          MACOnlyEncrypted = stored_MACOnlyEncrypted m,
          SopsVersion = stored_Version m,
          KeyGroups = groups,
          ShamirThreshold = stored_ShamirThreshold m,
          DataKey = None\<rparr>))"

section \<open>Between trees and Go maps\<close>

text \<open>A Go value built of \<open>map[string]interface{}\<close>, \<open>[]interface{}\<close> and others; the pairs of a map
  stand in no particular order.\<close>

datatype goval = GoMap "(string \<times> goval) list" | GoSlice "goval list" | GoVal gval

fun sopsToGo :: "gval \<Rightarrow> store_error + goval"
  and sopsToGoMap :: "treeitem list \<Rightarrow> (string \<times> goval) list \<Rightarrow> store_error + (string \<times> goval) list"
  and sopsToGoSlice :: "gval list \<Rightarrow> store_error + goval list" where
  "sopsToGo (GBranch b) = bindE (sopsToGoMap b []) (\<lambda>m. Inr (GoMap m))"
| "sopsToGo (GSlice vs) = bindE (sopsToGoSlice vs) (\<lambda>s. Inr (GoSlice s))"
| "sopsToGo v = Inr (GoVal v)"
| "sopsToGoMap [] result = Inr result"
| "sopsToGoMap (TreeItem k v # items) result =
     (case k of
        KComment c \<Rightarrow> sopsToGoMap items result
      | KStr key \<Rightarrow> bindE (sopsToGo v) (\<lambda>value. sopsToGoMap items (AList.update key value result))
      | _ \<Rightarrow> Inl (UnexpectedKeyType k))"
| "sopsToGoSlice [] = Inr []"
| "sopsToGoSlice (v # vs) =
     (if is_comment v then sopsToGoSlice vs
      else bindE (sopsToGo v) (\<lambda>value. bindE (sopsToGoSlice vs) (\<lambda>rest. Inr (value # rest))))"

lemma goval_size [termination_simp]: "(k, v) \<in> set kvs \<Longrightarrow> size v < Suc (size_list (size_prod (\<lambda>_. 0) size) kvs)"
  by (induction kvs) auto

text \<open>The keys of a map are sorted by name.\<close>

fun goToSops :: "goval \<Rightarrow> gval" where
  "goToSops (GoSlice vs) = GSlice (map goToSops vs)"
| "goToSops (GoMap kvs) =
     GBranch (map (\<lambda>(k, v). TreeItem (KStr k) v) (sort_key fst (map (\<lambda>(k, v). (k, goToSops v)) kvs)))"
| "goToSops (GoVal v) = v"

text \<open>The two directions of \<open>mapstructure\<close> on the struct \<open>metadata\<close>.\<close>

record mapstructure =
  ms_Encode :: "stored_metadata \<Rightarrow> string + (string \<times> goval) list"
  ms_Decode :: "(string \<times> goval) list \<Rightarrow> string + stored_metadata"

definition treeBranchToMetadata :: "mapstructure \<Rightarrow> TreeBranch \<Rightarrow> store_error + stored_metadata" where
  "treeBranchToMetadata M meta =
     bindE (sopsToGoMap meta []) (\<lambda>m.
       case ms_Decode M m of Inl e \<Rightarrow> Inl (MapstructureError e) | Inr md \<Rightarrow> Inr md)"

definition metadataToTreeBranch :: "mapstructure \<Rightarrow> stored_metadata \<Rightarrow> store_error + TreeBranch" where
  "metadataToTreeBranch M md =
     (case ms_Encode M md of
        Inl e \<Rightarrow> Inl (MapstructureError e)
      | Inr mdMap \<Rightarrow> (case goToSops (GoMap mdMap) of GBranch tb \<Rightarrow> Inr tb | _ \<Rightarrow> Inl SerializingMetadata))"

section \<open>Metadata inside the branches of a file\<close>

datatype MetadataFlatten = MetadataFlattenNone | MetadataFlattenBelowTop | MetadataFlattenFull

definition SopsMetadataKey :: string where "SopsMetadataKey = ''sops''"
definition SopsPrefix :: string where "SopsPrefix = SopsMetadataKey @ ''_''"

text \<open>
  The loop over the first branch when the metadata has an entry of its own: \<open>metadataTree\<close> is the
  nil slice at first, \<open>found\<close> is the negation of the variable \<open>first\<close>. The other branches only lose
  their entries.
\<close>

fun take_entry :: "treeitem list \<Rightarrow> bool \<Rightarrow> TreeBranch \<Rightarrow> store_error + (TreeBranch \<times> TreeBranch)" where
  "take_entry [] found metadataTree = Inr ([], metadataTree)"
| "take_entry (TreeItem k v # items) found metadataTree =
     (if key_eq k (KStr SopsMetadataKey)
      then if found then Inl DuplicateSopsEntry
           else case v of
               GBranch tree \<Rightarrow> take_entry items True tree
             | _ \<Rightarrow> Inl SopsEntryNotAMapping
      else bindE (take_entry items found metadataTree)
             (\<lambda>(branch, meta). Inr (TreeItem k v # branch, meta)))"

definition drop_entries :: "TreeBranch \<Rightarrow> TreeBranch" where
  "drop_entries branch = filter (\<lambda>item. \<not> key_eq (Key item) (KStr SopsMetadataKey)) branch"

text \<open>The loop over the first branch when every metadata key carries the prefix.\<close>

fun take_prefixed :: "treeitem list \<Rightarrow> TreeBranch \<times> TreeBranch" where
  "take_prefixed [] = ([], [])"
| "take_prefixed (TreeItem k v # items) =
     (case take_prefixed items of (branch, meta) \<Rightarrow>
        (case k of
           KStr key \<Rightarrow>
             if has_prefix key SopsPrefix
             then (branch, TreeItem (KStr (drop (length SopsPrefix) key)) v # meta)
             else (TreeItem k v # branch, meta)
         | _ \<Rightarrow> (TreeItem k v # branch, meta)))"

definition take_metadata ::
    "MetadataFlatten \<Rightarrow> TreeBranches \<Rightarrow> store_error + (TreeBranches \<times> TreeBranch)" where
  "take_metadata opts branches =
     (case branches of
        [] \<Rightarrow> Inr ([], [])
      | first # others \<Rightarrow>
          if opts \<noteq> MetadataFlattenFull
          then bindE (take_entry first False [])
                 (\<lambda>(branch, meta). Inr (branch # map drop_entries others, meta))
          else case take_prefixed first of (branch, meta) \<Rightarrow> Inr (branch # others, meta))"

text \<open>A mapping without entries counts as the nil slice, and so as no metadata.\<close>

definition ExtractMetadata ::
    "golib \<Rightarrow> mapstructure \<Rightarrow> gotime \<Rightarrow> MetadataFlatten \<Rightarrow> TreeBranches \<Rightarrow> store_error + (TreeBranches \<times> Metadata)" where
  "ExtractMetadata L M now opts branches =
     bindE (take_metadata opts branches) (\<lambda>(branches', metadataTree).
       if metadataTree = [] then Inl MetadataNotFound
       else bindE (if opts = MetadataFlattenNone then Inr metadataTree
                   else case unflattenTreeBranch metadataTree of
                       Inl e \<Rightarrow> Inl (Unflattening e) | Inr tree \<Rightarrow> Inr tree) (\<lambda>tree.
         bindE (treeBranchToMetadata M tree) (\<lambda>md.
         bindE (ToInternal L now md) (\<lambda>m. Inr (branches', m)))))"

fun reserved_key :: "MetadataFlatten \<Rightarrow> treeitem \<Rightarrow> store_error + treeitem" where
  "reserved_key opts (TreeItem (KStr key) v) =
     (if opts = MetadataFlattenFull
      then if has_prefix key SopsPrefix then Inl (ReservedPrefix key) else Inr (TreeItem (KStr key) v)
      else if key = SopsMetadataKey then Inl (ReservedKey key) else Inr (TreeItem (KStr key) v))"
| "reserved_key opts item = Inr item"

definition SerializeMetadata ::
    "golib \<Rightarrow> mapstructure \<Rightarrow> MetadataFlatten \<Rightarrow> Tree \<Rightarrow> store_error + TreeBranches" where
  "SerializeMetadata L M opts data =
     bindE (metadataToTreeBranch M (metadataFromInternal L (TreeMetadata data))) (\<lambda>md0.
     bindE (if opts = MetadataFlattenNone then Inr md0
            else case flattenTreeBranch md0 (if opts = MetadataFlattenFull then SopsPrefix else '''') of
                Inl e \<Rightarrow> Inl (FlatteningMetadata e) | Inr flat \<Rightarrow> Inr flat) (\<lambda>md1.
       let md = (if opts \<noteq> MetadataFlattenFull then [TreeItem (KStr SopsMetadataKey) (GBranch md1)] else md1)
       in mapE (\<lambda>branch. bindE (mapE (reserved_key opts) branch) (\<lambda>items. Inr (items @ md))) (Branches data)))"

section \<open>Values of the stores\<close>

definition HasSopsTopLevelKey :: "TreeBranch \<Rightarrow> bool" where
  "HasSopsTopLevelKey branch = list_ex (\<lambda>b. key_eq (Key b) (KStr SopsMetadataKey)) branch"

fun IsComplexValue :: "gval \<Rightarrow> bool" where
  "IsComplexValue (GSlice vs) = True"
| "IsComplexValue (GBranch b) = True"
| "IsComplexValue _ = False"

text \<open>The formats of \<open>strconv\<close> and \<open>fmt\<close> that \<open>ValToString\<close> uses beside those of \<open>golib\<close>:
  \<open>FormatFloat(v, 'G', -1, 64)\<close>, \<open>FormatFloat(v, 'f', 1, 64)\<close> and \<open>%v\<close>; and \<open>%s\<close> of a key that is
  no string.\<close>

record valfmt =
  FormatG :: "f64 \<Rightarrow> string"
  FormatF1 :: "f64 \<Rightarrow> string"
  SprintV :: "gval \<Rightarrow> string"
  SprintKey :: "gkey \<Rightarrow> string"

fun ValToString :: "golib \<Rightarrow> valfmt \<Rightarrow> gval \<Rightarrow> string" where
  "ValToString L F (GFloat v) =
     (let result = FormatG F v
      in if CHR ''.'' \<notin> set result \<and> CHR ''E'' \<notin> set result then FormatF1 F v else result)"
| "ValToString L F (GBool b) = (if b then ''true'' else ''false'')"
| "ValToString L F (GTime t) = FormatRFC3339 L t"
| "ValToString L F (GStr s) = s"
| "ValToString L F (GInt i) = itoa i"
| "ValToString L F v = SprintV F v"

definition example_comment :: "string \<Rightarrow> treeitem" where
  "example_comment s = TreeItem (KComment \<lparr>CValue = s, Inline = False\<rparr>) GNil"

definition ExampleComplexTree :: TreeBranches where
  "ExampleComplexTree =
     [[TreeItem (KStr ''hello'') (GStr ''Welcome to SOPS! Edit this file as you please!''),
       TreeItem (KStr ''example_key'') (GStr ''example_value''),
       example_comment '' Example comment'',
       TreeItem (KStr ''example_array'') (GSlice [GStr ''example_value1'', GStr ''example_value2'']),
       TreeItem (KStr ''example_number'') (GFloat (F64 0x40934A4584F4C6E7)),
       TreeItem (KStr ''example_booleans'') (GSlice [GBool True, GBool False])]]"

definition ExampleSimpleTree :: TreeBranches where
  "ExampleSimpleTree =
     [[TreeItem (KStr ''Welcome!'')
         (GBranch
            [example_comment '' This is an example file.'',
             TreeItem (KStr ''hello'') (GStr ''Welcome to SOPS! Edit this file as you please!''),
             TreeItem (KStr ''example_key'') (GStr ''example_value'')])]]"

definition ExampleFlatTree :: TreeBranches where
  "ExampleFlatTree =
     [[example_comment '' This is an example file.'',
       TreeItem (KStr ''hello'') (GStr ''Welcome to SOPS! Edit this file as you please!''),
       TreeItem (KStr ''example_key'') (GStr ''example_value''),
       TreeItem (KStr ''example_multiline'') (GStr (''foo'' @ [CHR 0x0A] @ ''bar'' @ [CHR 0x0A] @ ''baz''))]]"

end
