(* ===== verification/Commands.thy ===== *)
theory Commands
  imports Key_Groups Metadata_Store
begin

text \<open>
  The commands that work on one file: the shared steps of \<open>src/cmd/sops/common/common.go\<close> and the
  commands \<open>encrypt\<close>, \<open>decrypt\<close>, \<open>rotate\<close>, \<open>set\<close>, \<open>unset\<close> and \<open>edit\<close> of \<open>src/cmd/sops\<close>, with the exit
  codes of \<open>src/cmd/sops/codes/codes.go\<close>.

  A store is a record of its functions. The file that is read is its contents, or \<^const>\<open>None\<close> when it
  cannot be read, and \<open>path\<close> is what \<open>filepath.Abs\<close> gives. A command returns the bytes it would write.
  What it changes besides, the world of the key services and of the clock, the cipher and the random
  source, is the record \<open>run\<close>. Audit events and messages are left out.
\<close>

record 'e store =
  store_LoadPlainFile :: "string \<Rightarrow> 'e + TreeBranches"
  store_LoadEncryptedFile :: "gotime \<Rightarrow> string \<Rightarrow> 'e + Tree"
  store_EmitPlainFile :: "TreeBranches \<Rightarrow> 'e + string"
  store_EmitEncryptedFile :: "Tree \<Rightarrow> 'e + string"
  store_EmitValue :: "cursor \<Rightarrow> 'e + string"
  store_EmitExample :: "'e + string"
  store_HasSopsTopLevelKey :: "TreeBranch \<Rightarrow> bool"

text \<open>
  What a command is run with. The package \<open>semver\<close> is given by the strings it accepts and its
  comparison.
\<close>

record ('w, 'c, 's) cmd_env =
  lib :: golib
  Cipher :: "('c, 's) cipher"
  KeyServices :: "'w keyservice list"
  DecryptionOrder :: "string list"
  Now :: "'w \<Rightarrow> gotime \<times> 'w"
  semver_valid :: "string \<Rightarrow> bool"
  semver_Compare :: "string \<Rightarrow> string \<Rightarrow> int"

record ('w, 's) run =
  world :: 'w
  cipher_of :: 's
  entropy :: "byte list"

section \<open>Errors and exit codes\<close>

datatype ('e, 'c) failure =
    CouldNotRead
  | NoAbsolutePath
  | CouldNotUnmarshal 'e
  | CouldNotLoad 'e
  | NeedAtLeastOneDocument
  | FileAlreadyEncrypted
  | NoRandomKey
  | CouldNotGenerateDataKey "update_error list"
  | CouldNotEncryptDataKey "update_error list"
  | CouldNotUpdateKeys "update_error list"
  | CouldNotGetDataKey get_error
  | CouldNotRetrieveKey get_error
  | ErrorEncryptingTree "'c walk_error"
  | CouldNotEncryptMac 'c
  | ErrorDecryptingTree "'c walk_error"
  | CannotDecryptMac 'c
  | MacMismatch gval string
  | CouldNotMarshal 'e
  | ErrorDumpingFile 'e
  | ErrorDumpingValue 'e
  | ErrorTruncating tree_error
  | ErrorUnsetting tree_error
  | InvalidVersion
  | EntersContextBugFix Tree
  | CouldNotRunEditor
  | FileHasNotChanged
  | CouldNotCompareVersions
  | ThresholdImpossible int nat
  | NoCreationRule
  | NoAnswer
  | NoKeyGroup
  | ContextCancelled
  | CannotCheckStatus 'e
  | PanicInCommand tree_error

text \<open>The exit code of the errors that \<open>NewExitError\<close> made; the others are plain errors.\<close>

fun exit_code :: "('e, 'c) failure \<Rightarrow> nat option" where
  "exit_code CouldNotRead = Some 2"
| "exit_code (CouldNotUnmarshal e) = Some 2"
| "exit_code NeedAtLeastOneDocument = Some 92"
| "exit_code FileAlreadyEncrypted = Some 203"
| "exit_code (CouldNotRetrieveKey e) = Some 128"
| "exit_code (CouldNotEncryptDataKey errs) = Some 128"
| "exit_code (ErrorEncryptingTree e) = Some 23"
| "exit_code (CouldNotEncryptMac e) = Some 21"
| "exit_code (ErrorDecryptingTree e) = Some 25"
| "exit_code (CannotDecryptMac e) = Some 51"
| "exit_code (MacMismatch file computed) = Some 51"
| "exit_code (CouldNotMarshal e) = Some 4"
| "exit_code (ErrorDumpingFile e) = Some 4"
| "exit_code (ErrorDumpingValue e) = Some 4"
| "exit_code CouldNotRunEditor = Some 201"
| "exit_code FileHasNotChanged = Some 200"
| "exit_code CouldNotCompareVersions = Some 202"
| "exit_code e = None"

section \<open>Encrypting and decrypting a tree\<close>

definition background :: "'w \<Rightarrow> bool \<times> 'w" where
  "background w = (False, w)"

definition DecryptTree ::
    "('w, 'c, 's) cmd_env \<Rightarrow> bool \<Rightarrow> Tree \<Rightarrow> ('w, 's) run \<Rightarrow> ('e, 'c) failure + string \<times> Tree \<times> ('w, 's) run" where
  "DecryptTree S IgnoreMac tree st =
     (case GetDataKey background (KeyServices S) (DecryptionOrder S) (TreeMetadata tree) (world st) of
        (Inl e, _, _) \<Rightarrow> Inl (CouldNotRetrieveKey e)
      | (Inr dataKey, m, w) \<Rightarrow>
          (case Tree_Decrypt (lib S) (Cipher S) dataKey (tree\<lparr>TreeMetadata := m\<rparr>) (cipher_of st) of
             Inl e \<Rightarrow> Inl (ErrorDecryptingTree e)
           | Inr (tree', computedMac, s) \<Rightarrow>
               (case cipher_Decrypt (Cipher S) (MessageAuthenticationCode m) dataKey
                       (FormatRFC3339 (lib S) (LastModified m)) s of
                  (fileMac, s') \<Rightarrow>
                    let done = Inr (dataKey, tree', st\<lparr>world := w, cipher_of := s'\<rparr>)
                    in if IgnoreMac then done
                       else case fileMac of
                           Inl e \<Rightarrow> Inl (CannotDecryptMac e)
                         | Inr v \<Rightarrow>
                             if v \<noteq> GStr computedMac
                             then Inl (MacMismatch (if v = GStr '''' then GStr ''no MAC'' else v) computedMac)
                             else done)))"

definition EncryptTree ::
    "('w, 'c, 's) cmd_env \<Rightarrow> string \<Rightarrow> Tree \<Rightarrow> ('w, 's) run \<Rightarrow> ('e, 'c) failure + Tree \<times> ('w, 's) run" where
  "EncryptTree S dataKey tree st =
     (case Tree_Encrypt (lib S) (Cipher S) dataKey tree (cipher_of st) of
        Inl e \<Rightarrow> Inl (ErrorEncryptingTree e)
      | Inr (tree', unencryptedMac, s) \<Rightarrow>
          (case Now S (world st) of (now, w) \<Rightarrow>
             (case cipher_Encrypt (Cipher S) (GStr unencryptedMac) dataKey
                     (FormatRFC3339 (lib S) (utc now)) s of
                Inl e \<Rightarrow> Inl (CouldNotEncryptMac e)
              | Inr (mac, s') \<Rightarrow>
                  Inr (tree'\<lparr>TreeMetadata := (TreeMetadata tree')\<lparr>LastModified := utc now,
                         MessageAuthenticationCode := mac\<rparr>\<rparr>,
                       st\<lparr>world := w, cipher_of := s'\<rparr>))))"

text \<open>The data key of a new or rotated file, with the check that every caller makes of the errors.\<close>

definition GenerateTreeKeyCtx ::
    "('w \<Rightarrow> bool \<times> 'w) \<Rightarrow> ('w, 'c, 's) cmd_env \<Rightarrow> Tree \<Rightarrow> ('w, 's) run
      \<Rightarrow> ('e, 'c) failure + string \<times> Tree \<times> ('w, 's) run" where
  "GenerateTreeKeyCtx ctxErr S tree st =
     (case GenerateDataKey ctxErr (KeyServices S) tree (entropy st) (world st) of
        None \<Rightarrow> Inl NoRandomKey
      | Some (dataKey, errs, tree', rnd, w) \<Rightarrow>
          if errs \<noteq> [] then Inl (CouldNotGenerateDataKey errs)
          else Inr (dataKey, tree', st\<lparr>world := w, entropy := rnd\<rparr>))"

definition GenerateTreeKey ::
    "('w, 'c, 's) cmd_env \<Rightarrow> Tree \<Rightarrow> ('w, 's) run \<Rightarrow> ('e, 'c) failure + string \<times> Tree \<times> ('w, 's) run" where
  "GenerateTreeKey S tree st = GenerateTreeKeyCtx background S tree st"

section \<open>Loading an encrypted file\<close>

definition LoadEncryptedFileEx ::
    "('w, 'c, 's) cmd_env \<Rightarrow> 'e store \<Rightarrow> string option \<Rightarrow> string option \<Rightarrow> ('w, 's) run
      \<Rightarrow> ('e, 'c) failure + Tree \<times> ('w, 's) run" where
  "LoadEncryptedFileEx S loader fileBytes path st =
     (case fileBytes of None \<Rightarrow> Inl CouldNotRead
      | Some bytes \<Rightarrow>
          (case path of None \<Rightarrow> Inl NoAbsolutePath
           | Some p \<Rightarrow>
               (case Now S (world st) of (now, w) \<Rightarrow>
                  (case store_LoadEncryptedFile loader now bytes of
                     Inl e \<Rightarrow> Inl (CouldNotLoad e)
                   | Inr tree \<Rightarrow> Inr (tree\<lparr>FilePath := p\<rparr>, st\<lparr>world := w\<rparr>)))))"

definition AIsNewerThanB :: "('w, 'c, 's) cmd_env \<Rightarrow> string \<Rightarrow> string \<Rightarrow> bool option" where
  "AIsNewerThanB S A B =
     (if has_prefix B ''1.'' then Some True
      else let A' = trim_prefix A ''v''; B' = trim_prefix B ''v''
        in if semver_valid S A' \<and> semver_valid S B' then Some (semver_Compare S A' B' > 0) else None)"

definition KMS_ENC_CTX_BUG_FIXED_VERSION :: string where
  "KMS_ENC_CTX_BUG_FIXED_VERSION = ''3.3.0''"

definition buggy_context :: "master_key \<Rightarrow> bool" where
  "buggy_context key =
     (case key of
        KMS k \<Rightarrow>
          (case EncryptionContext k of
             Some c \<Rightarrow> length c \<ge> 2 \<and> length (remdups (map snd c)) > 1
           | None \<Rightarrow> False)
      | _ \<Rightarrow> False)"

fun find_index :: "('a \<Rightarrow> bool) \<Rightarrow> 'a list \<Rightarrow> nat option" where
  "find_index P [] = None"
| "find_index P (x # xs) = (if P x then Some 0 else map_option Suc (find_index P xs))"

text \<open>The position and the key of the first affected KMS key; the code returns a nil key for \<^const>\<open>None\<close>.\<close>

definition GetKMSKeyWithEncryptionCtx :: "Tree \<Rightarrow> (nat \<times> nat \<times> master_key) option" where
  "GetKMSKeyWithEncryptionCtx tree =
     (let groups = KeyGroups (TreeMetadata tree)
      in case find_index (list_ex buggy_context) groups of
           None \<Rightarrow> None
         | Some i \<Rightarrow>
             map_option (\<lambda>n. (i, n, groups ! i ! n)) (find_index buggy_context (groups ! i)))"

definition DetectKMSEncryptionContextBug :: "('w, 'c, 's) cmd_env \<Rightarrow> Tree \<Rightarrow> bool option" where
  "DetectKMSEncryptionContextBug S tree =
     map_option (\<lambda>older. older \<and> GetKMSKeyWithEncryptionCtx tree \<noteq> None)
       (AIsNewerThanB S KMS_ENC_CTX_BUG_FIXED_VERSION (SopsVersion (TreeMetadata tree)))"

text \<open>A file written before version 3.3.0 with an affected key goes on into
  \<open>FixAWSKMSEncryptionContextBug\<close>, which is not modelled: the run ends there.\<close>

definition LoadEncryptedFileWithBugFixes ::
    "('w, 'c, 's) cmd_env \<Rightarrow> 'e store \<Rightarrow> string option \<Rightarrow> string option \<Rightarrow> ('w, 's) run
      \<Rightarrow> ('e, 'c) failure + Tree \<times> ('w, 's) run" where
  "LoadEncryptedFileWithBugFixes S loader fileBytes path st =
     bindE (LoadEncryptedFileEx S loader fileBytes path st) (\<lambda>(tree, st1).
       case DetectKMSEncryptionContextBug S tree of
         None \<Rightarrow> Inl InvalidVersion
       | Some True \<Rightarrow> Inl (EntersContextBugFix tree)
       | Some False \<Rightarrow> Inr (tree, st1))"

section \<open>encrypt\<close>

record encryptConfig =
  config_UnencryptedSuffix :: string
  config_EncryptedSuffix :: string
  config_UnencryptedRegex :: string
  config_EncryptedRegex :: string
  config_UnencryptedCommentRegex :: string
  config_EncryptedCommentRegex :: string
  config_MACOnlyEncrypted :: bool
  config_KeyGroups :: "master_key list list"
  config_GroupThreshold :: int

definition sops_Version :: string where
  "sops_Version = ''4.1.0''"

text \<open>The zero value of \<open>time.Time\<close>.\<close>

definition zero_time :: gotime where
  "zero_time = \<lparr>seconds = -62135596800, nanoseconds = 0, location = 0\<rparr>"

definition metadataFromEncryptionConfig :: "encryptConfig \<Rightarrow> Metadata" where
  "metadataFromEncryptionConfig c =
     \<lparr>LastModified = zero_time,
      UnencryptedSuffix = config_UnencryptedSuffix c,
      EncryptedSuffix = config_EncryptedSuffix c,
      UnencryptedRegex = config_UnencryptedRegex c,
      EncryptedRegex = config_EncryptedRegex c,
      UnencryptedCommentRegex = config_UnencryptedCommentRegex c,
      EncryptedCommentRegex = config_EncryptedCommentRegex c,
      MessageAuthenticationCode = '''',
      MACOnlyEncrypted = config_MACOnlyEncrypted c,
      SopsVersion = sops_Version,
      KeyGroups = config_KeyGroups c,
      ShamirThreshold = config_GroupThreshold c,
      DataKey = None\<rparr>"

definition validateFileForEncryption :: "'e store \<Rightarrow> TreeBranches \<Rightarrow> ('e, 'c) failure + unit" where
  "validateFileForEncryption outputStore branches =
     (case branches of
        [] \<Rightarrow> Inl NeedAtLeastOneDocument
      | b # _ \<Rightarrow> if store_HasSopsTopLevelKey outputStore b then Inl FileAlreadyEncrypted else Inr ())"

definition marshal :: "'e store \<Rightarrow> Tree \<Rightarrow> ('e, 'c) failure + string" where
  "marshal outputStore tree =
     (case store_EmitEncryptedFile outputStore tree of Inl e \<Rightarrow> Inl (CouldNotMarshal e) | Inr out \<Rightarrow> Inr out)"

text \<open>\<open>encrypt\<close> up to the encrypted tree, and with its output.\<close>

definition encrypted_tree ::
    "('w, 'c, 's) cmd_env \<Rightarrow> 'e store \<Rightarrow> 'e store \<Rightarrow> encryptConfig \<Rightarrow> string option \<Rightarrow> string option
      \<Rightarrow> ('w, 's) run \<Rightarrow> ('e, 'c) failure + Tree \<times> ('w, 's) run" where
  "encrypted_tree S InputStore OutputStore config fileBytes path st =
     (case fileBytes of None \<Rightarrow> Inl CouldNotRead
      | Some bytes \<Rightarrow>
          (case store_LoadPlainFile InputStore bytes of Inl e \<Rightarrow> Inl (CouldNotUnmarshal e)
           | Inr branches \<Rightarrow>
               bindE (validateFileForEncryption OutputStore branches) (\<lambda>_.
                 case path of None \<Rightarrow> Inl NoAbsolutePath
                 | Some p \<Rightarrow>
                     bindE (GenerateTreeKey S \<lparr>TreeMetadata = metadataFromEncryptionConfig config,
                              Branches = branches, FilePath = p\<rparr> st) (\<lambda>(dataKey, tree, st1).
                       EncryptTree S dataKey tree st1))))"

definition encrypt ::
    "('w, 'c, 's) cmd_env \<Rightarrow> 'e store \<Rightarrow> 'e store \<Rightarrow> encryptConfig \<Rightarrow> string option \<Rightarrow> string option
      \<Rightarrow> ('w, 's) run \<Rightarrow> ('e, 'c) failure + string \<times> ('w, 's) run" where
  "encrypt S InputStore OutputStore config fileBytes path st =
     bindE (encrypted_tree S InputStore OutputStore config fileBytes path st) (\<lambda>(tree, st1).
       bindE (marshal OutputStore tree) (\<lambda>out. Inr (out, st1)))"

section \<open>decrypt\<close>

definition decryptTree ::
    "('w, 'c, 's) cmd_env \<Rightarrow> 'e store \<Rightarrow> bool \<Rightarrow> string option \<Rightarrow> string option \<Rightarrow> ('w, 's) run
      \<Rightarrow> ('e, 'c) failure + string \<times> Tree \<times> ('w, 's) run" where
  "decryptTree S InputStore IgnoreMAC fileBytes path st =
     bindE (LoadEncryptedFileWithBugFixes S InputStore fileBytes path st) (\<lambda>(tree, st1).
       DecryptTree S IgnoreMAC tree st1)"

definition dump :: "'e store \<Rightarrow> TreeBranches \<Rightarrow> ('e, 'c) failure + string" where
  "dump outputStore branches =
     (case store_EmitPlainFile outputStore branches of Inl e \<Rightarrow> Inl (ErrorDumpingFile e) | Inr out \<Rightarrow> Inr out)"

definition extract_path :: "'e store \<Rightarrow> Tree \<Rightarrow> gkey list \<Rightarrow> ('e, 'c) failure + string" where
  "extract_path outputStore tree path =
     (case Branches tree of
        [] \<Rightarrow> Inl (PanicInCommand tree_error.PanicIndexOutOfRange)
      | b # bs \<Rightarrow>
          (case Truncate b path of
             Inl e \<Rightarrow> Inl (ErrorTruncating e)
           | Inr (CVal (GBranch newBranch)) \<Rightarrow> dump outputStore (newBranch # bs)
           | Inr (CVal (GStr str)) \<Rightarrow> Inr str
           | Inr v \<Rightarrow>
               (case store_EmitValue outputStore v of
                  Inl e \<Rightarrow> Inl (ErrorDumpingValue e) | Inr bytes \<Rightarrow> Inr bytes)))"

definition decrypt ::
    "('w, 'c, 's) cmd_env \<Rightarrow> 'e store \<Rightarrow> 'e store \<Rightarrow> bool \<Rightarrow> gkey list \<Rightarrow> string option \<Rightarrow> string option
      \<Rightarrow> ('w, 's) run \<Rightarrow> ('e, 'c) failure + string \<times> ('w, 's) run" where
  "decrypt S InputStore OutputStore IgnoreMAC Extract fileBytes path st =
     bindE (decryptTree S InputStore IgnoreMAC fileBytes path st) (\<lambda>(_, tree, st1).
       bindE (if Extract \<noteq> [] then extract_path OutputStore tree Extract else dump OutputStore (Branches tree))
         (\<lambda>out. Inr (out, st1)))"

section \<open>rotate\<close>

text \<open>
  Removing a key from a group while ranging over it. The range is over the slice as it was, of
  length \<open>n\<close> and with the same backing array; the removal shifts the array in place, and the loop goes
  on to read shifted and stale elements. Slicing past the current length panics.
\<close>

function remove_scan :: "string \<Rightarrow> nat \<Rightarrow> nat \<Rightarrow> master_key list \<Rightarrow> nat \<Rightarrow> master_key list option" where
  "remove_scan rm n j backing len =
     (if n \<le> j then Some (take len backing)
      else if ToString (backing ! j) = rm
      then if len < Suc j then None
           else let kept = take j backing @ drop (Suc j) (take len backing)
             in remove_scan rm n (Suc j) (kept @ drop (length kept) backing) (length kept)
      else remove_scan rm n (Suc j) backing len)"
  by pat_completeness auto
termination by (relation "measure (\<lambda>(rm, n, j, backing, len). n - j)") auto

declare remove_scan.simps [simp del]

definition remove_key :: "master_key \<Rightarrow> master_key list \<Rightarrow> master_key list option" where
  "remove_key rmKey grp = remove_scan (ToString rmKey) (length grp) 0 grp (length grp)"

fun map_some :: "('a \<Rightarrow> 'b option) \<Rightarrow> 'a list \<Rightarrow> 'b list option" where
  "map_some f [] = Some []"
| "map_some f (x # xs) =
     (case f x of None \<Rightarrow> None
      | Some y \<Rightarrow> map_option ((#) y) (map_some f xs))"

fun remove_keys :: "master_key list \<Rightarrow> master_key list list \<Rightarrow> master_key list list option" where
  "remove_keys [] groups = Some groups"
| "remove_keys (rmKey # rmKeys) groups =
     (case map_some (remove_key rmKey) groups of None \<Rightarrow> None | Some groups' \<Rightarrow> remove_keys rmKeys groups')"

text \<open>New keys go to the first group; without a group, adding one panics.\<close>

definition add_keys :: "master_key list \<Rightarrow> master_key list list \<Rightarrow> master_key list list option" where
  "add_keys new groups =
     (if new = [] then Some groups
      else case groups of [] \<Rightarrow> None | grp # gs \<Rightarrow> Some ((grp @ new) # gs))"

definition change_keys :: "master_key list \<Rightarrow> master_key list \<Rightarrow> Tree \<Rightarrow> Tree option" where
  "change_keys new old tree =
     (case add_keys new (KeyGroups (TreeMetadata tree)) of None \<Rightarrow> None
      | Some groups \<Rightarrow>
          map_option (\<lambda>groups'. tree\<lparr>TreeMetadata := (TreeMetadata tree)\<lparr>KeyGroups := groups'\<rparr>\<rparr>)
            (remove_keys old groups))"

definition rotate_file ::
    "('w, 'c, 's) cmd_env \<Rightarrow> 'e store \<Rightarrow> 'e store \<Rightarrow> bool \<Rightarrow> master_key list \<Rightarrow> master_key list
      \<Rightarrow> string option \<Rightarrow> string option \<Rightarrow> ('w, 's) run \<Rightarrow> ('e, 'c) failure + string \<times> ('w, 's) run" where
  "rotate_file S InputStore OutputStore IgnoreMAC AddMasterKeys RemoveMasterKeys fileBytes path st =
     bindE (decryptTree S InputStore IgnoreMAC fileBytes path st) (\<lambda>(_, tree, st1).
       case change_keys AddMasterKeys RemoveMasterKeys tree of
         None \<Rightarrow> Inl (PanicInCommand tree_error.PanicIndexOutOfRange)
       | Some tree1 \<Rightarrow>
           bindE (GenerateTreeKey S tree1 st1) (\<lambda>(dataKey, tree2, st2).
             bindE (EncryptTree S dataKey tree2 st2) (\<lambda>(tree3, st3).
               bindE (marshal OutputStore tree3) (\<lambda>out. Inr (out, st3)))))"

section \<open>set and unset\<close>

definition set_file ::
    "('w, 'c, 's) cmd_env \<Rightarrow> 'e store \<Rightarrow> 'e store \<Rightarrow> bool \<Rightarrow> gkey list \<Rightarrow> gval \<Rightarrow> string option \<Rightarrow> string option
      \<Rightarrow> ('w, 's) run \<Rightarrow> ('e, 'c) failure + string \<times> bool \<times> ('w, 's) run" where
  "set_file S InputStore OutputStore IgnoreMAC TreePath new fileBytes path st =
     bindE (decryptTree S InputStore IgnoreMAC fileBytes path st) (\<lambda>(dataKey, tree, st1).
       case Branches tree of
         [] \<Rightarrow> Inl (PanicInCommand tree_error.PanicIndexOutOfRange)
       | b # bs \<Rightarrow>
           (case Set b TreePath new of
              Inl e \<Rightarrow> Inl (PanicInCommand e)
            | Inr (b', changed) \<Rightarrow>
                bindE (validateFileForEncryption OutputStore (b' # bs)) (\<lambda>_.
                  bindE (EncryptTree S dataKey (tree\<lparr>Branches := b' # bs\<rparr>) st1) (\<lambda>(tree', st2).
                    bindE (marshal OutputStore tree') (\<lambda>out. Inr (out, changed, st2))))))"

definition unset_file ::
    "('w, 'c, 's) cmd_env \<Rightarrow> 'e store \<Rightarrow> 'e store \<Rightarrow> bool \<Rightarrow> gkey list \<Rightarrow> string option \<Rightarrow> string option
      \<Rightarrow> ('w, 's) run \<Rightarrow> ('e, 'c) failure + string \<times> ('w, 's) run" where
  "unset_file S InputStore OutputStore IgnoreMAC TreePath fileBytes path st =
     bindE (decryptTree S InputStore IgnoreMAC fileBytes path st) (\<lambda>(dataKey, tree, st1).
       case Branches tree of
         [] \<Rightarrow> Inl (PanicInCommand tree_error.PanicIndexOutOfRange)
       | b # bs \<Rightarrow>
           (case Unset b TreePath of
              Inl e \<Rightarrow> Inl (ErrorUnsetting e)
            | Inr newBranch \<Rightarrow>
                bindE (EncryptTree S dataKey (tree\<lparr>Branches := newBranch # bs\<rparr>) st1) (\<lambda>(tree', st2).
                  bindE (marshal OutputStore tree') (\<lambda>out. Inr (out, st2)))))"

end
