(* ===== verification/Key_Commands.thy ===== *)
theory Key_Commands
  imports Commands
begin

text \<open>
  The commands that change the keys of a file, \<open>src/cmd/sops/subcommand/updatekeys\<close> and
  \<open>src/cmd/sops/subcommand/groups\<close>, with the comparison of key groups of
  \<open>src/cmd/sops/common/common.go\<close>; the status of a file, \<open>src/cmd/sops/subcommand/filestatus\<close>; the
  editing commands of \<open>src/cmd/sops/edit.go\<close>; the choice of a format,
  \<open>src/cmd/sops/formats/formats.go\<close>; and the packages \<open>src/encrypt\<close> and \<open>src/decrypt\<close>.

  The key groups that the configuration has for a file, the answers of the user and the sessions of
  the editor are arguments.
\<close>

section \<open>Loading without the repair\<close>

definition LoadEncryptedFile ::
    "('w, 'c, 's) cmd_env \<Rightarrow> 'e store \<Rightarrow> string option \<Rightarrow> string option \<Rightarrow> ('w, 's) run
      \<Rightarrow> ('e, 'c) failure + Tree \<times> ('w, 's) run" where
  "LoadEncryptedFile S loader fileBytes path st = LoadEncryptedFileEx S loader fileBytes path st"

definition get_data_key ::
    "('w, 'c, 's) cmd_env \<Rightarrow> Metadata \<Rightarrow> ('w, 's) run \<Rightarrow> get_error + string \<times> Metadata \<times> ('w, 's) run" where
  "get_data_key S m st =
     (case GetDataKey background (KeyServices S) (DecryptionOrder S) m (world st) of
        (Inl e, _, _) \<Rightarrow> Inl e
      | (Inr key, m', w) \<Rightarrow> Inr (key, m', st\<lparr>world := w\<rparr>))"

definition update_keys_of ::
    "('w, 'c, 's) cmd_env \<Rightarrow> string \<Rightarrow> Metadata \<Rightarrow> ('w, 's) run \<Rightarrow> update_error list \<times> Metadata \<times> ('w, 's) run" where
  "update_keys_of S key m st =
     (case UpdateMasterKeys background (KeyServices S) key m (entropy st) (world st) of
        (errs, m', rnd, w) \<Rightarrow> (errs, m', st\<lparr>world := w, entropy := rnd\<rparr>))"

section \<open>Differences of key groups\<close>

record key_diff =
  Common :: "master_key list"
  Added :: "master_key list"
  Removed :: "master_key list"

definition group_at :: "master_key list list \<Rightarrow> nat \<Rightarrow> master_key list" where
  "group_at groups i = (if i < length groups then groups ! i else [])"

definition diff_group :: "master_key list \<Rightarrow> master_key list \<Rightarrow> key_diff" where
  "diff_group ourGroup theirGroup =
     (let ourKeys = map ToString ourGroup; theirKeys = map ToString theirGroup
      in \<lparr>Common = filter (\<lambda>key. ToString key \<in> set ourKeys) theirGroup,
          Added = filter (\<lambda>key. ToString key \<notin> set ourKeys) theirGroup,
          Removed = filter (\<lambda>key. ToString key \<notin> set theirKeys) ourGroup\<rparr>)"

definition DiffKeyGroups :: "master_key list list \<Rightarrow> master_key list list \<Rightarrow> key_diff list" where
  "DiffKeyGroups ours theirs =
     map (\<lambda>i. diff_group (group_at ours i) (group_at theirs i)) [0..<max (length ours) (length theirs)]"

section \<open>updatekeys\<close>

definition keys_will_change :: "key_diff list \<Rightarrow> bool" where
  "keys_will_change diffs = list_ex (\<lambda>d. Added d \<noteq> [] \<or> Removed d \<noteq> []) diffs"

definition new_threshold :: "int \<Rightarrow> Metadata \<Rightarrow> master_key list list \<Rightarrow> int" where
  "new_threshold ShamirThresholdOpt m groups =
     min (if ShamirThresholdOpt \<noteq> 0 then ShamirThresholdOpt else ShamirThreshold m) (int (length groups))"

text \<open>
  \<open>conf\<close> is the key groups of the creation rule for the file, \<^const>\<open>None\<close> when the configuration has
  no rule. \<open>answer\<close>, for an interactive run, gives the \<open>y\<close> or \<open>n\<close> that is read in the end, or the
  failure to read. The output is \<^const>\<open>None\<close> when the file is left as it is.
\<close>

definition updateFile ::
    "('w, 'c, 's) cmd_env \<Rightarrow> 'e store \<Rightarrow> master_key list list option \<Rightarrow> int
      \<Rightarrow> ('w \<Rightarrow> bool option \<times> 'w) option \<Rightarrow> string option \<Rightarrow> string option \<Rightarrow> ('w, 's) run
      \<Rightarrow> ('e, 'c) failure + string option \<times> ('w, 's) run" where
  "updateFile S store conf ShamirThresholdOpt Interactive fileBytes path st =
     bindE (LoadEncryptedFile S store fileBytes path st) (\<lambda>(tree, st1).
       case conf of
         None \<Rightarrow> Inl NoCreationRule
       | Some groups \<Rightarrow>
           let m = TreeMetadata tree;
               shamirThreshold = new_threshold ShamirThresholdOpt m groups
           in if \<not> keys_will_change (DiffKeyGroups (KeyGroups m) groups) \<and> ShamirThreshold m = shamirThreshold
              then Inr (None, st1)
              else case (case Interactive of None \<Rightarrow> (Some True, world st1) | Some ask \<Rightarrow> ask (world st1)) of
                  (None, _) \<Rightarrow> Inl NoAnswer
                | (Some False, w) \<Rightarrow> Inr (None, st1\<lparr>world := w\<rparr>)
                | (Some True, w) \<Rightarrow>
                    (case get_data_key S m (st1\<lparr>world := w\<rparr>) of
                       Inl e \<Rightarrow> Inl (CouldNotRetrieveKey e)
                     | Inr (key, m1, st2) \<Rightarrow>
                         (case update_keys_of S key (m1\<lparr>KeyGroups := groups, ShamirThreshold := shamirThreshold\<rparr>) st2 of
                            (errs, m2, st3) \<Rightarrow>
                              if errs \<noteq> [] then Inl (CouldNotUpdateKeys errs)
                              else bindE (marshal store (tree\<lparr>TreeMetadata := m2\<rparr>)) (\<lambda>out.
                                Inr (Some out, st3)))))"

section \<open>Adding and deleting key groups\<close>

text \<open>Both ignore the errors of the update.\<close>

definition groups_Add ::
    "('w, 'c, 's) cmd_env \<Rightarrow> 'e store \<Rightarrow> 'e store \<Rightarrow> master_key list \<Rightarrow> int \<Rightarrow> string option \<Rightarrow> string option
      \<Rightarrow> ('w, 's) run \<Rightarrow> ('e, 'c) failure + string \<times> ('w, 's) run" where
  "groups_Add S InputStore OutputStore Group GroupThreshold fileBytes path st =
     bindE (LoadEncryptedFile S InputStore fileBytes path st) (\<lambda>(tree, st1).
       case get_data_key S (TreeMetadata tree) st1 of
         Inl e \<Rightarrow> Inl (CouldNotGetDataKey e)
       | Inr (dataKey, m, st2) \<Rightarrow>
           let m1 = m\<lparr>KeyGroups := KeyGroups m @ [Group]\<rparr>;
               m2 = (if GroupThreshold \<noteq> 0 then m1\<lparr>ShamirThreshold := GroupThreshold\<rparr> else m1)
           in case update_keys_of S dataKey m2 st2 of (_, m3, st3) \<Rightarrow>
             bindE (marshal OutputStore (tree\<lparr>TreeMetadata := m3\<rparr>)) (\<lambda>out. Inr (out, st3)))"

definition groups_Delete ::
    "('w, 'c, 's) cmd_env \<Rightarrow> 'e store \<Rightarrow> 'e store \<Rightarrow> nat \<Rightarrow> int \<Rightarrow> string option \<Rightarrow> string option
      \<Rightarrow> ('w, 's) run \<Rightarrow> ('e, 'c) failure + string \<times> ('w, 's) run" where
  "groups_Delete S InputStore OutputStore Group GroupThreshold fileBytes path st =
     bindE (LoadEncryptedFile S InputStore fileBytes path st) (\<lambda>(tree, st1).
       case get_data_key S (TreeMetadata tree) st1 of
         Inl e \<Rightarrow> Inl (CouldNotGetDataKey e)
       | Inr (dataKey, m, st2) \<Rightarrow>
           if length (KeyGroups m) \<le> Group then Inl (PanicInCommand tree_error.PanicIndexOutOfRange)
           else
             let m1 = m\<lparr>KeyGroups := remove_nth Group (KeyGroups m)\<rparr>;
                 m2 = (if GroupThreshold \<noteq> 0 then m1\<lparr>ShamirThreshold := GroupThreshold\<rparr> else m1)
             in if int (length (KeyGroups m2)) < ShamirThreshold m2
                then Inl (ThresholdImpossible (ShamirThreshold m2) (length (KeyGroups m2)))
                else case update_keys_of S dataKey m2 st2 of (_, m3, st3) \<Rightarrow>
                  bindE (marshal OutputStore (tree\<lparr>TreeMetadata := m3\<rparr>)) (\<lambda>out. Inr (out, st3)))"

section \<open>The status of a file\<close>

text \<open>\<open>not_found\<close> tells whether an error of the store is \<open>sops.MetadataNotFound\<close>.\<close>

definition FileStatus ::
    "('w, 'c, 's) cmd_env \<Rightarrow> 'e store \<Rightarrow> ('e \<Rightarrow> bool) \<Rightarrow> string option \<Rightarrow> string option \<Rightarrow> ('w, 's) run
      \<Rightarrow> ('e, 'c) failure + bool" where
  "FileStatus S store not_found fileBytes path st =
     (case LoadEncryptedFile S store fileBytes path st of
        Inl (CouldNotLoad e) \<Rightarrow> if not_found e then Inr False else Inl (CannotCheckStatus e)
      | Inl e \<Rightarrow> Inl e
      | Inr (tree, _) \<Rightarrow>
          Inr (SopsVersion (TreeMetadata tree) \<noteq> '''' \<and> MessageAuthenticationCode (TreeMetadata tree) \<noteq> ''''))"

section \<open>edit\<close>

text \<open>A session of the editor leaves the file with some contents, or fails.\<close>

record 'w editor =
  run_editor :: "'w \<Rightarrow> string option \<times> 'w"
  SHA256 :: "string \<Rightarrow> string"

text \<open>
  One round of the loop of \<open>runEditorUntilOk\<close>: the result of the function, or the tree and the world
  with which it continues. \<open>tree\<close> is the tree of the caller. With \<open>ShowMasterKeys\<close> the round works on
  a tree of its own: it assigns \<open>&t\<close> to a field of the options, which were passed by value.
\<close>

definition editor_round ::
    "('w, 'c, 's) cmd_env \<Rightarrow> 'w editor \<Rightarrow> 'e store \<Rightarrow> 'e store \<Rightarrow> bool \<Rightarrow> string \<Rightarrow> Tree \<Rightarrow> 'w
      \<Rightarrow> (('e, 'c) failure + Tree \<times> 'w) + Tree \<times> 'w" where
  "editor_round S E InputStore OutputStore ShowMasterKeys OriginalHash tree w =
     (case run_editor E w of
        (None, _) \<Rightarrow> Inl (Inl CouldNotRunEditor)
      | (Some edited, w0) \<Rightarrow>
          if SHA256 E edited = OriginalHash then Inl (Inl FileHasNotChanged)
          else case store_LoadPlainFile InputStore edited of
              Inl _ \<Rightarrow> Inr (tree, w0)
            | Inr newBranches \<Rightarrow>
                (case Now S w0 of (now, w1) \<Rightarrow>
                   (case (if ShowMasterKeys
                          then (case store_LoadEncryptedFile InputStore now edited of Inl _ \<Rightarrow> None | Inr t \<Rightarrow> Some t)
                          else (case (validateFileForEncryption OutputStore newBranches :: ('e, 'c) failure + unit) of
                                  Inl _ \<Rightarrow> None | Inr _ \<Rightarrow> Some tree)) of
                      None \<Rightarrow> Inr (tree, w1)
                    | Some t \<Rightarrow>
                        let t1 = t\<lparr>Branches := newBranches\<rparr>
                        in case AIsNewerThanB S sops_Version (SopsVersion (TreeMetadata t1)) of
                            None \<Rightarrow> Inl (Inl CouldNotCompareVersions)
                          | Some needVersionUpdated \<Rightarrow>
                              let t2 = (if needVersionUpdated
                                        then t1\<lparr>TreeMetadata := (TreeMetadata t1)\<lparr>SopsVersion := sops_Version\<rparr>\<rparr> else t1);
                                  tree' = (if ShowMasterKeys then tree else t2)
                              in if MasterKeyCount (TreeMetadata t2) = 0 then Inr (tree', w1)
                                 else Inl (Inr (tree', w1)))))"

text \<open>The loop, for at most so many rounds; \<^const>\<open>None\<close> when the user is still editing.\<close>

fun runEditorUntilOk ::
    "nat \<Rightarrow> ('w, 'c, 's) cmd_env \<Rightarrow> 'w editor \<Rightarrow> 'e store \<Rightarrow> 'e store \<Rightarrow> bool \<Rightarrow> string \<Rightarrow> Tree \<Rightarrow> 'w
      \<Rightarrow> (('e, 'c) failure + Tree \<times> 'w) option" where
  "runEditorUntilOk 0 S E InputStore OutputStore ShowMasterKeys OriginalHash tree w = None"
| "runEditorUntilOk (Suc n) S E InputStore OutputStore ShowMasterKeys OriginalHash tree w =
     (case editor_round S E InputStore OutputStore ShowMasterKeys OriginalHash tree w of
        Inl r \<Rightarrow> Some r
      | Inr (tree', w') \<Rightarrow> runEditorUntilOk n S E InputStore OutputStore ShowMasterKeys OriginalHash tree' w')"

definition editTree ::
    "nat \<Rightarrow> ('w, 'c, 's) cmd_env \<Rightarrow> 'w editor \<Rightarrow> 'e store \<Rightarrow> 'e store \<Rightarrow> bool \<Rightarrow> Tree \<Rightarrow> string \<Rightarrow> ('w, 's) run
      \<Rightarrow> (('e, 'c) failure + string \<times> ('w, 's) run) option" where
  "editTree fuel S E InputStore OutputStore ShowMasterKeys tree dataKey st =
     (case (if ShowMasterKeys then store_EmitEncryptedFile OutputStore tree
            else store_EmitPlainFile OutputStore (Branches tree)) of
        Inl e \<Rightarrow> Some (Inl (CouldNotMarshal e))
      | Inr out \<Rightarrow>
          map_option (\<lambda>r.
            bindE r (\<lambda>(tree', w).
              bindE (EncryptTree S dataKey tree' (st\<lparr>world := w\<rparr>)) (\<lambda>(tree'', st').
                bindE (marshal OutputStore tree'') (\<lambda>encryptedFile. Inr (encryptedFile, st')))))
            (runEditorUntilOk fuel S E InputStore OutputStore ShowMasterKeys (SHA256 E out) tree (world st)))"

definition edit_file ::
    "nat \<Rightarrow> ('w, 'c, 's) cmd_env \<Rightarrow> 'w editor \<Rightarrow> 'e store \<Rightarrow> 'e store \<Rightarrow> bool \<Rightarrow> bool \<Rightarrow> string option
      \<Rightarrow> string option \<Rightarrow> ('w, 's) run \<Rightarrow> (('e, 'c) failure + string \<times> ('w, 's) run) option" where
  "edit_file fuel S E InputStore OutputStore ShowMasterKeys IgnoreMAC fileBytes path st =
     (case decryptTree S InputStore IgnoreMAC fileBytes path st of
        Inl e \<Rightarrow> Some (Inl e)
      | Inr (dataKey, tree, st1) \<Rightarrow> editTree fuel S E InputStore OutputStore ShowMasterKeys tree dataKey st1)"

definition editExample ::
    "nat \<Rightarrow> ('w, 'c, 's) cmd_env \<Rightarrow> 'w editor \<Rightarrow> 'e store \<Rightarrow> 'e store \<Rightarrow> bool \<Rightarrow> encryptConfig
      \<Rightarrow> string option \<Rightarrow> ('w, 's) run \<Rightarrow> (('e, 'c) failure + string \<times> ('w, 's) run) option" where
  "editExample fuel S E InputStore OutputStore ShowMasterKeys config path st =
     (case bindE (store_EmitExample InputStore) (store_LoadPlainFile InputStore) of
        Inl e \<Rightarrow> Some (Inl (CouldNotUnmarshal e))
      | Inr branches \<Rightarrow>
          (case path of None \<Rightarrow> Some (Inl NoAbsolutePath)
           | Some p \<Rightarrow>
               (case GenerateTreeKey S \<lparr>TreeMetadata = metadataFromEncryptionConfig config,
                       Branches = branches, FilePath = p\<rparr> st of
                  Inl (CouldNotGenerateDataKey errs) \<Rightarrow> Some (Inl (CouldNotEncryptDataKey errs))
                | Inl NoRandomKey \<Rightarrow> Some (Inl (CouldNotEncryptDataKey []))
                | Inl e \<Rightarrow> Some (Inl e)
                | Inr (dataKey, tree, st1) \<Rightarrow>
                    editTree fuel S E InputStore OutputStore ShowMasterKeys tree dataKey st1)))"

section \<open>Formats\<close>

datatype Format = Binary | DotenvFormat | IniFormat | JsonFormat | YamlFormat | ProtowireFormat

definition stringToFormat :: "(string \<times> Format) list" where
  "stringToFormat =
     [(''binary'', Binary), (''dotenv'', DotenvFormat), (''ini'', IniFormat), (''json'', JsonFormat),
      (''yaml'', YamlFormat), (''protowire'', ProtowireFormat), (''pxf'', ProtowireFormat)]"

definition FormatFromString :: "string \<Rightarrow> Format" where
  "FormatFromString formatString =
     (case map_of stringToFormat formatString of None \<Rightarrow> Binary | Some f \<Rightarrow> f)"

definition IsYAMLFile :: "string \<Rightarrow> bool" where
  "IsYAMLFile path \<longleftrightarrow> has_suffix path ''.yaml'' \<or> has_suffix path ''.yml''"

definition IsJSONFile :: "string \<Rightarrow> bool" where "IsJSONFile path = has_suffix path ''.json''"
definition IsEnvFile :: "string \<Rightarrow> bool" where "IsEnvFile path = has_suffix path ''.env''"
definition IsIniFile :: "string \<Rightarrow> bool" where "IsIniFile path = has_suffix path ''.ini''"
definition IsPXFFile :: "string \<Rightarrow> bool" where "IsPXFFile path = has_suffix path ''.pxf''"

definition FormatForPath :: "string \<Rightarrow> Format" where
  "FormatForPath path =
     (if IsYAMLFile path then YamlFormat
      else if IsJSONFile path then JsonFormat
      else if IsEnvFile path then DotenvFormat
      else if IsIniFile path then IniFormat
      else if IsPXFFile path then ProtowireFormat
      else Binary)"

definition FormatForPathOrString :: "string \<Rightarrow> string \<Rightarrow> Format" where
  "FormatForPathOrString path format =
     (case map_of stringToFormat format of None \<Rightarrow> FormatForPath path | Some f \<Rightarrow> f)"

text \<open>The stores are the argument \<open>storeConstructors\<close>, a store for every format it has.\<close>

definition StoreForFormat :: "(Format \<times> 'e store) list \<Rightarrow> Format \<Rightarrow> 'e store option" where
  "StoreForFormat storeConstructors format =
     (case map_of storeConstructors format of
        Some s \<Rightarrow> Some s | None \<Rightarrow> map_of storeConstructors Binary)"

definition DefaultStoreForPath :: "(Format \<times> 'e store) list \<Rightarrow> string \<Rightarrow> 'e store option" where
  "DefaultStoreForPath storeConstructors path = StoreForFormat storeConstructors (FormatForPath path)"

definition DefaultStoreForPathOrFormat :: "(Format \<times> 'e store) list \<Rightarrow> string \<Rightarrow> string \<Rightarrow> 'e store option" where
  "DefaultStoreForPathOrFormat storeConstructors path format =
     StoreForFormat storeConstructors (FormatForPathOrString path format)"

section \<open>The packages encrypt and decrypt\<close>

text \<open>The fields of \<open>Options\<close> are those of \<^typ>\<open>encryptConfig\<close>; key services default to the local one,
  which is an argument. The key check precedes everything else.\<close>

definition encrypt_DataWithFormatContext ::
    "('w \<Rightarrow> bool \<times> 'w) \<Rightarrow> ('w, 'c, 's) cmd_env \<Rightarrow> 'e store \<Rightarrow> encryptConfig \<Rightarrow> string \<Rightarrow> ('w, 's) run
      \<Rightarrow> ('e, 'c) failure + string \<times> ('w, 's) run" where
  "encrypt_DataWithFormatContext ctxErr S store opts plaintext st =
     (case ctxErr (world st) of (cancelled, w) \<Rightarrow>
        if cancelled then Inl ContextCancelled
        else if config_KeyGroups opts = [] then Inl NoKeyGroup
        else case store_LoadPlainFile store plaintext of
            Inl e \<Rightarrow> Inl (CouldNotUnmarshal e)
          | Inr branches \<Rightarrow>
              bindE (GenerateTreeKeyCtx ctxErr S \<lparr>TreeMetadata = metadataFromEncryptionConfig opts,
                       Branches = branches, FilePath = ''''\<rparr> (st\<lparr>world := w\<rparr>)) (\<lambda>(dataKey, tree, st1).
                bindE (EncryptTree S dataKey tree st1) (\<lambda>(tree', st2).
                  bindE (marshal store tree') (\<lambda>out. Inr (out, st2)))))"

definition encrypt_DataWithFormat ::
    "('w, 'c, 's) cmd_env \<Rightarrow> 'e store \<Rightarrow> encryptConfig \<Rightarrow> string \<Rightarrow> ('w, 's) run
      \<Rightarrow> ('e, 'c) failure + string \<times> ('w, 's) run" where
  "encrypt_DataWithFormat S store opts plaintext st =
     (if config_KeyGroups opts = [] then Inl NoKeyGroup
      else case store_LoadPlainFile store plaintext of
          Inl e \<Rightarrow> Inl (CouldNotUnmarshal e)
        | Inr branches \<Rightarrow>
            bindE (GenerateTreeKey S \<lparr>TreeMetadata = metadataFromEncryptionConfig opts,
                     Branches = branches, FilePath = ''''\<rparr> st) (\<lambda>(dataKey, tree, st1).
              bindE (EncryptTree S dataKey tree st1) (\<lambda>(tree', st2).
                bindE (marshal store tree') (\<lambda>out. Inr (out, st2)))))"

definition options_of :: "Metadata \<Rightarrow> encryptConfig" where
  "options_of m =
     \<lparr>config_UnencryptedSuffix = UnencryptedSuffix m, config_EncryptedSuffix = EncryptedSuffix m,
      config_UnencryptedRegex = UnencryptedRegex m, config_EncryptedRegex = EncryptedRegex m,
      config_UnencryptedCommentRegex = UnencryptedCommentRegex m,
      config_EncryptedCommentRegex = EncryptedCommentRegex m,
      config_MACOnlyEncrypted = MACOnlyEncrypted m, config_KeyGroups = KeyGroups m,
      config_GroupThreshold = ShamirThreshold m\<rparr>"

definition UsingSameKeysAsWithFormat ::
    "('w, 'c, 's) cmd_env \<Rightarrow> 'e store \<Rightarrow> string \<Rightarrow> string \<Rightarrow> ('w, 's) run
      \<Rightarrow> ('e, 'c) failure + string \<times> ('w, 's) run" where
  "UsingSameKeysAsWithFormat S store plaintext ciphertextRef st =
     (case Now S (world st) of (now, w) \<Rightarrow>
        (case store_LoadEncryptedFile store now ciphertextRef of
           Inl e \<Rightarrow> Inl (CouldNotLoad e)
         | Inr refTree \<Rightarrow>
             encrypt_DataWithFormat S store (options_of (TreeMetadata refTree)) plaintext (st\<lparr>world := w\<rparr>)))"

definition UsingSameKeysAsWithFormatContext ::
    "('w \<Rightarrow> bool \<times> 'w) \<Rightarrow> ('w, 'c, 's) cmd_env \<Rightarrow> 'e store \<Rightarrow> string \<Rightarrow> string \<Rightarrow> ('w, 's) run
      \<Rightarrow> ('e, 'c) failure + string \<times> ('w, 's) run" where
  "UsingSameKeysAsWithFormatContext ctxErr S store plaintext ciphertextRef st =
     (case ctxErr (world st) of (cancelled, w0) \<Rightarrow>
        if cancelled then Inl ContextCancelled
        else case Now S w0 of (now, w) \<Rightarrow>
          (case store_LoadEncryptedFile store now ciphertextRef of
             Inl e \<Rightarrow> Inl (CouldNotLoad e)
           | Inr refTree \<Rightarrow>
               encrypt_DataWithFormatContext ctxErr S store (options_of (TreeMetadata refTree)) plaintext
                 (st\<lparr>world := w\<rparr>)))"

text \<open>Decryption with a context; \<open>GetDataKeyCtx\<close> uses no decryption order. Neither the version nor
  \<open>IgnoreMac\<close> plays a part.\<close>

definition decrypt_DataWithFormatContext ::
    "('w \<Rightarrow> bool \<times> 'w) \<Rightarrow> ('w, 'c, 's) cmd_env \<Rightarrow> 'e store \<Rightarrow> string \<Rightarrow> ('w, 's) run
      \<Rightarrow> ('e, 'c) failure + string \<times> ('w, 's) run" where
  "decrypt_DataWithFormatContext ctxErr S store ciphertext st =
     (case ctxErr (world st) of (cancelled, w0) \<Rightarrow>
        if cancelled then Inl ContextCancelled
        else case Now S w0 of (now, w) \<Rightarrow>
          (case store_LoadEncryptedFile store now ciphertext of
             Inl e \<Rightarrow> Inl (CouldNotLoad e)
           | Inr tree \<Rightarrow>
               (case GetDataKey ctxErr (KeyServices S) [] (TreeMetadata tree) w of
                  (Inl e, _, _) \<Rightarrow> Inl (CouldNotGetDataKey e)
                | (Inr key, _, w1) \<Rightarrow>
                    (case Tree_Decrypt (lib S) (Cipher S) key tree (cipher_of st) of
                       Inl e \<Rightarrow> Inl (ErrorDecryptingTree e)
                     | Inr (tree', mac, s) \<Rightarrow>
                         (case cipher_Decrypt (Cipher S) (MessageAuthenticationCode (TreeMetadata tree)) key
                                 (FormatRFC3339 (lib S) (LastModified (TreeMetadata tree))) s of
                            (Inl e, _) \<Rightarrow> Inl (CannotDecryptMac e)
                          | (Inr originalMac, s') \<Rightarrow>
                              if originalMac \<noteq> GStr mac then Inl (MacMismatch originalMac mac)
                              else bindE (dump store (Branches tree')) (\<lambda>out.
                                Inr (out, st\<lparr>world := w1, cipher_of := s'\<rparr>)))))))"

definition decrypt_DataWithFormat ::
    "('w, 'c, 's) cmd_env \<Rightarrow> 'e store \<Rightarrow> string \<Rightarrow> ('w, 's) run \<Rightarrow> ('e, 'c) failure + string \<times> ('w, 's) run" where
  "decrypt_DataWithFormat S store ciphertext st = decrypt_DataWithFormatContext background S store ciphertext st"

end
