(* ===== verification/Dotenv.thy ===== *)
theory Dotenv
  imports Metadata_Store
begin

text \<open>
  The dotenv store, \<open>src/stores/dotenv/store.go\<close>: reading and writing a file of lines, and the
  encrypted form, whose metadata are lines with the prefix \<open>sops_\<close>. The lemmas show that a file is a
  faithful text of its branch: reading what was written gives the branch back with every value as a
  string, and what was read can always be written.
\<close>

datatype dotenv_error =
    InvalidInputLine string
  | ComplexValue gkey
  | EmitNoBranch
  | OnlyStrings
  | DotenvMetadata store_error
  | DotenvMarshaling store_error

definition newline :: char where "newline = CHR 0x0A"
definition escaped_newline :: string where "escaped_newline = [CHR 0x5C, CHR ''n'']"

text \<open>One line of \<open>LoadPlainFile\<close>; an empty line adds nothing.\<close>

definition load_line :: "string \<Rightarrow> dotenv_error + treeitem option" where
  "load_line line =
     (case line of
        [] \<Rightarrow> Inr None
      | c # rest \<Rightarrow>
          if c = CHR ''#'' then Inr (Some (TreeItem (KComment \<lparr>CValue = rest, Inline = False\<rparr>) GNil))
          else case str_index line ''='' of
              None \<Rightarrow> Inl (InvalidInputLine line)
            | Some pos \<Rightarrow>
                Inr (Some (TreeItem (KStr (take pos line))
                  (GStr (str_replace escaped_newline [newline] (drop (pos + 1) line))))))"

definition dotenv_LoadPlainFile :: "string \<Rightarrow> dotenv_error + TreeBranches" where
  "dotenv_LoadPlainFile input =
     bindE (mapE load_line (str_split newline input))
       (\<lambda>items. Inr [List.map_filter (\<lambda>i. i) items])"

fun emit_line :: "golib \<Rightarrow> valfmt \<Rightarrow> treeitem \<Rightarrow> dotenv_error + string" where
  "emit_line L F (TreeItem k v) =
     (if IsComplexValue v then Inl (ComplexValue k)
      else case k of
          KComment c \<Rightarrow> Inr (''#'' @ CValue c @ [newline])
        | _ \<Rightarrow>
            Inr ((case k of KStr s \<Rightarrow> s | _ \<Rightarrow> SprintKey F k) @ ''='' @
                 (case v of GStr s \<Rightarrow> str_replace [newline] escaped_newline s | _ \<Rightarrow> ValToString L F v) @ [newline]))"

definition dotenv_EmitPlainFile :: "golib \<Rightarrow> valfmt \<Rightarrow> TreeBranches \<Rightarrow> dotenv_error + string" where
  "dotenv_EmitPlainFile L F branches =
     (case branches of
        [] \<Rightarrow> Inl EmitNoBranch
      | branch # _ \<Rightarrow> bindE (mapE (emit_line L F) branch) (\<lambda>ls. Inr (concat ls)))"

definition dotenv_LoadEncryptedFile ::
    "golib \<Rightarrow> mapstructure \<Rightarrow> gotime \<Rightarrow> string \<Rightarrow> dotenv_error + Tree" where
  "dotenv_LoadEncryptedFile L M now input =
     bindE (dotenv_LoadPlainFile input) (\<lambda>branches.
       case ExtractMetadata L M now MetadataFlattenFull branches of
         Inl e \<Rightarrow> Inl (DotenvMetadata e)
       | Inr (branches', metadata) \<Rightarrow>
           Inr \<lparr>TreeMetadata = metadata, Branches = branches', FilePath = ''''\<rparr>)"

definition dotenv_EmitEncryptedFile ::
    "golib \<Rightarrow> valfmt \<Rightarrow> mapstructure \<Rightarrow> Tree \<Rightarrow> dotenv_error + string" where
  "dotenv_EmitEncryptedFile L F M tree =
     (case SerializeMetadata L M MetadataFlattenFull tree of
        Inl e \<Rightarrow> Inl (DotenvMarshaling e)
      | Inr branches \<Rightarrow> dotenv_EmitPlainFile L F branches)"

fun dotenv_EmitValue :: "gval \<Rightarrow> dotenv_error + string" where
  "dotenv_EmitValue (GStr s) = Inr s"
| "dotenv_EmitValue v = Inl OnlyStrings"

definition dotenv_EmitExample :: "golib \<Rightarrow> valfmt \<Rightarrow> dotenv_error + string" where
  "dotenv_EmitExample L F = dotenv_EmitPlainFile L F ExampleFlatTree"

definition dotenv_HasSopsTopLevelKey :: "TreeBranch \<Rightarrow> bool" where
  "dotenv_HasSopsTopLevelKey branch =
     list_ex (\<lambda>b. case Key b of KStr key \<Rightarrow> has_prefix key SopsPrefix | _ \<Rightarrow> False) branch"

section \<open>Escaping\<close>

lemma str_replace_escape_Cons:
  "str_replace [newline] escaped_newline (c # s) =
    (if c = newline then escaped_newline else [c]) @ str_replace [newline] escaped_newline s"
proof (cases "c = newline")
  case True
  then show ?thesis using str_replace_step [of "[newline]" escaped_newline s] by simp
next
  case False
  then have "\<not> has_prefix (c # s) [newline]" by simp
  then show ?thesis using False by (simp add: str_replace_skip)
qed

lemma newline_neq [simp]: "newline \<noteq> CHR 0x5C" "CHR 0x5C \<noteq> newline" "newline \<noteq> CHR ''n''" "CHR ''n'' \<noteq> newline"
    "newline \<noteq> CHR ''#''" "newline \<noteq> CHR ''=''" "CHR ''#'' \<noteq> newline" "CHR ''='' \<noteq> newline"
  by (simp_all add: newline_def)

lemma newline_notin_escape [simp]: "newline \<notin> set escaped_newline"
  by (simp add: escaped_newline_def)

lemma prefix_escaped: "has_prefix (c # s) escaped_newline \<longleftrightarrow> c = CHR 0x5C \<and> has_prefix s ''n''"
  by (auto simp: escaped_newline_def)

lemma prefix_n_escaped: "\<not> has_prefix (escaped_newline @ s) ''n''"
  by (simp add: escaped_newline_def)

lemma escaped_newline_nonempty [simp]: "escaped_newline \<noteq> []"
  by (simp add: escaped_newline_def)

lemma escape_no_newline: "newline \<notin> set (str_replace [newline] escaped_newline s)"
proof (induction s)
  case (Cons c s)
  then show ?case by (cases "c = newline") (auto simp: str_replace_escape_Cons)
qed simp

text \<open>Texts without a backslash before an \<open>n\<close>.\<close>

fun no_escape :: "string \<Rightarrow> bool" where
  "no_escape (a # b # s) = (\<not> (a = CHR 0x5C \<and> b = CHR ''n'') \<and> no_escape (b # s))"
| "no_escape _ = True"

lemma unescape_escape:
  "no_escape s \<Longrightarrow> str_replace escaped_newline [newline] (str_replace [newline] escaped_newline s) = s"
proof (induction s)
  case (Cons c s)
  have IH: "str_replace escaped_newline [newline] (str_replace [newline] escaped_newline s) = s"
    using Cons by (cases s) auto
  show ?case
  proof (cases "c = newline")
    case True
    then show ?thesis using IH by (simp add: str_replace_escape_Cons str_replace_step)
  next
    case False
    have "\<not> has_prefix (c # str_replace [newline] escaped_newline s) escaped_newline"
    proof (cases s)
      case Nil
      then show ?thesis by (simp add: escaped_newline_def)
    next
      case (Cons d s')
      then show ?thesis using Cons.prems
        by (cases "d = newline") (auto simp: str_replace_escape_Cons prefix_escaped prefix_n_escaped)
    qed
    then show ?thesis using False IH
      by (simp add: str_replace_escape_Cons str_replace_skip)
  qed
qed simp

lemma unescape_no_escape: "no_escape (str_replace escaped_newline [newline] s)"
proof (induction "length s" arbitrary: s rule: less_induct)
  case less
  show ?case
  proof (cases "has_prefix s escaped_newline")
    case True
    then obtain t where s: "s = escaped_newline @ t" by (auto simp: prefix_def)
    have "no_escape (str_replace escaped_newline [newline] t)"
      using less [of t] s by (simp add: escaped_newline_def)
    moreover have "no_escape (newline # u)" if "no_escape u" for u
      using that by (cases u) (auto simp: newline_def)
    ultimately show ?thesis using s by (simp add: str_replace_step)
  next
    case False
    show ?thesis
    proof (cases s)
      case (Cons c t)
      have tail: "no_escape (str_replace escaped_newline [newline] t)" using less [of t] Cons by simp
      show ?thesis
      proof (cases t)
        case Nil
        then show ?thesis using Cons False by (simp add: str_replace_skip)
      next
        case (Cons d u)
        have "\<not> (c = CHR 0x5C \<and> d = CHR ''n'')" using False \<open>s = c # t\<close> Cons by (auto simp: escaped_newline_def)
        moreover have "\<exists>e v. str_replace escaped_newline [newline] t = e # v \<and> (e = d \<or> e = newline)"
        proof (cases "has_prefix t escaped_newline")
          case True
          then obtain w where "t = escaped_newline @ w" by (auto simp: prefix_def)
          then show ?thesis by (simp add: str_replace_step)
        next
          case False
          then show ?thesis using Cons by (simp add: str_replace_skip)
        qed
        ultimately show ?thesis using tail \<open>s = c # t\<close> False
          by (auto simp: str_replace_skip newline_def)
      qed
    qed simp
  qed
qed

section \<open>Reading what was written\<close>

definition value_text :: "golib \<Rightarrow> valfmt \<Rightarrow> gval \<Rightarrow> string" where
  "value_text L F v = (case v of GStr s \<Rightarrow> s | _ \<Rightarrow> ValToString L F v)"

fun is_GStr :: "gval \<Rightarrow> bool" where
  "is_GStr (GStr s) = True"
| "is_GStr v = False"

text \<open>The items a line can carry, and what reading makes of them.\<close>

fun line_ok :: "golib \<Rightarrow> valfmt \<Rightarrow> treeitem \<Rightarrow> bool" where
  "line_ok L F (TreeItem (KComment c) v) = (\<not> IsComplexValue v \<and> newline \<notin> set (CValue c))"
| "line_ok L F (TreeItem (KStr k) v) =
     (\<not> IsComplexValue v \<and> newline \<notin> set k \<and> CHR ''='' \<notin> set k \<and> \<not> has_prefix k ''#''
      \<and> no_escape (value_text L F v) \<and> (is_GStr v \<or> newline \<notin> set (value_text L F v)))"
| "line_ok L F item = False"

fun as_line :: "golib \<Rightarrow> valfmt \<Rightarrow> treeitem \<Rightarrow> treeitem" where
  "as_line L F (TreeItem (KComment c) v) = TreeItem (KComment \<lparr>CValue = CValue c, Inline = False\<rparr>) GNil"
| "as_line L F (TreeItem (KStr k) v) = TreeItem (KStr k) (GStr (value_text L F v))"
| "as_line L F item = item"

lemma unescape_plain: "no_escape s \<Longrightarrow> newline \<notin> set s \<Longrightarrow> str_replace escaped_newline [newline] s = s"
proof -
  assume "no_escape s" "newline \<notin> set s"
  moreover from this(2) have "str_replace [newline] escaped_newline s = s"
    by (induction s) (auto simp: str_replace_escape_Cons)
  ultimately show ?thesis using unescape_escape by metis
qed

lemma str_index_equals: "CHR ''='' \<notin> set k \<Longrightarrow> str_index (k @ CHR ''='' # s) ''='' = Some (length k)"
  by (rule str_index_first)

lemma load_pair:
  assumes "CHR ''='' \<notin> set k" "\<not> has_prefix k ''#''"
  shows "load_line (k @ CHR ''='' # s) = Inr (Some (TreeItem (KStr k) (GStr (str_replace escaped_newline [newline] s))))"
  using assms str_index_equals [OF assms(1), of s]
  by (cases k) (auto simp: load_line_def)

lemma load_emit_line:
  assumes "line_ok L F item"
  shows "\<exists>line. emit_line L F item = Inr (line @ [newline]) \<and> newline \<notin> set line \<and> line \<noteq> []
    \<and> load_line line = Inr (Some (as_line L F item))"
proof (cases "(L, F, item)" rule: line_ok.cases)
  case (1 L' F' c v)
  with assms show ?thesis by (auto simp: load_line_def)
next
  case (2 L' F' k v)
  then have [simp]: "L' = L" "F' = F" by simp_all
  define out where "out = (case v of GStr s \<Rightarrow> str_replace [newline] escaped_newline s | _ \<Rightarrow> ValToString L F v)"
  have "newline \<notin> set out \<and> str_replace escaped_newline [newline] out = value_text L F v"
  proof (cases "is_GStr v")
    case True
    then obtain s where "v = GStr s" by (cases v) auto
    with assms 2 show ?thesis by (simp add: out_def value_text_def escape_no_newline unescape_escape)
  next
    case False
    then have "out = value_text L F v" by (cases v) (simp_all add: out_def value_text_def)
    with assms 2 False show ?thesis by (simp add: unescape_plain)
  qed
  then have "emit_line L F item = Inr ((k @ CHR ''='' # out) @ [newline]) \<and> newline \<notin> set (k @ CHR ''='' # out)
      \<and> load_line (k @ CHR ''='' # out) = Inr (Some (as_line L F item))"
    using assms 2 by (simp add: load_pair out_def)
  then show ?thesis by blast
qed (use assms in simp_all)

lemma load_emit_lines:
  assumes "\<forall>item\<in>set branch. line_ok L F item"
  shows "\<exists>ls. mapE (emit_line L F) branch = Inr ls
    \<and> mapE load_line (str_split newline (concat ls)) = Inr (map (Some \<circ> as_line L F) branch @ [None])"
  using assms
proof (induction branch)
  case (Cons item branch)
  then obtain ls where ls: "mapE (emit_line L F) branch = Inr ls"
      "mapE load_line (str_split newline (concat ls)) = Inr (map (Some \<circ> as_line L F) branch @ [None])" by auto
  obtain line where line: "emit_line L F item = Inr (line @ [newline])" "newline \<notin> set line"
      "load_line line = Inr (Some (as_line L F item))"
    using load_emit_line [of L F item] Cons.prems by auto
  have "str_split newline (concat ((line @ [newline]) # ls)) = line # str_split newline (concat ls)"
    using str_split_append [OF line(2)] by simp
  with ls line show ?case by (intro exI [of _ "(line @ [newline]) # ls"]) simp
qed (simp add: load_line_def)

lemma map_filter_Some: "List.map_filter (\<lambda>i. i) (map (Some \<circ> f) xs @ [None]) = map f xs"
  by (induction xs) (simp_all add: List.map_filter_simps)

lemma load_emit_plain:
  assumes "\<forall>item\<in>set branch. line_ok L F item"
  shows "\<exists>out. dotenv_EmitPlainFile L F (branch # rest) = Inr out
    \<and> dotenv_LoadPlainFile out = Inr [map (as_line L F) branch]"
  using load_emit_lines [OF assms]
  by (auto simp: dotenv_EmitPlainFile_def dotenv_LoadPlainFile_def map_filter_Some)

text \<open>What \<open>LoadPlainFile\<close> returns consists of lines.\<close>

lemma load_line_ok:
  assumes "load_line line = Inr (Some item)" "newline \<notin> set line"
  shows "line_ok L F item \<and> as_line L F item = item"
proof (cases line)
  case (Cons c rest)
  show ?thesis
  proof (cases "c = CHR ''#''")
    case True
    with assms Cons show ?thesis by (auto simp: load_line_def)
  next
    case False
    then obtain pos where pos: "str_index line ''='' = Some pos"
        "item = TreeItem (KStr (take pos line)) (GStr (str_replace escaped_newline [newline] (drop (pos + 1) line)))"
      using assms Cons by (auto simp: load_line_def split: option.splits)
    have "CHR ''='' \<notin> set (take pos line)" using pos(1)
    proof (induction line arbitrary: pos)
      case Nil
      then show ?case by simp
    next
      case (Cons d l)
      then show ?case by (subst (asm) (2) str_index.simps) (auto split: if_splits simp: take_Cons')
    qed
    moreover have "newline \<notin> set (take pos line)" using assms(2) by (meson in_set_takeD)
    moreover have "\<not> has_prefix (take pos line) ''#''" using Cons False by (cases pos) auto
    ultimately show ?thesis using pos(2) unescape_no_escape
      by (simp add: value_text_def)
  qed
qed (use assms in \<open>auto simp: load_line_def\<close>)

lemma load_plain_ok:
  assumes "dotenv_LoadPlainFile input = Inr branches"
  shows "\<exists>branch. branches = [branch] \<and> (\<forall>item\<in>set branch. line_ok L F item \<and> as_line L F item = item)"
proof -
  obtain items where items: "mapE load_line (str_split newline input) = Inr items"
      "branches = [List.map_filter (\<lambda>i. i) items]"
    using assms by (auto simp: dotenv_LoadPlainFile_def)
  have "line_ok L F item \<and> as_line L F item = item" if item: "Some item \<in> set items" for item
  proof -
    obtain i where "i < length items" "items ! i = Some item" using item by (auto simp: in_set_conv_nth)
    with items(1) have "load_line (str_split newline input ! i) = Inr (Some item)" "i < length (str_split newline input)"
      using mapE_nth mapE_length by metis+
    then show ?thesis using load_line_ok str_split_no_sep_in nth_mem by metis
  qed
  then show ?thesis using items(2) by (auto simp: List.map_filter_def)
qed

text \<open>Whatever a dotenv file holds: if it can be read, what was read can be written, and reading
  that out gives the same branch again. Blank lines are the only thing lost.\<close>

lemma dotenv_rewrite:
  assumes "dotenv_LoadPlainFile input = Inr branches"
  shows "\<exists>out. dotenv_EmitPlainFile L F branches = Inr out \<and> dotenv_LoadPlainFile out = Inr branches"
proof -
  obtain branch where b: "branches = [branch]" "\<forall>item\<in>set branch. line_ok L F item"
      "\<forall>item\<in>set branch. as_line L F item = item"
    using load_plain_ok [OF assms, of L F] by auto
  from load_emit_plain [OF b(2), of "[]"] b show ?thesis by (simp add: map_idI)
qed

lemma load_plain_example:
  "dotenv_LoadPlainFile (''A=x'' @ escaped_newline @ ''y'' @ [newline, newline] @ ''# note'' @ [newline]) =
    Inr [[TreeItem (KStr ''A'') (GStr [CHR ''x'', newline, CHR ''y'']),
          TreeItem (KComment \<lparr>CValue = '' note'', Inline = False\<rparr>) GNil]]"
  by code_simp

lemma dotenv_rewrite_witness:
  "\<forall>L F. \<exists>out. dotenv_EmitPlainFile L F
      [[TreeItem (KStr ''A'') (GStr [CHR ''x'', newline, CHR ''y'']),
        TreeItem (KComment \<lparr>CValue = '' note'', Inline = False\<rparr>) GNil]] = Inr out
    \<and> dotenv_LoadPlainFile out = dotenv_LoadPlainFile (''A=x'' @ escaped_newline @ ''y'' @ [newline, newline] @ ''# note'' @ [newline])"
  using dotenv_rewrite [OF load_plain_example] load_plain_example by simp

end
