(* ===== verification/Flatten_Correct.thy ===== *)
theory Flatten_Correct
  imports Flatten
begin

text \<open>
  Correctness of \<open>Flatten\<close>. A tree without empty containers is, for the flat form, the list of its
  leaves with their paths (\<open>leaves\<close>). Three facts carry the round trip: \<open>tokenize\<close> reads the
  text of a path back, \<open>flattenTreeBranch\<close> lists the leaves, and placing the leaves builds a node
  (\<open>node_of\<close>) that \<open>convert\<close> turns into the tree with sorted keys (\<open>normal\<close>).
\<close>

section \<open>Tokens\<close>

text \<open>The scanner on what is left of the path, the text of the current token beside it.\<close>

definition token_of :: "token_state \<Rightarrow> string \<Rightarrow> flat_token" where
  "token_of state cur = (case state of StateList \<Rightarrow> ListToken (atoi_value cur) | _ \<Rightarrow> MapToken cur)"

definition sep_length :: "token_state \<Rightarrow> nat" where
  "sep_length state = (case state of StateNormal \<Rightarrow> 0 | StateMap \<Rightarrow> 6 | StateList \<Rightarrow> 7)"

function scan :: "token_state \<Rightarrow> string \<Rightarrow> string \<Rightarrow> flat_token list" where
  "scan state cur s =
     (case s of
        [] \<Rightarrow> [token_of state cur]
      | c # cs \<Rightarrow>
          if has_prefix s mapSeparator then token_of state cur # scan StateMap [] (drop 6 s)
          else if has_prefix s listSeparator then token_of state cur # scan StateList [] (drop 7 s)
          else scan state (cur @ [c]) cs)"
  by pat_completeness auto
termination
  by (relation "measure (\<lambda>(state, cur, s). length s)") auto

declare scan.simps [simp del]

lemma separator_length [simp]: "length mapSeparator = 6" "length listSeparator = 7"
  by (simp_all add: mapSeparator_def listSeparator_def)

lemma finishPrevToken_token_of:
  "finishPrevToken path state lastTokenEnd i = token_of state (slice path (lastTokenEnd + sep_length state) i)"
  by (cases state) (simp_all add: finishPrevToken_def token_of_def sep_length_def)

lemma slice_empty [simp]: "slice s a a = []"
  by (simp add: slice_def)

lemma slice_Suc: "a \<le> i \<Longrightarrow> i < length s \<Longrightarrow> slice s a (Suc i) = slice s a i @ [s ! i]"
  by (simp add: slice_def Suc_diff_le take_Suc_conv_app_nth)

lemma prefix_drop_bound: "has_prefix (drop i s) p \<Longrightarrow> i \<le> length s \<Longrightarrow> i + length p \<le> length s"
  by (auto dest: prefix_length_le)

lemma tokenize_loop_scan:
  assumes "i \<le> length path" "lastTokenEnd + sep_length state \<le> i"
  shows "tokenize_loop path state lastTokenEnd i tokens =
    tokens @ scan state (slice path (lastTokenEnd + sep_length state) i) (drop i path)"
  using assms
proof (induction path state lastTokenEnd i tokens rule: tokenize_loop.induct)
  case (1 path state lastTokenEnd i tokens)
  show ?case
  proof (cases "i < length path")
    case True
    then obtain c cs where rest: "drop i path = c # cs" "path ! i = c" "cs = drop (Suc i) path"
      by (metis Cons_nth_drop_Suc)
    consider "has_prefix (drop i path) mapSeparator"
      | "\<not> has_prefix (drop i path) mapSeparator" "has_prefix (drop i path) listSeparator"
      | "\<not> has_prefix (drop i path) mapSeparator" "\<not> has_prefix (drop i path) listSeparator"
      by blast
    then show ?thesis
    proof cases
      case 1
      then have "i + 6 \<le> length path" using prefix_drop_bound [OF 1] True by simp
      then show ?thesis
        using "1.IH"(1) [OF True 1] 1 True rest
        by (subst tokenize_loop.simps, subst scan.simps)
          (simp add: finishPrevToken_token_of sep_length_def add.commute split: list.split)
    next
      case 2
      then have "i + 7 \<le> length path" using prefix_drop_bound [OF 2(2)] True by simp
      then show ?thesis
        using "1.IH"(2) [OF True 2] 2 True rest
        by (subst tokenize_loop.simps, subst scan.simps)
          (simp add: finishPrevToken_token_of sep_length_def add.commute split: list.split)
    next
      case 3
      then show ?thesis
        using "1.IH"(3) [OF True 3] True rest "1.prems" slice_Suc [of "lastTokenEnd + sep_length state" i path]
        by (subst tokenize_loop.simps, subst scan.simps) (simp split: list.split)
    qed
  next
    case False
    then show ?thesis using "1.prems"
      by (subst tokenize_loop.simps, subst scan.simps) (simp add: finishPrevToken_token_of)
  qed
qed

lemma tokenize_scan: "tokenize path = scan StateNormal [] path"
  using tokenize_loop_scan [of 0 path 0 StateNormal "[]"] by (simp add: tokenize_def sep_length_def)

text \<open>A key the separators cannot confuse: no separator inside it, nor across its end and the
  underscore with which every separator begins.\<close>

fun sep_free :: "string \<Rightarrow> bool" where
  "sep_free [] = True"
| "sep_free (c # k) =
     (\<not> has_prefix ((c # k) @ ''_'') mapSeparator \<and> \<not> has_prefix ((c # k) @ ''_'') listSeparator \<and> sep_free k)"

definition follows :: "string \<Rightarrow> bool" where
  "follows s \<longleftrightarrow> s = [] \<or> has_prefix s mapSeparator \<or> has_prefix s listSeparator"

lemma sep_free_step:
  assumes "sep_free (c # k)" "follows s"
  shows "\<not> has_prefix (c # k @ s) mapSeparator \<and> \<not> has_prefix (c # k @ s) listSeparator"
proof -
  consider "s = []" | r where "s = mapSeparator @ r" | r where "s = listSeparator @ r"
    using assms(2) by (auto simp: follows_def prefix_def)
  then show ?thesis using assms(1)
    by cases (auto simp: mapSeparator_def listSeparator_def prefix_Cons prefix_append Cons_eq_append_conv)
qed

lemma scan_key: "sep_free k \<Longrightarrow> follows s \<Longrightarrow> scan state cur (k @ s) = scan state (cur @ k) s"
proof (induction k arbitrary: cur)
  case (Cons c k)
  then show ?case using sep_free_step [OF Cons.prems] by (subst scan.simps) simp
qed simp

lemma scan_Nil [simp]: "scan state cur [] = [token_of state cur]"
  by (subst scan.simps) simp

lemma scan_separator [simp]:
  "scan state cur (mapSeparator @ s) = token_of state cur # scan StateMap [] s"
  "scan state cur (listSeparator @ s) = token_of state cur # scan StateList [] s"
  by (subst scan.simps, simp add: mapSeparator_def listSeparator_def)+

lemma sep_free_plain: "CHR ''_'' \<notin> set k \<Longrightarrow> sep_free k"
  by (induction k) (auto simp: mapSeparator_def listSeparator_def)

lemma nat_dec_no_underscore: "CHR ''_'' \<notin> set (nat_dec n)"
proof
  assume "CHR ''_'' \<in> set (nat_dec n)"
  then obtain d where "d < 10" "CHR ''_'' = digit_char d" using nat_dec_digits by blast
  then have "char_digit CHR ''_'' = Some d" by simp
  then show False by (simp add: char_digit_def)
qed

lemma sep_free_itoa [simp]: "sep_free (itoa i)"
  using nat_dec_no_underscore by (intro sep_free_plain) (auto simp: itoa_def)

text \<open>The text of a path: every token after its separator.\<close>

fun path_text :: "flat_token list \<Rightarrow> string" where
  "path_text [] = []"
| "path_text (MapToken k # p) = mapSeparator @ k @ path_text p"
| "path_text (ListToken i # p) = listSeparator @ itoa i @ path_text p"

fun good_token :: "flat_token \<Rightarrow> bool" where
  "good_token (MapToken k) = sep_free k"
| "good_token (ListToken i) = (0 \<le> i \<and> i \<le> max_int64)"

lemma follows_path_text [simp]: "follows (path_text p)"
  by (cases p rule: path_text.cases) (simp_all add: follows_def)

lemma scan_path: "\<forall>t\<in>set p. good_token t \<Longrightarrow> scan state cur (path_text p) = token_of state cur # p"
proof (induction p arbitrary: state cur rule: path_text.induct)
  case (2 k p)
  then show ?case by (simp add: scan_key token_of_def)
next
  case (3 i p)
  then have "atoi_value (itoa i) = i" by (intro atoi_value_itoa) (auto simp: min_int64_def)
  with 3 show ?case by (simp add: scan_key token_of_def)
qed simp

text \<open>The first separator is left out at the top.\<close>

fun key_text :: "flat_token list \<Rightarrow> string" where
  "key_text [] = []"
| "key_text (MapToken k # p) = k @ path_text p"
| "key_text (ListToken i # p) = itoa i @ path_text p"

lemma tokenize_key_text:
  "\<forall>t\<in>set (MapToken k # p). good_token t \<Longrightarrow> tokenize (key_text (MapToken k # p)) = MapToken k # p"
  by (simp add: tokenize_scan scan_key scan_path token_of_def)

lemma path_text_inj:
  assumes "path_text p = path_text q" "\<forall>t\<in>set p. good_token t" "\<forall>t\<in>set q. good_token t"
  shows "p = q"
  using scan_path [OF assms(2), of StateNormal "[]"] scan_path [OF assms(3), of StateNormal "[]"] assms(1)
  by (metis list.inject)

section \<open>The leaves of a tree\<close>

fun entry :: "treeitem \<Rightarrow> (string \<times> gval) option" where
  "entry (TreeItem (KStr k) v) = Some (k, v)"
| "entry (TreeItem _ v) = None"

definition entries :: "TreeBranch \<Rightarrow> (string \<times> gval) list" where
  "entries b = List.map_filter entry b"

definition elems :: "gval list \<Rightarrow> gval list" where
  "elems vs = filter (\<lambda>v. \<not> is_comment v) vs"

lemma entries_simps [simp]:
  "entries [] = []"
  "entries (TreeItem (KStr k) v # b) = (k, v) # entries b"
  "entries (TreeItem (KComment c) v # b) = entries b"
  by (simp_all add: entries_def List.map_filter_simps)

lemma elems_simps [simp]:
  "elems [] = []"
  "elems (v # vs) = (if is_comment v then elems vs else v # elems vs)"
  by (simp_all add: elems_def)

lemma entries_size [termination_simp]: "(k, v) \<in> set (entries b) \<Longrightarrow> size v < Suc (size_list size b)"
proof (induction b)
  case (Cons item b)
  then show ?case by (cases item rule: entry.cases) (auto simp: entries_def List.map_filter_simps)
qed simp

lemma elems_size [termination_simp]: "v \<in> set (elems vs) \<Longrightarrow> size v < Suc (size_list size vs)"
  by (induction vs) (auto split: if_splits)

lemma enumerate_elems_size [termination_simp]:
  "(i, v) \<in> set (List.enumerate n (elems vs)) \<Longrightarrow> size v < Suc (size_list size vs)"
  by (auto simp: in_set_enumerate_eq intro!: elems_size nth_mem)

fun leaves :: "gval \<Rightarrow> (flat_token list \<times> gval) list" where
  "leaves (GBranch b) = concat (map (\<lambda>(k, v). map (apfst (Cons (MapToken k))) (leaves v)) (entries b))"
| "leaves (GSlice vs) =
     concat (map (\<lambda>(i, v). map (apfst (Cons (ListToken (int i)))) (leaves v)) (List.enumerate 0 (elems vs)))"
| "leaves v = [([], v)]"

text \<open>The trees of the round trip: keys are strings or comments, distinct and \<open>sep_free\<close>; no
  container is empty once its comments are gone.\<close>

fun string_key :: "treeitem \<Rightarrow> bool" where
  "string_key (TreeItem k v) = (case k of KStr _ \<Rightarrow> True | KComment _ \<Rightarrow> True | _ \<Rightarrow> False)"

fun flat_ok :: "gval \<Rightarrow> bool" where
  "flat_ok (GBranch b) =
     (list_all string_key b \<and> distinct (map fst (entries b)) \<and> entries b \<noteq> []
      \<and> (\<forall>(k, v)\<in>set (entries b). sep_free k \<and> flat_ok v))"
| "flat_ok (GSlice vs) =
     (elems vs \<noteq> [] \<and> int (length (elems vs)) \<le> max_int64 \<and> (\<forall>v\<in>set (elems vs). flat_ok v))"
| "flat_ok v = True"

text \<open>What flattening itself asks of a tree.\<close>

fun string_keys :: "gval \<Rightarrow> bool" where
  "string_keys (GBranch b) = (list_all string_key b \<and> (\<forall>(k, v)\<in>set (entries b). string_keys v))"
| "string_keys (GSlice vs) = (\<forall>v\<in>set (elems vs). string_keys v)"
| "string_keys v = True"

text \<open>Flattening leaves no trace of a container without leaves. In a map its key is gone.\<close>

fun hollow :: "gval \<Rightarrow> bool" where
  "hollow (GBranch b) = (\<forall>(k, v)\<in>set (entries b). hollow v)"
| "hollow (GSlice vs) = (\<forall>v\<in>set (elems vs). hollow v)"
| "hollow v = False"

fun prune :: "gval \<Rightarrow> gval" where
  "prune (GBranch b) =
     GBranch (map (\<lambda>(k, v). TreeItem (KStr k) (prune v)) (filter (\<lambda>(k, v). \<not> hollow v) (entries b)))"
| "prune (GSlice vs) = GSlice (map prune (elems vs))"
| "prune v = v"

lemma hollow_leaves: "hollow v \<Longrightarrow> leaves v = []"
  by (induction v rule: leaves.induct) (auto simp: in_set_enumerate_eq)

lemma entries_items [simp]: "entries (map (\<lambda>(k, v). TreeItem (KStr k) (f k v)) kvs) = map (\<lambda>(k, v). (k, f k v)) kvs"
  by (induction kvs) auto

lemma prune_comment [simp]: "is_comment (prune v) = is_comment v"
  by (cases v) auto

lemma elems_map_prune [simp]: "elems (map prune (elems vs)) = map prune (elems vs)"
  by (induction vs) auto

lemma concat_map_filter: "\<forall>x\<in>set xs. \<not> P x \<longrightarrow> f x = [] \<Longrightarrow> concat (map f (filter P xs)) = concat (map f xs)"
  by (induction xs) auto

lemma enumerate_map: "List.enumerate n (map f xs) = map (\<lambda>(i, x). (i, f x)) (List.enumerate n xs)"
  by (induction xs arbitrary: n) auto

lemma leaves_prune: "leaves (prune v) = leaves v"
proof (induction v rule: leaves.induct)
  case (1 b)
  then have "map (\<lambda>(k, v). map (apfst (Cons (MapToken k))) (leaves (prune v))) (filter (\<lambda>(k, v). \<not> hollow v) (entries b))
      = map (\<lambda>(k, v). map (apfst (Cons (MapToken k))) (leaves v)) (filter (\<lambda>(k, v). \<not> hollow v) (entries b))"
    by auto
  moreover have "concat (map (\<lambda>(k, v). map (apfst (Cons (MapToken k))) (leaves v)) (filter (\<lambda>(k, v). \<not> hollow v) (entries b)))
      = concat (map (\<lambda>(k, v). map (apfst (Cons (MapToken k))) (leaves v)) (entries b))"
    by (rule concat_map_filter) (auto simp: hollow_leaves)
  moreover have "leaves (prune (GBranch b)) =
      concat (map (\<lambda>(k, v). map (apfst (Cons (MapToken k))) (leaves (prune v))) (filter (\<lambda>(k, v). \<not> hollow v) (entries b)))"
    by simp (simp add: comp_def case_prod_unfold)
  ultimately show ?case by (simp only: leaves.simps(1))
next
  case (2 vs)
  then have "map (\<lambda>(i, v). map (apfst (Cons (ListToken (int i)))) (leaves (prune v))) (List.enumerate 0 (elems vs))
      = map (\<lambda>(i, v). map (apfst (Cons (ListToken (int i)))) (leaves v)) (List.enumerate 0 (elems vs))"
    by auto
  moreover have "leaves (prune (GSlice vs)) =
      concat (map (\<lambda>(i, v). map (apfst (Cons (ListToken (int i)))) (leaves (prune v))) (List.enumerate 0 (elems vs)))"
    by (simp add: enumerate_map comp_def case_prod_unfold)
  ultimately show ?case by (simp only: leaves.simps(2))
qed auto

lemma leaves_nonempty: "flat_ok v \<Longrightarrow> leaves v \<noteq> []"
proof (induction v rule: leaves.induct)
  case (1 b)
  then obtain k v where "(k, v) \<in> set (entries b)" by (cases "entries b") auto
  with 1 show ?case by (auto simp: concat_eq_Nil_conv intro!: bexI [of _ "(k, v)"])
next
  case (2 vs)
  then have "hd (elems vs) \<in> set (elems vs)" "(0, hd (elems vs)) \<in> set (List.enumerate 0 (elems vs))"
    by (auto simp: in_set_enumerate_eq hd_conv_nth)
  with 2 show ?case by (auto simp: concat_eq_Nil_conv intro!: bexI [of _ "(0, hd (elems vs))"])
qed auto

lemma leaves_good: "flat_ok v \<Longrightarrow> (p, x) \<in> set (leaves v) \<Longrightarrow> t \<in> set p \<Longrightarrow> good_token t"
proof (induction v arbitrary: p x rule: leaves.induct)
  case (2 vs)
  then show ?case
    by (fastforce simp: in_set_enumerate_eq)
qed (auto | fastforce)+

lemma distinct_concat_cons:
  assumes "distinct (map f xs)" "\<And>x. x \<in> set xs \<Longrightarrow> distinct (g x)"
    and "\<And>x p. x \<in> set xs \<Longrightarrow> p \<in> set (g x) \<Longrightarrow> \<exists>q. p = f x # q"
  shows "distinct (concat (map g xs))"
  using assms
proof (induction xs)
  case (Cons x xs)
  have "p \<notin> set (g y)" if "y \<in> set xs" "p \<in> set (g x)" for y p
    using Cons.prems(1) Cons.prems(3) [of x p] Cons.prems(3) [of y p] that by fastforce
  then have "set (g x) \<inter> set (concat (map g xs)) = {}" by auto
  with Cons show ?case by simp
qed simp

lemma leaves_distinct: "flat_ok v \<Longrightarrow> distinct (map fst (leaves v))"
proof (induction v rule: leaves.induct)
  case (1 b)
  have step: "distinct (map fst (map (apfst (Cons (MapToken k))) (leaves v)))" if "(k, v) \<in> set (entries b)" for k v
    using 1 that by (force simp: comp_def distinct_map inj_on_def)
  have keys: "distinct (map (MapToken \<circ> fst) (entries b))"
    using "1.prems" by (auto simp: distinct_map inj_on_def)
  have "distinct (concat (map (\<lambda>(k, v). map fst (map (apfst (Cons (MapToken k))) (leaves v))) (entries b)))"
    by (rule distinct_concat_cons [OF keys]) (use step in auto)
  then show ?case by (simp add: map_concat comp_def case_prod_unfold)
next
  case (2 vs)
  have step: "distinct (map fst (map (apfst (Cons (ListToken (int i)))) (leaves v)))"
    if "(i, v) \<in> set (List.enumerate 0 (elems vs))" for i v
    using 2 that by (force simp: comp_def distinct_map inj_on_def in_set_enumerate_eq)
  have keys: "distinct (map (ListToken \<circ> int \<circ> fst) (List.enumerate 0 (elems vs)))"
    by (auto simp: distinct_map inj_on_def in_set_enumerate_eq)
  have "distinct (concat (map (\<lambda>(i, v). map fst (map (apfst (Cons (ListToken (int i)))) (leaves v)))
      (List.enumerate 0 (elems vs))))"
    by (rule distinct_concat_cons [OF keys]) (use step in auto)
  then show ?case by (simp add: map_concat comp_def case_prod_unfold)
qed auto

section \<open>Flattening lists the leaves\<close>

definition flat_items :: "string \<Rightarrow> (flat_token list \<times> gval) list \<Rightarrow> TreeBranch" where
  "flat_items pre L = map (\<lambda>(p, v). TreeItem (KStr (pre @ path_text p)) v) L"

definition flat_keys :: "string \<Rightarrow> (flat_token list \<times> gval) list \<Rightarrow> string list" where
  "flat_keys pre L = map (\<lambda>(p, v). pre @ path_text p) L"

lemma flat_prefix [simp]:
  "flat_items pre (map (apfst (Cons (MapToken k))) L) = flat_items (pre @ mapSeparator @ k) L"
  "flat_keys pre (map (apfst (Cons (MapToken k))) L) = flat_keys (pre @ mapSeparator @ k) L"
  "flat_items pre (map (apfst (Cons (ListToken i))) L) = flat_items (pre @ listSeparator @ itoa i) L"
  "flat_keys pre (map (apfst (Cons (ListToken i))) L) = flat_keys (pre @ listSeparator @ itoa i) L"
  by (simp_all add: flat_items_def flat_keys_def case_prod_unfold)

lemma flat_concat [simp]:
  "flat_items pre (concat Ls) = concat (map (flat_items pre) Ls)"
  "flat_keys pre (concat Ls) = concat (map (flat_keys pre) Ls)"
  by (simp_all add: flat_items_def [abs_def] flat_keys_def [abs_def] map_concat)

lemma flattenDescendMap_entries:
  "list_all string_key b \<Longrightarrow> flattenDescendMap b pfx destination taken =
    foldE (\<lambda>(k, v) (d, t). flattenDescendValue v (pfx @ k) d t) (entries b) (destination, taken)"
proof (induction b arbitrary: destination taken)
  case (Cons item b)
  then show ?case by (cases item rule: entry.cases) (auto intro!: bindE_cong)
qed simp

lemma flattenDescendArray_elems:
  "flattenDescendArray vs pfx i destination taken =
    foldE (\<lambda>(j, v) (d, t). flattenDescendValue v (pfx @ itoa (int j)) d t)
      (List.enumerate i (elems vs)) (destination, taken)"
  by (induction vs arbitrary: i destination taken) (auto intro!: bindE_cong)

lemma foldE_collect:
  assumes "\<And>x d t. x \<in> set xs \<Longrightarrow> distinct (ks x) \<Longrightarrow> set (ks x) \<inter> set t = {}
      \<Longrightarrow> f x (d, t) = Inr (d @ es x, rev (ks x) @ t)"
    and "distinct (concat (map ks xs))" "set (concat (map ks xs)) \<inter> set t = {}"
  shows "foldE f xs (d, t) = Inr (d @ concat (map es xs), rev (concat (map ks xs)) @ t)"
  using assms
proof (induction xs arbitrary: d t)
  case (Cons x xs)
  have "f x (d, t) = Inr (d @ es x, rev (ks x) @ t)" using Cons.prems by auto
  moreover have "foldE f xs (d @ es x, rev (ks x) @ t) =
      Inr ((d @ es x) @ concat (map es xs), rev (concat (map ks xs)) @ (rev (ks x) @ t))"
    by (rule Cons.IH) (use Cons.prems in auto)
  ultimately show ?case by simp
qed simp

lemma flatten_value:
  assumes "string_keys v" "distinct (flat_keys key (leaves v))" "set (flat_keys key (leaves v)) \<inter> set taken = {}"
  shows "flattenDescendValue v key destination taken =
    Inr (destination @ flat_items key (leaves v), rev (flat_keys key (leaves v)) @ taken)"
  using assms
proof (induction v arbitrary: key destination taken rule: leaves.induct)
  case (1 b)
  have "foldE (\<lambda>(k, v) (d, t). flattenDescendValue v ((key @ mapSeparator) @ k) d t) (entries b) (destination, taken) =
    Inr (destination @ concat (map (\<lambda>(k, v). flat_items (key @ mapSeparator @ k) (leaves v)) (entries b)),
         rev (concat (map (\<lambda>(k, v). flat_keys (key @ mapSeparator @ k) (leaves v)) (entries b))) @ taken)"
    by (rule foldE_collect) (use 1 in \<open>auto simp: comp_def case_prod_unfold cong: map_cong\<close>)
  then show ?case using "1.prems"
    by (simp add: flattenDescendMap_entries comp_def case_prod_unfold)
next
  case (2 vs)
  have "foldE (\<lambda>(j, v) (d, t). flattenDescendValue v ((key @ listSeparator) @ itoa (int j)) d t)
      (List.enumerate 0 (elems vs)) (destination, taken) =
    Inr (destination @ concat (map (\<lambda>(j, v). flat_items (key @ listSeparator @ itoa (int j)) (leaves v))
            (List.enumerate 0 (elems vs))),
         rev (concat (map (\<lambda>(j, v). flat_keys (key @ listSeparator @ itoa (int j)) (leaves v))
            (List.enumerate 0 (elems vs)))) @ taken)"
    by (rule foldE_collect) (use 2 in \<open>auto simp: comp_def case_prod_unfold in_set_enumerate_eq cong: map_cong\<close>)
  then show ?case using "2.prems"
    by (simp add: flattenDescendArray_elems comp_def case_prod_unfold)
qed (simp_all add: flat_items_def flat_keys_def)

definition flat_branch :: "TreeBranch \<Rightarrow> TreeBranch" where
  "flat_branch b = map (\<lambda>(p, v). TreeItem (KStr (key_text p)) v) (leaves (GBranch b))"

fun with_prefix :: "string \<Rightarrow> treeitem \<Rightarrow> treeitem" where
  "with_prefix pfx (TreeItem (KStr k) v) = TreeItem (KStr (pfx @ k)) v"
| "with_prefix pfx item = item"

lemma leaves_branch_path: "(p, v) \<in> set (leaves (GBranch b)) \<Longrightarrow> \<exists>k q. p = MapToken k # q"
  by auto

lemma distinct_key_texts:
  assumes "flat_ok (GBranch b)"
  shows "distinct (map (\<lambda>(p, v). pfx @ key_text p) (leaves (GBranch b)))"
proof -
  have inj: "p = q" if p: "(p, v) \<in> set (leaves (GBranch b))" and q: "(q, w) \<in> set (leaves (GBranch b))"
    and eq: "key_text p = key_text q" for p q v w
  proof -
    obtain k p' l q' where "p = MapToken k # p'" "q = MapToken l # q'"
      using leaves_branch_path p q by meson
    then have "path_text p = path_text q" using eq by simp
    then show ?thesis by (rule path_text_inj) (use leaves_good [OF assms] p q in blast)+
  qed
  have "inj_on (\<lambda>p. pfx @ key_text p) (set (map fst (leaves (GBranch b))))"
    using inj by (auto simp: inj_on_def simp del: leaves.simps)
  then have "distinct (map (\<lambda>p. pfx @ key_text p) (map fst (leaves (GBranch b))))"
    using leaves_distinct [OF assms] by (simp only: distinct_map)
  then show ?thesis by (simp only: map_map comp_def case_prod_unfold)
qed

lemma with_prefix_branch:
  "map (with_prefix pfx) (flat_branch b) =
    concat (map (\<lambda>(k, v). flat_items (pfx @ k) (leaves v)) (entries b))"
  by (simp add: flat_branch_def flat_items_def map_concat comp_def case_prod_unfold)

lemma flattenTreeBranch_leaves:
  assumes keys_ok: "string_keys (GBranch b)" and "flat_ok (GBranch b')" "leaves (GBranch b') = leaves (GBranch b)"
  shows "flattenTreeBranch b pfx = Inr (map (with_prefix pfx) (flat_branch b))"
proof -
  have keys: "map (\<lambda>(p, v). pfx @ key_text p) (leaves (GBranch b)) =
      concat (map (\<lambda>(k, v). flat_keys (pfx @ k) (leaves v)) (entries b))"
    by (simp add: flat_keys_def map_concat comp_def case_prod_unfold)
  have "distinct (concat (map (\<lambda>(k, v). flat_keys (pfx @ k) (leaves v)) (entries b)))"
    using distinct_key_texts [OF assms(2), of pfx] by (simp only: keys assms(3))
  then have "foldE (\<lambda>(k, v) (d, t). flattenDescendValue v (pfx @ k) d t) (entries b) ([], []) =
      Inr ([] @ concat (map (\<lambda>(k, v). flat_items (pfx @ k) (leaves v)) (entries b)),
           rev (concat (map (\<lambda>(k, v). flat_keys (pfx @ k) (leaves v)) (entries b))) @ [])"
    by (intro foldE_collect) (use keys_ok in \<open>auto simp: flatten_value\<close>)
  then show ?thesis using keys_ok
    by (simp add: flattenTreeBranch_def flattenDescendMap_entries with_prefix_branch del: list.pred_set)
qed

section \<open>Placing the leaves\<close>

definition place_all :: "(flat_token list \<times> gval) list \<Rightarrow> flat_node \<Rightarrow> flat_error + flat_node" where
  "place_all = foldE (\<lambda>(p, v). place v p)"

fun node_of :: "gval \<Rightarrow> flat_node" where
  "node_of (GBranch b) = FlatNode None (map (\<lambda>(k, v). (k, node_of v)) (entries b)) []"
| "node_of (GSlice vs) =
     FlatNode None [] (map (\<lambda>(i, v). (int i, node_of v)) (List.enumerate 0 (elems vs)))"
| "node_of v = FlatNode (Some v) [] []"

lemma place_all_simps [simp]:
  "place_all [] n = Inr n"
  "place_all ((p, v) # L) n = bindE (place v p n) (place_all L)"
  "place_all (L @ M) n = bindE (place_all L n) (place_all M)"
  by (simp_all add: place_all_def foldE_append)

definition sub_node :: "'k \<Rightarrow> ('k \<times> flat_node) list \<Rightarrow> flat_node" where
  "sub_node k ns = (case map_of ns k of Some n \<Rightarrow> n | None \<Rightarrow> new_node)"

lemma sub_node_update [simp]: "sub_node k (AList.update k n ns) = n"
  by (simp add: sub_node_def update_conv)

lemma update_update [simp]: "AList.update k n (AList.update k m ns) = AList.update k n ns"
  by (induction ns) auto

lemma update_absent: "k \<notin> fst ` set ns \<Longrightarrow> AList.update k n ns = ns @ [(k, n)]"
  by (induction ns) auto

lemma sub_node_absent: "k \<notin> fst ` set ns \<Longrightarrow> sub_node k ns = new_node"
  using map_of_eq_None_iff [of ns k] by (simp add: sub_node_def)

lemma place_all_map:
  assumes "L \<noteq> []"
  shows "place_all (map (apfst (Cons (MapToken k))) L) (FlatNode old sub idx) =
      bindE (place_all L (sub_node k sub)) (\<lambda>n. Inr (FlatNode old (AList.update k n sub) idx))"
    and "place_all (map (apfst (Cons (ListToken i))) L) (FlatNode old sub idx) =
      bindE (place_all L (sub_node i idx)) (\<lambda>n. Inr (FlatNode old sub (AList.update i n idx)))"
  using assms
proof (induction L arbitrary: sub idx rule: list_nonempty_induct)
  case (single x)
  {
    case 1
    show ?case by (cases x) (simp add: sub_node_def bindE_assoc)
  next
    case 2
    show ?case by (cases x) (simp add: sub_node_def bindE_assoc)
  }
next
  case (cons x L)
  obtain p v where x: "x = (p, v)" by (cases x)
  {
    case 1
    show ?case by (simp add: x bindE_assoc cons.IH flip: sub_node_def)
  next
    case 2
    show ?case by (simp add: x bindE_assoc cons.IH flip: sub_node_def)
  }
qed

lemma place_all_entries:
  assumes "\<And>k v. (k, v) \<in> set es \<Longrightarrow> leaves v \<noteq> [] \<and> place_all (leaves v) new_node = Inr (node_of v)"
    and "distinct (map fst es)" "fst ` set es \<inter> fst ` set sub = {}"
  shows "place_all (concat (map (\<lambda>(k, v). map (apfst (Cons (MapToken k))) (leaves v)) es)) (FlatNode old sub idx)
    = Inr (FlatNode old (sub @ map (\<lambda>(k, v). (k, node_of v)) es) idx)"
  using assms
proof (induction es arbitrary: sub)
  case (Cons e es)
  obtain k v where e: "e = (k, v)" by (cases e)
  have new: "k \<notin> fst ` set sub" using Cons.prems(3) by (auto simp: e)
  have "place_all (concat (map (\<lambda>(k, v). map (apfst (Cons (MapToken k))) (leaves v)) es))
      (FlatNode old (sub @ [(k, node_of v)]) idx)
    = Inr (FlatNode old ((sub @ [(k, node_of v)]) @ map (\<lambda>(k, v). (k, node_of v)) es) idx)"
    by (rule Cons.IH) (use Cons.prems in \<open>auto simp: e\<close>)
  then show ?case using Cons.prems(1) [of k v]
    by (simp add: e place_all_map sub_node_absent [OF new] update_absent [OF new])
qed simp

lemma place_all_elems:
  assumes "\<And>i v. (i, v) \<in> set es \<Longrightarrow> leaves v \<noteq> [] \<and> place_all (leaves v) new_node = Inr (node_of v)"
    and "distinct (map fst es)" "(int \<circ> fst) ` set es \<inter> fst ` set idx = {}"
  shows "place_all (concat (map (\<lambda>(i, v). map (apfst (Cons (ListToken (int i)))) (leaves v)) es)) (FlatNode old sub idx)
    = Inr (FlatNode old sub (idx @ map (\<lambda>(i, v). (int i, node_of v)) es))"
  using assms
proof (induction es arbitrary: idx)
  case (Cons e es)
  obtain i v where e: "e = (i, v)" by (cases e)
  have new: "int i \<notin> fst ` set idx" using Cons.prems(3) by (auto simp: e)
  have "place_all (concat (map (\<lambda>(i, v). map (apfst (Cons (ListToken (int i)))) (leaves v)) es))
      (FlatNode old sub (idx @ [(int i, node_of v)]))
    = Inr (FlatNode old sub ((idx @ [(int i, node_of v)]) @ map (\<lambda>(i, v). (int i, node_of v)) es))"
    by (rule Cons.IH) (use Cons.prems in \<open>auto simp: e image_iff\<close>)
  then show ?case using Cons.prems(1) [of i v]
    by (simp add: e place_all_map sub_node_absent [OF new] update_absent [OF new])
qed simp

lemma place_leaves: "flat_ok v \<Longrightarrow> place_all (leaves v) new_node = Inr (node_of v)"
proof (induction v rule: leaves.induct)
  case (1 b)
  then have "leaves v \<noteq> [] \<and> place_all (leaves v) new_node = Inr (node_of v)"
    if "(k, v) \<in> set (entries b)" for k v
    using that leaves_nonempty by auto
  then show ?case using "1.prems" place_all_entries [of "entries b" "[]" None "[]"]
    by (simp add: new_node_def)
next
  case (2 vs)
  then have "leaves v \<noteq> [] \<and> place_all (leaves v) new_node = Inr (node_of v)"
    if "(i, v) \<in> set (List.enumerate 0 (elems vs))" for i v
    using that leaves_nonempty [of v] by (auto simp: in_set_enumerate_eq)
  then show ?case using place_all_elems [of "List.enumerate 0 (elems vs)" "[]" None "[]"]
    by (simp add: new_node_def)
qed (simp_all add: new_node_def)

lemma place_branch:
  assumes "flat_ok (GBranch b)"
  shows "foldE unflatten_item (flat_branch b) new_node = Inr (node_of (GBranch b))"
proof -
  have "foldE unflatten_item (map (\<lambda>(p, v). TreeItem (KStr (key_text p)) v) L) n = Inr m"
    if "\<forall>(p, v)\<in>set L. tokenize (key_text p) = p" "place_all L n = Inr m" for L n m
    using that by (induction L arbitrary: n) auto
  moreover have "tokenize (key_text p) = p" if leaf: "(p, v) \<in> set (leaves (GBranch b))" for p v
  proof -
    obtain k q where p: "p = MapToken k # q" using leaves_branch_path [OF leaf] by blast
    have "\<forall>t\<in>set (MapToken k # q). good_token t" using leaves_good [OF assms leaf] p by blast
    then show ?thesis unfolding p by (rule tokenize_key_text)
  qed
  ultimately show ?thesis using place_leaves [OF assms] unfolding flat_branch_def by blast
qed

section \<open>Converting the node\<close>

text \<open>The tree that comes back: comments are gone and the keys of every map are sorted.\<close>

fun normal :: "gval \<Rightarrow> gval" where
  "normal (GBranch b) =
     GBranch (map (\<lambda>(k, v). TreeItem (KStr k) v) (sort_key fst (map (\<lambda>(k, v). (k, normal v)) (entries b))))"
| "normal (GSlice vs) = GSlice (map normal (elems vs))"
| "normal v = v"

lemma insort_key_map:
  "insort_key f (g x) (map g xs) = map g (insort_key (\<lambda>a. f (g a)) x xs)"
  by (induction xs) auto

lemma sort_key_map: "sort_key f (map g xs) = map g (sort_key (\<lambda>a. f (g a)) xs)"
  by (induction xs) (auto simp: insort_key_map)


lemma indices_complete_upto:
  assumes "n \<noteq> 0" "int n \<le> max_int64"
  shows "indices_complete (map int [0..<n])"
proof -
  obtain m where n: "n = Suc m" using assms(1) by (cases n) auto
  have "foldl (\<lambda>m k. if k < m then k else m) max_int64 (map int [0..<n]) = 0"
  proof -
    have zero: "foldl (\<lambda>m k. if k < m then k else m) (0 :: int) ks = 0" if "\<forall>k\<in>set ks. 0 \<le> k" for ks
      using that by (induction ks) auto
    have "map int [0..<n] = 0 # map int [1..<n]" by (simp add: n upt_conv_Cons)
    then show ?thesis by (simp add: zero max_int64_def)
  qed
  moreover have "foldl (\<lambda>m k. if k > m then k else m) min_int64 (map int [0..<k]) = int k - 1" if "k \<noteq> 0" for k
    using that
  proof (induction k)
    case (Suc k)
    then show ?case by (cases "k = 0") (auto simp: min_int64_def)
  qed simp
  ultimately show ?thesis using assms
    by (simp add: indices_complete_def wrap_int64_def min_int64_def max_int64_def)
qed

lemma convert_elems:
  assumes "\<forall>v\<in>set vs. convert (node_of v) = Inr (normal v)"
  shows "foldE (\<lambda>(k, n) result. bindE (convert n) (\<lambda>v. Inr (result[nat k := v])))
      (map (\<lambda>(i, v). (int i, node_of v)) (List.enumerate (length pre) vs)) (pre @ replicate (length vs) GNil)
    = Inr (pre @ map normal vs)"
  using assms
proof (induction vs arbitrary: pre)
  case (Cons v vs)
  have "foldE (\<lambda>(k, n) result. bindE (convert n) (\<lambda>v. Inr (result[nat k := v])))
      (map (\<lambda>(i, v). (int i, node_of v)) (List.enumerate (length (pre @ [normal v])) vs))
      ((pre @ [normal v]) @ replicate (length vs) GNil)
    = Inr ((pre @ [normal v]) @ map normal vs)"
    by (rule Cons.IH) (use Cons.prems in auto)
  with Cons.prems show ?case by (simp add: list_update_append)
qed simp

lemma convert_entries:
  assumes "\<forall>(k, v)\<in>set es. convert (node_of v) = Inr (normal v)"
  shows "mapE (\<lambda>(key, n). bindE (convert n) (\<lambda>v. Inr (TreeItem (KStr key) v)))
      (sort_key fst (map (\<lambda>(k, v). (k, node_of v)) es))
    = Inr (map (\<lambda>(k, v). TreeItem (KStr k) v) (sort_key fst (map (\<lambda>(k, v). (k, normal v)) es)))"
proof -
  have "mapE (\<lambda>(key, n). bindE (convert n) (\<lambda>v. Inr (TreeItem (KStr key) v)))
      (map (\<lambda>(k, v). (k, node_of v)) es')
    = Inr (map (\<lambda>(k, v). TreeItem (KStr k) v) (map (\<lambda>(k, v). (k, normal v)) es'))"
    if "\<forall>(k, v)\<in>set es'. convert (node_of v) = Inr (normal v)" for es'
    using that by (induction es') auto
  with assms show ?thesis by (simp add: sort_key_map case_prod_unfold)
qed

lemma convert_node_of: "flat_ok v \<Longrightarrow> convert (node_of v) = Inr (normal v)"
proof (induction v rule: normal.induct)
  case (1 b)
  then have "\<forall>(k, v)\<in>set (entries b). convert (node_of v) = Inr (normal v)" by auto
  with "1.prems" show ?case by (simp add: convert.simps convert_entries)
next
  case (2 vs)
  have "convert (node_of v) = Inr (normal v)" if "v \<in> set (elems vs)" for v
    using 2 that by auto
  then have "foldE (\<lambda>(k, n) result. bindE (convert n) (\<lambda>v. Inr (result[nat k := v])))
      (map (\<lambda>(i, v). (int i, node_of v)) (List.enumerate 0 (elems vs))) (replicate (length (elems vs)) GNil)
    = Inr (map normal (elems vs))"
    using convert_elems [of "elems vs" "[]"] by simp
  moreover have "map fst (map (\<lambda>(i, v). (int i, node_of v)) (List.enumerate 0 (elems vs))) =
      map int [0..<length (elems vs)]"
    by (simp add: comp_def case_prod_unfold) (simp flip: map_map [of int fst, unfolded comp_def])
  moreover have "List.enumerate 0 (elems vs) \<noteq> []"
    using "2.prems" by (metis flat_ok.simps(2) length_enumerate length_0_conv)
  ultimately show ?case using "2.prems"
    by (simp add: convert.simps indices_complete_upto)
qed (simp_all add: convert.simps)

lemma flatten_unflatten_branch:
  assumes keys: "string_keys (GBranch branch)" and ok: "flat_ok (prune (GBranch branch))"
  shows "flattenTreeBranch branch pfx = Inr (map (with_prefix pfx) (flat_branch branch))"
    and "\<exists>result. unflattenTreeBranch (flat_branch branch) = Inr result
      \<and> normal (prune (GBranch branch)) = GBranch result"
proof -
  obtain b where b: "prune (GBranch branch) = GBranch b" by simp
  have leaves: "leaves (GBranch b) = leaves (GBranch branch)"
    using leaves_prune [of "GBranch branch"] unfolding b .
  then have same: "flat_branch b = flat_branch branch" by (simp add: flat_branch_def del: leaves.simps)
  show "flattenTreeBranch branch pfx = Inr (map (with_prefix pfx) (flat_branch branch))"
    by (rule flattenTreeBranch_leaves [OF keys ok [unfolded b] leaves])
  have "unflattenTreeBranch (flat_branch b) =
      Inr (map (\<lambda>(k, v). TreeItem (KStr k) v) (sort_key fst (map (\<lambda>(k, v). (k, normal v)) (entries b))))"
    using place_branch [OF ok [unfolded b]] convert_node_of [OF ok [unfolded b]]
    by (simp add: unflattenTreeBranch_def del: flat_ok.simps)
  then show "\<exists>result. unflattenTreeBranch (flat_branch branch) = Inr result
      \<and> normal (prune (GBranch branch)) = GBranch result"
    using b same by simp
qed

lemma flatten_unflatten:
  assumes "string_keys (GBranch branch)" "flat_ok (prune (GBranch branch))"
  shows "\<exists>flat result. flattenTreeBranch branch '''' = Inr flat
    \<and> (\<forall>pfx. flattenTreeBranch branch pfx = Inr (map (with_prefix pfx) flat))
    \<and> unflattenTreeBranch flat = Inr result \<and> normal (prune (GBranch branch)) = GBranch result"
proof -
  have "with_prefix '''' item = item" for item by (cases item rule: entry.cases) auto
  then have "flattenTreeBranch branch '''' = Inr (flat_branch branch)"
    using flatten_unflatten_branch(1) [OF assms, of "''''"] by (simp add: map_idI)
  then show ?thesis using flatten_unflatten_branch [OF assms] by blast
qed

text \<open>C40. \<open>unflattenTreeBranch\<close> inverts \<open>flattenTreeBranch\<close>: a branch with string keys that the
  separators cannot confuse comes back, its comments and the containers without leaves gone and the
  keys of every map sorted. A prefix is simply put before every key.\<close>

theorem flatten_round_trip:
  assumes "string_keys (GBranch branch)" "flat_ok (prune (GBranch branch))"
  shows "\<exists>flat result. flattenTreeBranch branch '''' = Inr flat
    \<and> flattenTreeBranch branch pfx = Inr (map (with_prefix pfx) flat)
    \<and> unflattenTreeBranch flat = Inr result \<and> normal (prune (GBranch branch)) = GBranch result"
  using flatten_unflatten [OF assms] by blast

definition sample_nested :: TreeBranch where
  "sample_nested =
     [TreeItem (KStr ''hosts'') (GSlice [GStr ''a'', GBranch [TreeItem (KStr ''z'') (GInt 1), TreeItem (KStr ''b_'') GNil]]),
      TreeItem (KComment \<lparr>CValue = ''note'', Inline = False\<rparr>) GNil,
      TreeItem (KStr ''none'') (GSlice []),
      TreeItem (KStr ''enc'') (GBool True)]"

lemma flatten_round_trip_witness:
  "\<exists>flat result. flattenTreeBranch sample_nested '''' = Inr flat
    \<and> flattenTreeBranch sample_nested ''sops_'' = Inr (map (with_prefix ''sops_'') flat)
    \<and> unflattenTreeBranch flat = Inr result \<and> normal (prune (GBranch sample_nested)) = GBranch result"
  by (rule flatten_round_trip) code_simp+

text \<open>The first token of a path is never a list token, so the root keeps no value and no indices.\<close>

fun map_root :: "flat_node \<Rightarrow> bool" where
  "map_root (FlatNode old sub idx) = (old = None \<and> idx = [])"

lemma scan_Normal: "\<exists>k p. scan StateNormal cur s = MapToken k # p"
proof (induction "StateNormal" cur s rule: scan.induct)
  case (1 cur s)
  then show ?case by (subst scan.simps) (auto simp: token_of_def split: list.split)
qed

lemma unflatten_item_root:
  assumes "unflatten_item item root = Inr root'" "map_root root"
  shows "map_root root'"
proof (cases item rule: entry.cases)
  case (1 k v)
  obtain l p where "tokenize k = MapToken l # p"
    using scan_Normal [of "[]" k] by (auto simp: tokenize_scan)
  with assms 1 show ?thesis
    by (cases root) (auto split: sum.splits)
qed (use assms in auto)

lemma unflatten_item_error: "unflatten_item item root \<noteq> Inl InternalNoRoot"
  by (cases item rule: entry.cases) (auto split: sum.splits)

lemma convert_error: "convert n \<noteq> Inl InternalNoRoot"
proof (induction n rule: convert.induct)
  case (1 old sub idx)
  show ?case
  proof
    assume err: "convert (FlatNode old sub idx) = Inl InternalNoRoot"
    then have old: "old = None" and many: "\<not> 1 < b2i (old \<noteq> None) + b2i (sub \<noteq> []) + b2i (idx \<noteq> [])"
      by (auto simp: convert.simps split: if_splits option.splits)
    show False
    proof (cases "sub = []")
      case True
      with err old have "idx \<noteq> []" and complete: "indices_complete (map fst idx)"
        and "foldE (\<lambda>(k, n) result. bindE (convert n) (\<lambda>v. Inr (result[nat k := v]))) idx
          (replicate (length idx) GNil) = Inl InternalNoRoot"
        by (auto simp: convert.simps res_simps split: if_splits)
      then obtain k n where "(k, n) \<in> set idx" "convert n = Inl InternalNoRoot"
        by (auto simp: res_simps dest!: foldE_Inl)
      then show False
        using "1.IH"(2) [OF many old] True \<open>idx \<noteq> []\<close> complete by blast
    next
      case False
      with err old have "mapE (\<lambda>(key, n). bindE (convert n) (\<lambda>v. Inr (TreeItem (KStr key) v)))
          (sort_key fst sub) = Inl InternalNoRoot"
        by (auto simp: convert.simps res_simps split: if_splits)
      then obtain k n where "(k, n) \<in> set (sort_key fst sub)" "convert n = Inl InternalNoRoot"
        by (auto simp: res_simps dest!: mapE_Inl)
      then show False
        using "1.IH"(1) [OF many old] False by blast
    qed
  qed
qed

text \<open>The branch \<open>Internal error: cannot find root\<close> of \<open>unflattenTreeBranch\<close> is never taken: what
  comes back without another error is a map.\<close>

lemma unflatten_has_root: "unflattenTreeBranch branch \<noteq> Inl InternalNoRoot"
proof
  assume no_root: "unflattenTreeBranch branch = Inl InternalNoRoot"
  have "foldE unflatten_item branch new_node \<noteq> Inl InternalNoRoot"
    using unflatten_item_error by (auto dest!: foldE_Inl)
  then obtain root where root: "foldE unflatten_item branch new_node = Inr root"
    using no_root by (cases "foldE unflatten_item branch new_node") (auto simp: unflattenTreeBranch_def)
  then obtain v where v: "convert root = Inr v"
    using no_root convert_error [of root] by (cases "convert root") (auto simp: unflattenTreeBranch_def)
  have "map_root root"
    by (rule foldE_invariant [OF root, where P = map_root]) (auto simp: new_node_def intro: unflatten_item_root)
  with v have "\<exists>b. v = GBranch b"
    by (cases root) (auto simp: convert.simps split: if_splits)
  with no_root root v show False
    by (auto simp: unflattenTreeBranch_def)
qed

text \<open>Why the keys of the round trip exclude a separator cut at its last underscore: a key that
  ends in \<open>__map\<close> and holds a list flattens to a text whose first separator is another one, and the
  list comes back as a map.\<close>

lemma flatten_ambiguous_key:
  "bindE (flattenTreeBranch [TreeItem (KStr ''a__map'') (GSlice [GStr s])] '''') unflattenTreeBranch =
    Inr [TreeItem (KStr ''a'') (GBranch [TreeItem (KStr ''_list_0'') (GStr s)])]"
proof -
  have "tokenize ''a__map__list_0'' = [MapToken ''a'', MapToken ''_list_0'']" by code_simp
  moreover have "itoa (int 0) = ''0''" by code_simp
  ultimately show ?thesis
    by (simp add: flattenTreeBranch_def listSeparator_def unflattenTreeBranch_def new_node_def convert.simps)
qed

end
