(* ===== verification/Tree_Crypt_Correct.thy ===== *)
theory Tree_Crypt_Correct
  imports Tree_Crypt
begin

text \<open>
  Correctness of \<open>Tree.Encrypt\<close> and \<open>Tree.Decrypt\<close>: the decision of \<open>shouldBeEncrypted\<close> as a
  function of the comments in scope, its agreement on a document and on its encryption, the round
  trip with equal MACs under the interface \<open>tree_cipher\<close>, the bytes that the MAC covers, and what the walk
  leaves unchanged.
\<close>

section \<open>The decision as a function of the scope\<close>

definition path_rule :: "golib \<Rightarrow> Metadata \<Rightarrow> string list \<Rightarrow> bool" where
  "path_rule L m path =
     (if EncryptedRegex m \<noteq> '''' then list_ex (MatchRegexp L (EncryptedRegex m)) path
      else if UnencryptedRegex m \<noteq> '''' \<and> list_ex (MatchRegexp L (UnencryptedRegex m)) path then False
      else if EncryptedSuffix m \<noteq> '''' then list_ex (\<lambda>v. has_suffix v (EncryptedSuffix m)) path
      else \<not> (UnencryptedSuffix m \<noteq> '''' \<and> list_ex (\<lambda>v. has_suffix v (UnencryptedSuffix m)) path))"

definition comment_rule :: "golib \<Rightarrow> Metadata \<Rightarrow> string list \<Rightarrow> string list \<Rightarrow> bool" where
  "comment_rule L m path scope =
     (if EncryptedCommentRegex m \<noteq> '''' then list_ex (MatchRegexp L (EncryptedCommentRegex m)) scope
      else if UnencryptedCommentRegex m \<noteq> '''' \<and> list_ex (MatchRegexp L (UnencryptedCommentRegex m)) scope
      then False else path_rule L m path)"

definition leaf_rule :: "golib \<Rightarrow> Metadata \<Rightarrow> string list \<Rightarrow> string list \<Rightarrow> bool" where
  "leaf_rule L m path scope = foldl apply_directive (comment_rule L m path scope) scope"

lemma shouldBeEncrypted_leaf:
  assumes "stack \<noteq> []"
  shows "shouldBeEncrypted L m path stack False = Inr (leaf_rule L m path (concat stack))"
  using assms
  by (simp add: shouldBeEncrypted_def leaf_rule_def comment_rule_def path_rule_def comments_in_scope_def Let_def)

lemma concat_butlast_last: "stack \<noteq> [] \<Longrightarrow> last stack \<noteq> [] \<Longrightarrow>
    concat (butlast stack) @ butlast (last stack) = butlast (concat stack)"
  by (induction stack rule: rev_induct) (auto simp: butlast_append)

lemma shouldBeEncrypted_comment:
  "shouldBeEncrypted L m path (stack @ [active @ [c]]) True =
     Inr (EncryptedCommentRegex m \<noteq> '''' \<and> ParseDirective c = DirectiveNone
          \<and> leaf_rule L m path (concat stack @ active))"
  by (simp add: shouldBeEncrypted_def leaf_rule_def comment_rule_def comments_in_scope_def Let_def)

text \<open>Of the directives in scope the last one decides.\<close>

definition last_directive :: "string list \<Rightarrow> Directive" where
  "last_directive scope = foldl (\<lambda>d c. case ParseDirective c of DirectiveNone \<Rightarrow> d | d' \<Rightarrow> d') DirectiveNone scope"

lemma last_directive_snoc [simp]:
  "last_directive (scope @ [c]) = (case ParseDirective c of DirectiveNone \<Rightarrow> last_directive scope | d' \<Rightarrow> d')"
  by (simp add: last_directive_def split: Directive.splits)

lemma last_directive_Nil [simp]: "last_directive [] = DirectiveNone"
  by (simp add: last_directive_def)

lemma foldl_apply_directive:
  "foldl apply_directive e scope =
     (case last_directive scope of DirectiveNone \<Rightarrow> e | DirectiveUnencrypted \<Rightarrow> False | DirectiveEncrypted \<Rightarrow> True)"
  by (induction scope rule: rev_induct) (auto simp: apply_directive_def split: Directive.splits)

lemma last_directive_None: "last_directive scope = DirectiveNone \<longleftrightarrow> (\<forall>c\<in>set scope. ParseDirective c = DirectiveNone)"
  by (induction scope rule: rev_induct) (auto split: Directive.splits)

section \<open>A document and its encryption have the same scopes, as far as decisions go\<close>

text \<open>
  A scope during decryption differs from the one during encryption by the comments that have been
  encrypted. \<open>masked\<close> says that each of these is no directive and comes after the comment that
  caused its encryption, which is still in clear.
\<close>

definition is_cause :: "golib \<Rightarrow> Metadata \<Rightarrow> string \<Rightarrow> bool" where
  "is_cause L m c \<longleftrightarrow> ParseDirective c \<noteq> DirectiveNone \<or> MatchRegexp L (EncryptedCommentRegex m) c"

inductive masked :: "golib \<Rightarrow> Metadata \<Rightarrow> string list \<Rightarrow> string list \<Rightarrow> bool" for L m where
  masked_Nil: "masked L m [] []"
| masked_clear: "masked L m xs ys \<Longrightarrow> masked L m (xs @ [c]) (ys @ [c])"
| masked_hidden: "masked L m xs ys \<Longrightarrow> EncryptedCommentRegex m \<noteq> '''' \<Longrightarrow>
    \<exists>c\<in>set xs \<inter> set ys. is_cause L m c \<Longrightarrow>
    ParseDirective c = DirectiveNone \<Longrightarrow> ParseDirective t = DirectiveNone \<Longrightarrow>
    masked L m (xs @ [c]) (ys @ [t])"

lemma masked_refl: "masked L m xs xs"
  by (induction xs rule: rev_induct) (auto intro: masked.intros)

lemma masked_length: "masked L m xs ys \<Longrightarrow> length xs = length ys"
  by (induction rule: masked.induct) auto

lemma masked_plain: "masked L m xs ys \<Longrightarrow> EncryptedCommentRegex m = '''' \<Longrightarrow> xs = ys"
  by (induction rule: masked.induct) auto

lemma masked_last_directive: "masked L m xs ys \<Longrightarrow> last_directive xs = last_directive ys"
  by (induction rule: masked.induct) (auto split: Directive.splits)

lemma masked_cause: "masked L m xs ys \<Longrightarrow> xs = ys \<or> (\<exists>c\<in>set xs \<inter> set ys. is_cause L m c)"
  by (induction rule: masked.induct) auto

lemma masked_cause_left:
  "masked L m xs ys \<Longrightarrow> \<exists>c\<in>set xs. is_cause L m c \<Longrightarrow> \<exists>c\<in>set xs \<inter> set ys. is_cause L m c"
  using masked_cause by fastforce

lemma masked_leaf_rule: "masked L m xs ys \<Longrightarrow> leaf_rule L m path xs = leaf_rule L m path ys"
proof -
  assume masked: "masked L m xs ys"
  show ?thesis
  proof (cases "last_directive xs = DirectiveNone \<and> EncryptedCommentRegex m \<noteq> '''' \<and> xs \<noteq> ys")
    case True
    with masked obtain c where c: "c \<in> set xs" "c \<in> set ys" "is_cause L m c" using masked_cause by blast
    with True have "MatchRegexp L (EncryptedCommentRegex m) c" by (auto simp: last_directive_None is_cause_def)
    with c True show ?thesis
      using masked_last_directive [OF masked]
      by (auto simp: leaf_rule_def foldl_apply_directive comment_rule_def list_ex_iff)
  next
    case False
    then show ?thesis
      using masked_last_directive [OF masked] masked_plain [OF masked]
      by (auto simp: leaf_rule_def foldl_apply_directive split: Directive.splits)
  qed
qed

lemma leaf_rule_cause:
  assumes "EncryptedCommentRegex m \<noteq> ''''" "leaf_rule L m path scope"
  shows "\<exists>c\<in>set scope. is_cause L m c"
proof (cases "last_directive scope = DirectiveNone")
  case True
  with assms show ?thesis
    by (auto simp: leaf_rule_def foldl_apply_directive comment_rule_def list_ex_iff is_cause_def)
next
  case False
  then show ?thesis by (auto simp: last_directive_None is_cause_def)
qed

section \<open>The interface of a cipher\<close>

text \<open>What a leaf is after a round trip: comments lose the flag \<open>Inline\<close>.\<close>

fun bare :: "comment \<Rightarrow> comment" where
  "bare c = \<lparr>CValue = CValue c, Inline = False\<rparr>"

fun leaf_result :: "gval \<Rightarrow> gval" where
  "leaf_result (GComment c) = GComment (bare c)"
| "leaf_result v = v"

text \<open>
  The law of \<open>sops.Cipher\<close> the walk relies on: decrypting what was encrypted, with the same key and
  additional data and in any state of the cipher, gives the value back; and a ciphertext is no
  directive. \<open>leaf_ok\<close> is the domain of the law.
\<close>

text \<open>
  The documents the round trip is stated for, relative to the domain of the cipher: every leaf is in
  the domain; where comments can be encrypted (\<open>plain_comments\<close> is false) they stand in key position,
  as the stores with comments put them, and are in the domain too.
\<close>

fun crypt_ok :: "(gval \<Rightarrow> bool) \<Rightarrow> bool \<Rightarrow> gval \<Rightarrow> bool"
  and crypt_ok_item :: "(gval \<Rightarrow> bool) \<Rightarrow> bool \<Rightarrow> treeitem \<Rightarrow> bool" where
  "crypt_ok ok plain_comments (GBranch items) = (\<forall>item\<in>set items. crypt_ok_item ok plain_comments item)"
| "crypt_ok ok plain_comments (GSlice vs) = (\<forall>v\<in>set vs. crypt_ok ok plain_comments v)"
| "crypt_ok ok plain_comments (GComment c) = plain_comments"
| "crypt_ok ok plain_comments (GBytes b) = ok (GStr b)"
| "crypt_ok ok plain_comments GNil = True"
| "crypt_ok ok plain_comments v = ok v"
| "crypt_ok_item ok plain_comments (TreeItem k v) =
     (case k of KComment c \<Rightarrow> plain_comments \<or> ok (GComment c) | _ \<Rightarrow> crypt_ok ok plain_comments v)"

text \<open>
  Equality of documents up to what the round trip does not keep: a byte slice comes back as a
  string, and where comments are encrypted their flag \<open>Inline\<close> is lost.
\<close>

fun canon_comment :: "bool \<Rightarrow> comment \<Rightarrow> comment" where
  "canon_comment keep c = (if keep then c else bare c)"

fun canon_key :: "bool \<Rightarrow> gkey \<Rightarrow> gkey" where
  "canon_key keep (KComment c) = KComment (canon_comment keep c)"
| "canon_key keep k = k"

fun canon :: "bool \<Rightarrow> gval \<Rightarrow> gval" and canon_item :: "bool \<Rightarrow> treeitem \<Rightarrow> treeitem" where
  "canon keep (GBytes b) = GStr b"
| "canon keep (GComment c) = GComment (canon_comment keep c)"
| "canon keep (GBranch items) = GBranch (map (canon_item keep) items)"
| "canon keep (GSlice vs) = GSlice (map (canon keep) vs)"
| "canon keep v = v"
| "canon_item keep (TreeItem k v) = TreeItem (canon_key keep k) (if is_comment_key k then v else canon keep v)"

text \<open>The same on the side of the result, where a byte slice is never taken for a string.\<close>

fun tidy :: "bool \<Rightarrow> gval \<Rightarrow> gval" and tidy_item :: "bool \<Rightarrow> treeitem \<Rightarrow> treeitem" where
  "tidy keep (GComment c) = GComment (canon_comment keep c)"
| "tidy keep (GBranch items) = GBranch (map (tidy_item keep) items)"
| "tidy keep (GSlice vs) = GSlice (map (tidy keep) vs)"
| "tidy keep v = v"
| "tidy_item keep (TreeItem k v) = TreeItem (canon_key keep k) (if is_comment_key k then v else tidy keep v)"

locale tree_cipher =
  fixes C :: "('e, 's) cipher" and key :: string and leaf_ok :: "gval \<Rightarrow> bool"
  assumes decrypt_encrypt: "leaf_ok v \<Longrightarrow> cipher_Encrypt C v key ad s = Inr (t, s') \<Longrightarrow>
      \<exists>u'. cipher_Decrypt C t key ad u = (Inr (leaf_result v), u')"
    and encrypted_no_directive: "leaf_ok v \<Longrightarrow> cipher_Encrypt C v key ad s = Inr (t, s') \<Longrightarrow>
      ParseDirective t = DirectiveNone"
begin

lemma leaf_round_trip:
  assumes "encrypt_leaf L m C key v path stack (h, s) = Inr (v', (h', s'))"
    and ok: "leaf_ok v" "\<not> is_comment v"
    and stacks: "stack \<noteq> []" "stack' \<noteq> []" "masked L m (concat stack) (concat stack')"
  shows "\<exists>u'. decrypt_leaf L m C key v' path stack' (h, u) = Inr (v, (h', u')) \<and> \<not> is_comment v'"
proof -
  let ?enc = "leaf_rule L m path (concat stack)"
  have rule: "(shouldBeEncrypted L m path stack False :: 'e walk_error + bool) = Inr ?enc"
    "(shouldBeEncrypted L m path stack' False :: 'e walk_error + bool) = Inr ?enc"
    using stacks by (simp_all add: shouldBeEncrypted_leaf masked_leaf_rule)
  obtain h1 where h1: "(hash_leaf L m ?enc v h :: 'e walk_error + string) = Inr h1"
    using assms(1) rule ok(2) by (auto simp: encrypt_leaf_def)
  show ?thesis
  proof (cases ?enc)
    case True
    then obtain t where t: "cipher_Encrypt C v key (path_string path) s = Inr (t, s')" "v' = GStr t" "h' = h1"
      using assms(1) rule ok(2) h1 by (auto simp: encrypt_leaf_def split: sum.splits)
    from decrypt_encrypt [OF ok(1) t(1)] obtain u' where
      "cipher_Decrypt C t key (path_string path) u = (Inr (leaf_result v), u')" by blast
    moreover have "leaf_result v = v" using ok(2) by (cases v) auto
    ultimately show ?thesis using t True rule h1 by (auto simp: decrypt_leaf_def)
  next
    case False
    with assms(1) rule ok(2) h1 show ?thesis by (auto simp: encrypt_leaf_def decrypt_leaf_def)
  qed
qed

text \<open>The same for a comment: it stays, or becomes a string that decrypts to the bare comment.\<close>

lemma comment_round_trip:
  assumes "encrypt_leaf L m C key (GComment c) path (stack @ [active @ [CValue c]]) (h, s) = Inr (v', (h', s'))"
    and ok: "EncryptedCommentRegex m = '''' \<or> leaf_ok (GComment c)"
    and masked: "masked L m (concat stack @ active) (concat stack' @ active')"
  shows "h' = h \<and>
     ((v' = GComment c \<and>
       (\<forall>u. decrypt_leaf L m C key v' path (stack' @ [active' @ [CValue c]]) (h, u) = Inr (GComment c, (h, u))))
      \<or> (\<exists>t. v' = GStr t \<and> EncryptedCommentRegex m \<noteq> '''' \<and>
       masked L m (concat stack @ active @ [CValue c]) (concat stack' @ active' @ [t]) \<and>
       (\<forall>u b. \<exists>u'. decrypt_leaf L m C key (GComment \<lparr>CValue = t, Inline = b\<rparr>) path (stack' @ [active' @ [t]]) (h, u)
            = Inr (GComment (bare c), (h, u')))))"
proof (cases "EncryptedCommentRegex m \<noteq> '''' \<and> ParseDirective (CValue c) = DirectiveNone
    \<and> leaf_rule L m path (concat stack @ active)")
  case False
  then have "v' = GComment c" "h' = h" "s' = s"
    using assms(1) by (auto simp: encrypt_leaf_def shouldBeEncrypted_comment hash_leaf_def)
  moreover have "decrypt_leaf L m C key (GComment c) path (stack' @ [active' @ [CValue c]]) (h, u)
      = Inr (GComment c, (h, u))" for u
    using False masked_leaf_rule [OF masked] by (auto simp: decrypt_leaf_def shouldBeEncrypted_comment hash_leaf_def)
  ultimately show ?thesis by blast
next
  case True
  then obtain t where t: "cipher_Encrypt C (GComment c) key (path_string path) s = Inr (t, s')" "v' = GStr t" "h' = h"
    using assms(1)
    by (auto simp: encrypt_leaf_def shouldBeEncrypted_comment hash_leaf_def split: sum.splits if_splits)
  from ok True have ok: "leaf_ok (GComment c)" by blast
  have none: "ParseDirective t = DirectiveNone" by (rule encrypted_no_directive [OF ok t(1)])
  from True leaf_rule_cause have "\<exists>c\<in>set (concat stack @ active). is_cause L m c" by blast
  from masked_cause_left [OF masked this] masked True none
  have "masked L m ((concat stack @ active) @ [CValue c]) ((concat stack' @ active') @ [t])"
    by (intro masked_hidden) auto
  moreover have "\<exists>u'. decrypt_leaf L m C key (GComment \<lparr>CValue = t, Inline = b\<rparr>) path (stack' @ [active' @ [t]]) (h, u)
      = Inr (GComment (bare c), (h, u'))" for u b
  proof -
    from decrypt_encrypt [OF ok t(1)] obtain u' where
      "cipher_Decrypt C t key (path_string path) u = (Inr (GComment (bare c)), u')" by auto
    then show ?thesis
      using True none masked_leaf_rule [OF masked]
      by (auto simp: decrypt_leaf_def shouldBeEncrypted_comment hash_leaf_def)
  qed
  ultimately show ?thesis using t True by auto
qed

text \<open>The value of a leaf that is no comment.\<close>

lemma leaf_step:
  assumes "encrypt_leaf L m C key v path stack st = Inr (v', st')"
    and "leaf_ok v" "\<not> is_comment v" "stack \<noteq> []" "stack' \<noteq> []" "masked L m (concat stack) (concat stack')"
  shows "(\<exists>u'. decrypt_leaf L m C key v' path stack' (fst st, u) = Inr (v, (fst st', u')))
    \<and> (v' = v \<or> (\<exists>t. v' = GStr t))"
proof
  obtain h s h' s' where st: "st = (h, s)" "st' = (h', s')" by (metis surj_pair)
  from leaf_round_trip [OF assms(1) [unfolded st] assms(2-6), of u] st
  show "\<exists>u'. decrypt_leaf L m C key v' path stack' (fst st, u) = Inr (v, (fst st', u'))" by auto
next
  show "v' = v \<or> (\<exists>t. v' = GStr t)"
    using assms(1,3,4) by (auto simp: encrypt_leaf_def shouldBeEncrypted_leaf split: sum.splits if_splits)
qed

text \<open>A comment in value position where comments are not encrypted.\<close>

lemma plain_comment_step:
  assumes "EncryptedCommentRegex m = ''''"
  shows "encrypt_leaf L m C key (GComment c) path stack st = Inr (GComment c, st)"
    and "decrypt_leaf L m C key (GComment c) path stack st = Inr (GComment c, st)"
  using assms by (simp_all add: encrypt_leaf_def decrypt_leaf_def shouldBeEncrypted_def hash_leaf_def)

lemma push_comment_plain [simp]: "\<not> is_comment v \<Longrightarrow> push_comment v active = active"
  by (cases v) auto

lemma walk_round_trip:
  "walkValue f v path stack st = Inr (v', st') \<Longrightarrow> f = encrypt_leaf L m C key \<Longrightarrow>
   crypt_ok leaf_ok (EncryptedCommentRegex m = '''') v \<Longrightarrow>
   stack \<noteq> [] \<Longrightarrow> stack' \<noteq> [] \<Longrightarrow> masked L m (concat stack) (concat stack') \<Longrightarrow>
   (\<exists>w u'. walkValue (decrypt_leaf L m C key) v' path stack' (fst st, u) = Inr (w, (fst st', u'))
      \<and> tidy (EncryptedCommentRegex m = '''') w = canon (EncryptedCommentRegex m = '''') v)
   \<and> is_comment v' = is_comment v \<and> (is_comment v \<longrightarrow> v' = v)"
  "walkSlice f vs path stack active st = Inr (vs', st') \<Longrightarrow> f = encrypt_leaf L m C key \<Longrightarrow>
   \<forall>v\<in>set vs. crypt_ok leaf_ok (EncryptedCommentRegex m = '''') v \<Longrightarrow>
   masked L m (concat stack) (concat stack') \<Longrightarrow>
   masked L m (concat stack @ active) (concat stack' @ active') \<Longrightarrow>
   \<exists>ws u'. walkSlice (decrypt_leaf L m C key) vs' path stack' active' (fst st, u) = Inr (ws, (fst st', u'))
      \<and> map (tidy (EncryptedCommentRegex m = '''')) ws = map (canon (EncryptedCommentRegex m = '''')) vs"
  "walkBranch f items path stack active st = Inr (items', st') \<Longrightarrow> f = encrypt_leaf L m C key \<Longrightarrow>
   \<forall>item\<in>set items. crypt_ok_item leaf_ok (EncryptedCommentRegex m = '''') item \<Longrightarrow>
   masked L m (concat stack) (concat stack') \<Longrightarrow>
   masked L m (concat stack @ active) (concat stack' @ active') \<Longrightarrow>
   \<exists>its u'. walkBranch (decrypt_leaf L m C key) items' path stack' active' (fst st, u) = Inr (its, (fst st', u'))
      \<and> map (tidy_item (EncryptedCommentRegex m = '''')) its = map (canon_item (EncryptedCommentRegex m = '''')) items"
proof (induction f v path stack st and f vs path stack active st and f items path stack active st
    arbitrary: v' st' stack' u and vs' st' stack' active' u and items' st' stack' active' u
    rule: walkValue_walkSlice_walkBranch.induct)
  case (1 f s path stack st)
  with leaf_step [of L m "GStr s" path stack st v' st' stack' u] show ?case by auto
next
  case (2 f s path stack st)
  with leaf_step [of L m "GStr s" path stack st v' st' stack' u] show ?case by auto
next
  case (3 f i path stack st)
  with leaf_step [of L m "GInt i" path stack st v' st' stack' u] show ?case by auto
next
  case (4 f b path stack st)
  with leaf_step [of L m "GBool b" path stack st v' st' stack' u] show ?case by auto
next
  case (5 f x path stack st)
  with leaf_step [of L m "GFloat x" path stack st v' st' stack' u] show ?case by auto
next
  case (6 f t path stack st)
  with leaf_step [of L m "GTime t" path stack st v' st' stack' u] show ?case by auto
next
  case (7 f c path stack st)
  with plain_comment_step [of m L c path] show ?case by auto
next
  case (8 f items path stack st)
  then obtain items' where w: "walkBranch f items path stack [] st = Inr (items', st')" "v' = GBranch items'"
    by (auto simp: bindE_def split: sum.splits)
  with 8(1) [OF w(1), of stack' "[]" u] 8 show ?case by fastforce
next
  case (9 f vs path stack st)
  then obtain vs' where w: "walkSlice f vs path stack [] st = Inr (vs', st')" "v' = GSlice vs'"
    by (auto simp: bindE_def split: sum.splits)
  with 9(1) [OF w(1), of stack' "[]" u] 9 show ?case by fastforce
next
  case (13 f v vs path stack active st)
  let ?act = "push_comment v active"
  from 13(3) obtain v1 st1 vs1 where
      v1: "walkValue f v path (stack @ [?act]) st = Inr (v1, st1)"
    and vs1: "walkSlice f vs path stack (if is_comment v then ?act else []) st1 = Inr (vs1, st')"
    and vs': "vs' = v1 # vs1" by auto
  have masked: "masked L m (concat (stack @ [?act])) (concat (stack' @ [push_comment v active']))"
    using masked_clear [OF 13(7)] 13(7) by (cases v) auto
  have "(\<exists>w u'. walkValue (decrypt_leaf L m C key) v1 path (stack' @ [push_comment v active']) (fst st, u) = Inr (w, (fst st1, u'))
      \<and> tidy (EncryptedCommentRegex m = '''') w = canon (EncryptedCommentRegex m = '''') v)
      \<and> is_comment v1 = is_comment v \<and> (is_comment v \<longrightarrow> v1 = v)"
    by (rule 13(1) [OF v1 13(4)]) (use 13(5) masked in simp_all)
  then obtain w u1 where
      w: "walkValue (decrypt_leaf L m C key) v1 path (stack' @ [push_comment v active']) (fst st, u) = Inr (w, (fst st1, u1))"
    and canon: "tidy (EncryptedCommentRegex m = '''') w = canon (EncryptedCommentRegex m = '''') v"
    and v1': "is_comment v1 = is_comment v" "is_comment v \<Longrightarrow> v1 = v"
    by blast
  have push: "push_comment v1 active' = push_comment v active'" using v1' by (cases "is_comment v") auto
  have "masked L m (concat stack @ (if is_comment v then ?act else []))
      (concat stack' @ (if is_comment v then push_comment v active' else []))"
    using masked 13(6) by simp
  then have "\<exists>ws u'. walkSlice (decrypt_leaf L m C key) vs1 path stack' (if is_comment v then push_comment v active' else []) (fst st1, u1)
        = Inr (ws, (fst st', u'))
      \<and> map (tidy (EncryptedCommentRegex m = '''')) ws = map (canon (EncryptedCommentRegex m = '''')) vs"
    by (intro 13(2) [OF v1 refl vs1 13(4) _ 13(6)]) (use 13(5) in simp)
  then obtain ws u2 where
      "walkSlice (decrypt_leaf L m C key) vs1 path stack' (if is_comment v then push_comment v active' else []) (fst st1, u1)
        = Inr (ws, (fst st', u2))"
    and "map (tidy (EncryptedCommentRegex m = '''')) ws = map (canon (EncryptedCommentRegex m = '''')) vs"
    by blast
  with w canon v1' push show ?case
    by (intro exI [of _ "w # ws"] exI [of _ u2]) (cases "is_comment v"; simp add: vs')
next
  case (15 f c v items path stack active st)
  let ?pc = "EncryptedCommentRegex m = []"
  from 15(2) obtain v1 st1 k items1 where
      v1: "f (GComment c) path (stack @ [active @ [CValue c]]) st = Inr (v1, st1)"
    and k: "v1 = GComment k \<or> (\<exists>t. v1 = GStr t \<and> k = \<lparr>CValue = t, Inline = Inline c\<rparr>)"
    and items1: "walkBranch f items path stack (active @ [CValue c]) st1 = Inr (items1, st')"
    and items': "items' = TreeItem (KComment k) v # items1"
    by (auto split: gval.splits)
  obtain h s h1 s1 where st: "st = (h, s)" "st1 = (h1, s1)" by (metis surj_pair)
  have ok: "?pc \<or> leaf_ok (GComment c)" using 15(4) by simp
  have kk: "(case v1 of GComment x \<Rightarrow> Inr x | GStr comment \<Rightarrow> Inr \<lparr>CValue = comment, Inline = Inline c\<rparr>
      | _ \<Rightarrow> Inl (CommentWalkedTo v1)) = Inr k" using k by auto
  have rest: "\<exists>its u'. walkBranch (decrypt_leaf L m C key) items1 path stack' (active' @ [t]) (fst st1, u1) = Inr (its, (fst st', u'))
      \<and> map (tidy_item ?pc) its = map (canon_item ?pc) items"
    if "masked L m (concat stack @ active @ [CValue c]) (concat stack' @ active' @ [t])" for t u1
    by (rule 15(1) [OF v1 refl kk items1 15(3) _ 15(5)]) (use that 15(4) in auto)
  from comment_round_trip [OF v1 [unfolded 15(3) st] ok 15(6)] st have "h1 = h" by blast
  from comment_round_trip [OF v1 [unfolded 15(3) st] ok 15(6)] st consider
      (same) "v1 = GComment c"
        "\<forall>u. decrypt_leaf L m C key (GComment c) path (stack' @ [active' @ [CValue c]]) (h, u) = Inr (GComment c, (h, u))"
    | (hidden) t where "v1 = GStr t" "\<not> ?pc"
        "masked L m (concat stack @ active @ [CValue c]) (concat stack' @ active' @ [t])"
        "\<forall>u b. \<exists>u'. decrypt_leaf L m C key (GComment \<lparr>CValue = t, Inline = b\<rparr>) path (stack' @ [active' @ [t]]) (h, u)
            = Inr (GComment (bare c), (h, u'))"
    by blast
  then show ?case
  proof cases
    case same
    have "masked L m (concat stack @ active @ [CValue c]) (concat stack' @ active' @ [CValue c])"
      using masked_clear [OF 15(6)] by simp
    from rest [OF this, of u] obtain its u2 where
        "walkBranch (decrypt_leaf L m C key) items1 path stack' (active' @ [CValue c]) (fst st1, u) = Inr (its, (fst st', u2))"
        "map (tidy_item ?pc) its = map (canon_item ?pc) items" by blast
    with same k items' st \<open>h1 = h\<close> show ?thesis
      by (intro exI [of _ "TreeItem (KComment c) v # its"] exI [of _ u2]) simp
  next
    case hidden
    then obtain u1 where u1: "decrypt_leaf L m C key (GComment \<lparr>CValue = t, Inline = Inline c\<rparr>) path (stack' @ [active' @ [t]]) (h, u)
            = Inr (GComment (bare c), (h, u1))" by blast
    from rest [OF hidden(3), of u1] obtain its u2 where
        "walkBranch (decrypt_leaf L m C key) items1 path stack' (active' @ [t]) (fst st1, u1) = Inr (its, (fst st', u2))"
        "map (tidy_item ?pc) its = map (canon_item ?pc) items" by blast
    with hidden u1 k items' st \<open>h1 = h\<close> show ?thesis
      by (intro exI [of _ "TreeItem (KComment (bare c)) v # its"] exI [of _ u2]) simp
  qed
next
  case (16 f k v items path stack active st)
  let ?act = "push_comment v active" and ?pc = "EncryptedCommentRegex m = []"
  from 16(3) obtain v1 st1 items1 where
      v1: "walkValue f v (path @ [k]) (stack @ [?act]) st = Inr (v1, st1)"
    and items1: "walkBranch f items path stack (if is_comment v then ?act else []) st1 = Inr (items1, st')"
    and items': "items' = TreeItem (KStr k) v1 # items1" by auto
  have masked: "masked L m (concat (stack @ [?act])) (concat (stack' @ [push_comment v active']))"
    using masked_clear [OF 16(7)] 16(7) by (cases v) auto
  have "(\<exists>w u'. walkValue (decrypt_leaf L m C key) v1 (path @ [k]) (stack' @ [push_comment v active']) (fst st, u)
        = Inr (w, (fst st1, u')) \<and> tidy ?pc w = canon ?pc v)
      \<and> is_comment v1 = is_comment v \<and> (is_comment v \<longrightarrow> v1 = v)"
    by (rule 16(1) [OF v1 16(4)]) (use 16(5) masked in simp_all)
  then obtain w u1 where
      w: "walkValue (decrypt_leaf L m C key) v1 (path @ [k]) (stack' @ [push_comment v active']) (fst st, u) = Inr (w, (fst st1, u1))"
    and canon: "tidy ?pc w = canon ?pc v"
    and v1': "is_comment v1 = is_comment v" "is_comment v \<Longrightarrow> v1 = v"
    by blast
  have push: "push_comment v1 active' = push_comment v active'" using v1' by (cases "is_comment v") auto
  have "masked L m (concat stack @ (if is_comment v then ?act else []))
      (concat stack' @ (if is_comment v then push_comment v active' else []))"
    using masked 16(6) by simp
  then have "\<exists>its u'. walkBranch (decrypt_leaf L m C key) items1 path stack' (if is_comment v then push_comment v active' else []) (fst st1, u1)
        = Inr (its, (fst st', u')) \<and> map (tidy_item ?pc) its = map (canon_item ?pc) items"
    by (intro 16(2) [OF v1 refl items1 16(4) _ 16(6)]) (use 16(5) in simp)
  then obtain its u2 where
      "walkBranch (decrypt_leaf L m C key) items1 path stack' (if is_comment v then push_comment v active' else []) (fst st1, u1)
        = Inr (its, (fst st', u2))"
    and "map (tidy_item ?pc) its = map (canon_item ?pc) items"
    by blast
  with w canon v1' push show ?case
    by (intro exI [of _ "TreeItem (KStr k) w # its"] exI [of _ u2]) (cases "is_comment v"; simp add: items')
qed (auto split: gkey.splits)

lemma walk_branches_round_trip:
  assumes "walk_branches (encrypt_leaf L m C key) bs st = Inr (bs', st')"
    and "\<forall>b\<in>set bs. \<forall>item\<in>set b. crypt_ok_item leaf_ok (EncryptedCommentRegex m = '''') item"
  shows "\<exists>cs u'. walk_branches (decrypt_leaf L m C key) bs' (fst st, u) = Inr (cs, (fst st', u'))
    \<and> map (map (tidy_item (EncryptedCommentRegex m = ''''))) cs
        = map (map (canon_item (EncryptedCommentRegex m = ''''))) bs"
  using assms
proof (induction bs arbitrary: bs' st u)
  case (Cons b bs)
  let ?pc = "EncryptedCommentRegex m = []"
  from Cons.prems(1) obtain b1 st1 bs1 where
      b1: "walkBranch (encrypt_leaf L m C key) b [] [] [] st = Inr (b1, st1)"
    and bs1: "walk_branches (encrypt_leaf L m C key) bs st1 = Inr (bs1, st')" "bs' = b1 # bs1" by auto
  from walk_round_trip(3) [OF b1 refl, of "[]" "[]" u] Cons.prems(2) obtain c u1 where
      c: "walkBranch (decrypt_leaf L m C key) b1 [] [] [] (fst st, u) = Inr (c, (fst st1, u1))"
        "map (tidy_item ?pc) c = map (canon_item ?pc) b"
    by (auto simp: masked_Nil)
  from Cons.IH [OF bs1(1), of u1] Cons.prems(2) obtain cs u2 where
      "walk_branches (decrypt_leaf L m C key) bs1 (fst st1, u1) = Inr (cs, (fst st', u2))"
      "map (map (tidy_item ?pc)) cs = map (map (canon_item ?pc)) bs" by auto
  with c bs1(2) show ?case by (intro exI [of _ "c # cs"] exI [of _ u2]) simp
qed simp

lemma Tree_round_trip:
  assumes "Tree_Encrypt L C key tree s = Inr (tree', mac, s')"
    and "\<forall>b\<in>set (Branches tree). \<forall>item\<in>set b.
      crypt_ok_item leaf_ok (EncryptedCommentRegex (TreeMetadata tree) = '''') item"
  shows "\<exists>tree'' u'. Tree_Decrypt L C key tree' u = Inr (tree'', mac, u')
    \<and> map (map (tidy_item (EncryptedCommentRegex (TreeMetadata tree) = ''''))) (Branches tree'')
        = map (map (canon_item (EncryptedCommentRegex (TreeMetadata tree) = ''''))) (Branches tree)
    \<and> TreeMetadata tree'' = TreeMetadata tree \<and> FilePath tree'' = FilePath tree"
proof -
  from assms(1) obtain bs' h where w:
      "walk_branches (encrypt_leaf L (TreeMetadata tree) C key) (Branches tree) (initial_hash (TreeMetadata tree), s) = Inr (bs', (h, s'))"
    and t: "tree' = tree\<lparr>Branches := bs'\<rparr>" "mac = hex_upper (SHA512 L h)"
    by (auto simp: Tree_Encrypt_def Let_def)
  from walk_branches_round_trip [OF w assms(2), of u] obtain cs u' where
      "walk_branches (decrypt_leaf L (TreeMetadata tree) C key) bs' (initial_hash (TreeMetadata tree), u) = Inr (cs, (h, u'))"
      "map (map (tidy_item (EncryptedCommentRegex (TreeMetadata tree) = ''''))) cs
        = map (map (canon_item (EncryptedCommentRegex (TreeMetadata tree) = ''''))) (Branches tree)"
    by auto
  with t show ?thesis by (auto simp: Tree_Decrypt_def Let_def)
qed

end

section \<open>What the MAC covers\<close>

definition bytes_of :: "golib \<Rightarrow> gval \<Rightarrow> string" where
  "bytes_of L v = (case ToBytes L v of Inl e \<Rightarrow> '''' | Inr b \<Rightarrow> b)"

text \<open>The bytes of the leaves of a value, in document order and with nothing between them.\<close>

fun leaf_bytes :: "golib \<Rightarrow> gval \<Rightarrow> string" and item_bytes :: "golib \<Rightarrow> treeitem \<Rightarrow> string" where
  "leaf_bytes L (GBranch items) = concat (map (item_bytes L) items)"
| "leaf_bytes L (GSlice vs) = concat (map (leaf_bytes L) vs)"
| "leaf_bytes L (GComment c) = ''''"
| "leaf_bytes L v = bytes_of L v"
| "item_bytes L (TreeItem k v) = (if is_comment_key k then '''' else leaf_bytes L v)"

lemma encrypt_leaf_hash:
  assumes "encrypt_leaf L m C key v path stack st = Inr (v', st')" "\<not> MACOnlyEncrypted m"
  shows "fst st' = fst st @ (if is_comment v then '''' else bytes_of L v)"
  using assms by (auto simp: encrypt_leaf_def hash_leaf_def bytes_of_def split: sum.splits if_splits)

lemma walk_hash:
  "walkValue f v path stack st = Inr (v', st') \<Longrightarrow> f = encrypt_leaf L m C key \<Longrightarrow> \<not> MACOnlyEncrypted m \<Longrightarrow>
   fst st' = fst st @ leaf_bytes L v"
  "walkSlice f vs path stack active st = Inr (vs', st') \<Longrightarrow> f = encrypt_leaf L m C key \<Longrightarrow> \<not> MACOnlyEncrypted m \<Longrightarrow>
   fst st' = fst st @ concat (map (leaf_bytes L) vs)"
  "walkBranch f items path stack active st = Inr (items', st') \<Longrightarrow> f = encrypt_leaf L m C key \<Longrightarrow> \<not> MACOnlyEncrypted m \<Longrightarrow>
   fst st' = fst st @ concat (map (item_bytes L) items)"
  by (induction f v path stack st and f vs path stack active st and f items path stack active st
      arbitrary: v' st' and vs' st' and items' st' rule: walkValue_walkSlice_walkBranch.induct)
    (fastforce dest: encrypt_leaf_hash simp: bytes_of_def)+

lemma walk_branches_hash:
  assumes "walk_branches (encrypt_leaf L m C key) bs st = Inr (bs', st')" "\<not> MACOnlyEncrypted m"
  shows "fst st' = fst st @ concat (map (item_bytes L) (concat bs))"
  using assms by (induction bs arbitrary: st bs') (fastforce dest: walk_hash(3) [OF _ refl])+

text \<open>Decryption hashes what it has decrypted.\<close>

lemma decrypt_leaf_hash:
  assumes "decrypt_leaf L m C key v path stack st = Inr (v', st')" "\<not> MACOnlyEncrypted m"
  shows "fst st' = fst st @ leaf_bytes L v'"
  using assms
  by (cases v') (auto simp: decrypt_leaf_def hash_leaf_def bytes_of_def split: sum.splits if_splits)

lemma decrypt_comment_plain:
  assumes "decrypt_leaf L m C key (GComment c) path stack st = Inr (v', st')" "EncryptedCommentRegex m = ''''"
  shows "v' = GComment c \<and> fst st' = fst st"
  using assms by (auto simp: decrypt_leaf_def shouldBeEncrypted_def hash_leaf_def split: sum.splits if_splits)

lemma walk_decrypt_hash:
  "walkValue f v path stack st = Inr (v', st') \<Longrightarrow> f = decrypt_leaf L m C key \<Longrightarrow> \<not> MACOnlyEncrypted m \<Longrightarrow>
   EncryptedCommentRegex m = '''' \<Longrightarrow> fst st' = fst st @ leaf_bytes L v'"
  "walkSlice f vs path stack active st = Inr (vs', st') \<Longrightarrow> f = decrypt_leaf L m C key \<Longrightarrow> \<not> MACOnlyEncrypted m \<Longrightarrow>
   EncryptedCommentRegex m = '''' \<Longrightarrow> fst st' = fst st @ concat (map (leaf_bytes L) vs')"
  "walkBranch f items path stack active st = Inr (items', st') \<Longrightarrow> f = decrypt_leaf L m C key \<Longrightarrow> \<not> MACOnlyEncrypted m \<Longrightarrow>
   EncryptedCommentRegex m = '''' \<Longrightarrow> fst st' = fst st @ concat (map (item_bytes L) items')"
  by (induction f v path stack st and f vs path stack active st and f items path stack active st
      arbitrary: v' st' and vs' st' and items' st' rule: walkValue_walkSlice_walkBranch.induct)
    (fastforce dest: decrypt_leaf_hash decrypt_comment_plain simp: bytes_of_def)+

lemma walk_branches_decrypt_hash:
  assumes "walk_branches (decrypt_leaf L m C key) bs st = Inr (bs', st')" "\<not> MACOnlyEncrypted m"
    and "EncryptedCommentRegex m = ''''"
  shows "fst st' = fst st @ concat (map (item_bytes L) (concat bs'))"
  using assms by (induction bs arbitrary: st bs') (fastforce dest: walk_decrypt_hash(3) [OF _ refl])+

text \<open>Whether a leaf that is no comment is selected for encryption.\<close>

definition selected :: "golib \<Rightarrow> Metadata \<Rightarrow> string list \<Rightarrow> string list list \<Rightarrow> bool" where
  "selected L m path stack =
     (case (shouldBeEncrypted L m path stack False :: unit walk_error + bool) of Inl _ \<Rightarrow> False | Inr b \<Rightarrow> b)"

text \<open>
  What the MAC of a decryption covers, from the tree before and the tree after it: the bytes of every
  leaf after decryption, in document order, and with \<open>mac_only_encrypted\<close> only those of the leaves that the
  rules select. A comment of a map counts only where comments are encrypted and its ciphertext carries
  another type than that of comments, which the tree after it does not show: \<open>comment_covers\<close>.
\<close>

definition is_container :: "gval \<Rightarrow> bool" where
  "is_container v = (case v of GBranch items \<Rightarrow> True | GSlice vs \<Rightarrow> True | _ \<Rightarrow> False)"

definition comment_covers :: "Metadata \<Rightarrow> comment \<Rightarrow> comment \<Rightarrow> string \<Rightarrow> bool" where
  "comment_covers m c c' bytes =
     (if EncryptedCommentRegex m = '''' then c' = c \<and> bytes = '''' else bytes = '''' \<or> bytes = CValue c')"

inductive value_covers :: "golib \<Rightarrow> Metadata \<Rightarrow> gval \<Rightarrow> gval \<Rightarrow> string list \<Rightarrow> string list list \<Rightarrow> string \<Rightarrow> bool"
  and slice_covers :: "golib \<Rightarrow> Metadata \<Rightarrow> gval list \<Rightarrow> gval list \<Rightarrow> string list \<Rightarrow> string list list \<Rightarrow> string list \<Rightarrow> string \<Rightarrow> bool"
  and items_cover :: "golib \<Rightarrow> Metadata \<Rightarrow> treeitem list \<Rightarrow> treeitem list \<Rightarrow> string list \<Rightarrow> string list list \<Rightarrow> string list \<Rightarrow> string \<Rightarrow> bool"
  for L m where
  leaf_counts: "\<not> is_container v \<Longrightarrow> \<not> is_container v' \<Longrightarrow> is_comment v \<or> \<not> MACOnlyEncrypted m \<or> selected L m path stack \<Longrightarrow>
    value_covers L m v v' path stack (leaf_bytes L v')"
| leaf_left_out: "\<not> is_container v \<Longrightarrow> \<not> is_comment v \<Longrightarrow> MACOnlyEncrypted m \<Longrightarrow> \<not> selected L m path stack \<Longrightarrow>
    value_covers L m v v' path stack ''''"
| branch_covers: "items_cover L m items items' path stack [] bytes \<Longrightarrow>
    value_covers L m (GBranch items) (GBranch items') path stack bytes"
| list_covers: "slice_covers L m vs vs' path stack [] bytes \<Longrightarrow>
    value_covers L m (GSlice vs) (GSlice vs') path stack bytes"
| slice_end: "slice_covers L m [] [] path stack active ''''"
| slice_step: "value_covers L m v v' path (stack @ [push_comment v active]) b \<Longrightarrow>
    slice_covers L m vs vs' path stack (if is_comment v then push_comment v active else []) bs \<Longrightarrow>
    slice_covers L m (v # vs) (v' # vs') path stack active (b @ bs)"
| items_end: "items_cover L m [] [] path stack active ''''"
| items_comment: "comment_covers m c c' b \<Longrightarrow> items_cover L m items items' path stack (active @ [CValue c]) bs \<Longrightarrow>
    items_cover L m (TreeItem (KComment c) v # items) (TreeItem (KComment c') v # items') path stack active (b @ bs)"
| items_value: "value_covers L m v v' (path @ [k]) (stack @ [push_comment v active]) b \<Longrightarrow>
    items_cover L m items items' path stack (if is_comment v then push_comment v active else []) bs \<Longrightarrow>
    items_cover L m (TreeItem (KStr k) v # items) (TreeItem (KStr k) v' # items') path stack active (b @ bs)"

inductive document_covers :: "golib \<Rightarrow> Metadata \<Rightarrow> TreeBranches \<Rightarrow> TreeBranches \<Rightarrow> string \<Rightarrow> bool" for L m where
  no_documents: "document_covers L m [] [] ''''"
| next_document: "items_cover L m b b' [] [] [] c \<Longrightarrow> document_covers L m bs bs' cs \<Longrightarrow>
    document_covers L m (b # bs) (b' # bs') (c @ cs)"

lemma selected_Inr:
  "shouldBeEncrypted L m path stack False = (Inr b :: 'e walk_error + bool) \<Longrightarrow> selected L m path stack = b"
  by (auto simp: selected_def shouldBeEncrypted_def Let_def split: if_splits)

text \<open>A leaf adds its bytes after decryption, when they count.\<close>

lemma decrypt_leaf_covers:
  assumes "decrypt_leaf L m C key v path stack st = Inr (v', st')" "\<not> is_container v"
    and "\<not> is_container u" "is_comment u = is_comment v"
  shows "\<exists>b. value_covers L m u v' path stack b \<and> fst st' = fst st @ b"
proof (cases "is_comment v \<or> \<not> MACOnlyEncrypted m \<or> selected L m path stack")
  case True
  have "fst st' = fst st @ leaf_bytes L v'"
    using assms(1) True
    by (cases v') (auto simp: decrypt_leaf_def hash_leaf_def bytes_of_def dest!: selected_Inr split: sum.splits if_splits)
  moreover have "\<not> is_container v'"
    using assms(1,2) True
    by (cases v') (auto simp: decrypt_leaf_def hash_leaf_def is_container_def dest!: selected_Inr split: sum.splits if_splits)
  ultimately show ?thesis using True assms(3,4) by (auto intro: leaf_counts)
next
  case False
  with assms(1) have "fst st' = fst st"
    by (auto simp: decrypt_leaf_def hash_leaf_def dest!: selected_Inr split: sum.splits if_splits)
  with False assms(3,4) show ?thesis by (auto intro: leaf_left_out)
qed

lemma decrypt_comment_covers:
  assumes "decrypt_leaf L m C key (GComment c) path stack st = Inr (v', st')"
    and "(case v' of GComment e \<Rightarrow> Inr e | GStr s \<Rightarrow> Inr \<lparr>CValue = s, Inline = Inline c\<rparr> | _ \<Rightarrow> Inl (CommentWalkedTo v')) = Inr c'"
  shows "\<exists>b. comment_covers m c c' b \<and> fst st' = fst st @ b"
proof (cases "EncryptedCommentRegex m = ''''")
  case True
  with decrypt_comment_plain [OF assms(1)] assms(2) show ?thesis by (auto simp: comment_covers_def)
next
  case False
  with assms show ?thesis
    by (cases v') (auto simp: comment_covers_def decrypt_leaf_def hash_leaf_def split: sum.splits if_splits)
qed

lemma nil_covers: "value_covers L m GNil GNil path stack ''''"
  using leaf_counts [of GNil GNil m L path stack] leaf_left_out [of GNil m L path stack]
  by (cases "\<not> MACOnlyEncrypted m \<or> selected L m path stack") (auto simp: is_container_def bytes_of_def)

lemma walk_covers:
  fixes f :: "('e, string \<times> 's) onLeaves"
  shows "walkValue f v path stack st = Inr (v', st') \<Longrightarrow> f = decrypt_leaf L m C key \<Longrightarrow>
   \<exists>b. value_covers L m v v' path stack b \<and> fst st' = fst st @ b"
    and "walkSlice f vs path stack active st = Inr (vs', st') \<Longrightarrow> f = decrypt_leaf L m C key \<Longrightarrow>
   \<exists>b. slice_covers L m vs vs' path stack active b \<and> fst st' = fst st @ b"
    and "walkBranch f items path stack active st = Inr (items', st') \<Longrightarrow> f = decrypt_leaf L m C key \<Longrightarrow>
   \<exists>b. items_cover L m items items' path stack active b \<and> fst st' = fst st @ b"
proof (induction f v path stack st and f vs path stack active st and f items path stack active st
      arbitrary: v' st' and vs' st' and items' st' rule: walkValue_walkSlice_walkBranch.induct)
  case (13 f v vs path stack active st)
  from "13.prems"(1) obtain w st1 ws where step: "walkValue f v path (stack @ [push_comment v active]) st = Inr (w, st1)"
      "walkSlice f vs path stack (if is_comment v then push_comment v active else []) st1 = Inr (ws, st')" "vs' = w # ws"
    by auto
  from "13.IH"(1) [OF step(1) "13.prems"(2)] obtain b where b:
      "value_covers L m v w path (stack @ [push_comment v active]) b" "fst st1 = fst st @ b" by auto
  from "13.IH"(2) [OF step(1) refl step(2) "13.prems"(2)] obtain bs where
      "slice_covers L m vs ws path stack (if is_comment v then push_comment v active else []) bs" "fst st' = fst st1 @ bs" by auto
  with b step(3) show ?case by (metis append.assoc slice_step)
next
  case (15 f c v items path stack active st)
  from "15.prems"(1) obtain w st1 c' rest where step: "f (GComment c) path (stack @ [active @ [CValue c]]) st = Inr (w, st1)"
      "(case w of GComment e \<Rightarrow> Inr e | GStr s \<Rightarrow> Inr \<lparr>CValue = s, Inline = Inline c\<rparr> | _ \<Rightarrow> Inl (CommentWalkedTo w))
        = (Inr c' :: 'e walk_error + comment)"
      "walkBranch f items path stack (active @ [CValue c]) st1 = Inr (rest, st')" "items' = TreeItem (KComment c') v # rest"
    by auto
  from decrypt_comment_covers [OF step(1) [unfolded "15.prems"(2)] step(2)] obtain b where b:
      "comment_covers m c c' b" "fst st1 = fst st @ b" by auto
  from "15.IH" [OF step(1) refl step(2,3) "15.prems"(2)] obtain bs where
      "items_cover L m items rest path stack (active @ [CValue c]) bs" "fst st' = fst st1 @ bs" by auto
  with b step(4) show ?case by (metis append.assoc items_comment)
next
  case (16 f k v items path stack active st)
  from "16.prems"(1) obtain w st1 rest where step: "walkValue f v (path @ [k]) (stack @ [push_comment v active]) st = Inr (w, st1)"
      "walkBranch f items path stack (if is_comment v then push_comment v active else []) st1 = Inr (rest, st')"
      "items' = TreeItem (KStr k) w # rest"
    by auto
  from "16.IH"(1) [OF step(1) "16.prems"(2)] obtain b where b:
      "value_covers L m v w (path @ [k]) (stack @ [push_comment v active]) b" "fst st1 = fst st @ b" by auto
  from "16.IH"(2) [OF step(1) refl step(2) "16.prems"(2)] obtain bs where
      "items_cover L m items rest path stack (if is_comment v then push_comment v active else []) bs" "fst st' = fst st1 @ bs" by auto
  with b step(3) show ?case by (metis append.assoc items_value)
next
  case (2 f b path stack st)
  then show ?case
    using decrypt_leaf_covers [of L m C key "GStr b" path stack st v' st' "GBytes b"] by (simp add: is_container_def)
next
  case (8 f items path stack st)
  then show ?case using branch_covers by fastforce
next
  case (9 f vs path stack st)
  then show ?case using list_covers by fastforce
qed (auto dest!: decrypt_leaf_covers simp: is_container_def intro: slice_end items_end nil_covers)

lemma walk_branches_covers:
  "walk_branches (decrypt_leaf L m C key) bs st = Inr (bs', st') \<Longrightarrow>
   \<exists>b. document_covers L m bs bs' b \<and> fst st' = fst st @ b"
proof (induction bs arbitrary: st bs')
  case (Cons b bs)
  from Cons.prems obtain b' st1 ws where step: "walkBranch (decrypt_leaf L m C key) b [] [] [] st = Inr (b', st1)"
      "walk_branches (decrypt_leaf L m C key) bs st1 = Inr (ws, st')" "bs' = b' # ws"
    by auto
  obtain c where c: "items_cover L m b b' [] [] [] c" "fst st1 = fst st @ c"
    using walk_covers(3) [OF step(1) refl] by auto
  obtain cs where "document_covers L m bs ws cs" "fst st' = fst st1 @ cs"
    using Cons.IH [OF step(2)] by auto
  with c step(3) show ?case by (metis append.assoc next_document)
qed (auto intro: no_documents)

text \<open>Without encrypted comments the two trees determine the bytes.\<close>

inductive_cases value_covers_cases: "value_covers L m v v' path stack b"

inductive_simps slice_covers_simps:
  "slice_covers L m [] vs' path stack active b"
  "slice_covers L m (v # vs) vs' path stack active b"

inductive_simps items_cover_simps:
  "items_cover L m [] items' path stack active b"
  "items_cover L m (TreeItem (KComment c) v # items) items' path stack active b"
  "items_cover L m (TreeItem (KStr k) v # items) items' path stack active b"

inductive_simps document_covers_simps:
  "document_covers L m [] bs' b"
  "document_covers L m (d # bs) bs' b"

lemma covers_unique:
  "value_covers L m v v' path stack b \<Longrightarrow> EncryptedCommentRegex m = '''' \<Longrightarrow>
   value_covers L m v v' path stack c \<Longrightarrow> c = b"
  "slice_covers L m vs vs' path stack active b \<Longrightarrow> EncryptedCommentRegex m = '''' \<Longrightarrow>
   slice_covers L m vs vs' path stack active c \<Longrightarrow> c = b"
  "items_cover L m items items' path stack active b \<Longrightarrow> EncryptedCommentRegex m = '''' \<Longrightarrow>
   items_cover L m items items' path stack active c \<Longrightarrow> c = b"
proof (induction arbitrary: c and c and c rule: value_covers_slice_covers_items_cover.inducts)
  case (leaf_counts v v' path stack)
  from leaf_counts(5) show ?case
    by (cases rule: value_covers_cases) (use leaf_counts(1-3) in \<open>auto simp: is_container_def\<close>)
next
  case (leaf_left_out v path stack v')
  from leaf_left_out(6) show ?case
    by (cases rule: value_covers_cases) (use leaf_left_out(1-4) in \<open>auto simp: is_container_def\<close>)
next
  case (branch_covers items items' path stack bytes)
  from branch_covers(4) show ?case
    by (cases rule: value_covers_cases) (use branch_covers(2,3) in \<open>auto simp: is_container_def\<close>)
next
  case (list_covers vs vs' path stack bytes)
  from list_covers(4) show ?case
    by (cases rule: value_covers_cases) (use list_covers(2,3) in \<open>auto simp: is_container_def\<close>)
next
  case (slice_step v v' path stack active b vs vs' bs)
  then show ?case unfolding slice_covers_simps by blast
next
  case (items_comment c c' b items items' path stack active bs v)
  then show ?case unfolding items_cover_simps by (auto simp: comment_covers_def)
next
  case (items_value v v' path k stack active b items items' bs)
  then show ?case unfolding items_cover_simps by blast
qed (simp_all add: slice_covers_simps items_cover_simps)

lemma document_covers_unique:
  "document_covers L m bs bs' b \<Longrightarrow> EncryptedCommentRegex m = '''' \<Longrightarrow> document_covers L m bs bs' c \<Longrightarrow> c = b"
proof (induction arbitrary: c rule: document_covers.induct)
  case (next_document b b' c bs bs' cs)
  then show ?case unfolding document_covers_simps using covers_unique(3) by blast
qed (simp add: document_covers_simps)

text \<open>The decision does not look at the data key.\<close>

lemma shouldBeEncrypted_DataKey: "shouldBeEncrypted L (m\<lparr>DataKey := k\<rparr>) path stack c = shouldBeEncrypted L m path stack c"
  by (simp add: shouldBeEncrypted_def Let_def cong: if_cong)

lemma decrypt_leaf_DataKey: "decrypt_leaf L (m\<lparr>DataKey := k\<rparr>) C key = decrypt_leaf L m C key"
  by (intro ext) (simp add: decrypt_leaf_def hash_leaf_def shouldBeEncrypted_DataKey cong: if_cong)

lemma Tree_Decrypt_covers:
  assumes "Tree_Decrypt L C key tree s = Inr (tree', mac, s')" "TreeMetadata tree = m\<lparr>DataKey := k\<rparr>"
  shows "\<exists>bytes. document_covers L m (Branches tree) (Branches tree') bytes
    \<and> mac = hex_upper (SHA512 L (initial_hash m @ bytes))
    \<and> (\<not> MACOnlyEncrypted m \<and> EncryptedCommentRegex m = '''' \<longrightarrow> bytes = concat (map (item_bytes L) (concat (Branches tree'))))"
proof -
  from assms obtain bs' h where
      walk: "walk_branches (decrypt_leaf L m C key) (Branches tree) (initial_hash m, s) = Inr (bs', (h, s'))"
    and tree': "Branches tree' = bs'" and mac: "mac = hex_upper (SHA512 L h)"
    by (auto simp: Tree_Decrypt_def Let_def decrypt_leaf_DataKey initial_hash_def)
  obtain bytes where "document_covers L m (Branches tree) bs' bytes" "h = initial_hash m @ bytes"
    using walk_branches_covers [OF walk] by auto
  moreover have "h = initial_hash m @ concat (map (item_bytes L) (concat bs'))"
    if "\<not> MACOnlyEncrypted m" "EncryptedCommentRegex m = ''''"
    using walk_branches_decrypt_hash [OF walk that] by simp
  ultimately show ?thesis using tree' mac by auto
qed

section \<open>What the walk leaves alone\<close>

text \<open>A document without the values of its leaves.\<close>

fun skeleton :: "gval \<Rightarrow> gval" and item_skeleton :: "treeitem \<Rightarrow> treeitem" where
  "skeleton (GBranch items) = GBranch (map item_skeleton items)"
| "skeleton (GSlice vs) = GSlice (map skeleton vs)"
| "skeleton (GComment c) = GComment c"
| "skeleton v = GNil"
| "item_skeleton (TreeItem k v) = TreeItem k (if is_comment_key k then v else skeleton v)"

lemma encrypt_leaf_skeleton:
  assumes "encrypt_leaf L m C key v path stack st = Inr (v', st')" "EncryptedCommentRegex m = ''''"
  shows "v' = v \<or> \<not> is_comment v \<and> (\<exists>t. v' = GStr t)"
  using assms by (auto simp: encrypt_leaf_def shouldBeEncrypted_def split: sum.splits if_splits)

lemma walk_skeleton:
  "walkValue f v path stack st = Inr (v', st') \<Longrightarrow> f = encrypt_leaf L m C key \<Longrightarrow> EncryptedCommentRegex m = '''' \<Longrightarrow>
   skeleton v' = skeleton v"
  "walkSlice f vs path stack active st = Inr (vs', st') \<Longrightarrow> f = encrypt_leaf L m C key \<Longrightarrow> EncryptedCommentRegex m = '''' \<Longrightarrow>
   map skeleton vs' = map skeleton vs"
  "walkBranch f items path stack active st = Inr (items', st') \<Longrightarrow> f = encrypt_leaf L m C key \<Longrightarrow> EncryptedCommentRegex m = '''' \<Longrightarrow>
   map item_skeleton items' = map item_skeleton items"
  by (induction f v path stack st and f vs path stack active st and f items path stack active st
      arbitrary: v' st' and vs' st' and items' st' rule: walkValue_walkSlice_walkBranch.induct)
    (fastforce dest: encrypt_leaf_skeleton)+

lemma walk_branches_skeleton:
  assumes "walk_branches (encrypt_leaf L m C key) bs st = Inr (bs', st')" "EncryptedCommentRegex m = ''''"
  shows "map (map item_skeleton) bs' = map (map item_skeleton) bs"
  using assms by (induction bs arbitrary: st bs') (auto dest: walk_skeleton(3) [OF _ refl])

section \<open>Samples\<close>

text \<open>A concrete instance of the library functions, a document and a cipher, for the witnesses.\<close>

definition sample_lib :: golib where
  "sample_lib = \<lparr>FormatFloat = \<lambda>x. ''1.5'', ParseFloat = \<lambda>s. Inr (F64 0), MarshalTime = \<lambda>t. Some ''2024'',
     UnmarshalTime = \<lambda>s. Inr \<lparr>seconds = 0, nanoseconds = 0, location = 0\<rparr>,
     FormatRFC3339 = \<lambda>t. ''2024'', ParseRFC3339 = \<lambda>s. Some \<lparr>seconds = 0, nanoseconds = 0, location = 0\<rparr>,
     MatchRegexp = (\<lambda>p s. p = s), SHA512 = (\<lambda>b. b)\<rparr>"

definition sample_meta :: Metadata where
  "sample_meta = \<lparr>LastModified = \<lparr>seconds = 0, nanoseconds = 0, location = 0\<rparr>,
     UnencryptedSuffix = ''_clear'', EncryptedSuffix = '''', UnencryptedRegex = '''', EncryptedRegex = '''',
     UnencryptedCommentRegex = '''', EncryptedCommentRegex = '''', MessageAuthenticationCode = '''',
     MACOnlyEncrypted = False, SopsVersion = ''4.0.0'', KeyGroups = [], ShamirThreshold = 0, DataKey = None\<rparr>"

definition sample_tree :: Tree where
  "sample_tree = \<lparr>TreeMetadata = sample_meta,
     Branches = [[TreeItem (KComment \<lparr>CValue = ''c'', Inline = True\<rparr>) GNil,
       TreeItem (KStr ''a'') (GSlice [GStr ''x'', GInt 12]), TreeItem (KStr ''b_clear'') (GBool True)]],
     FilePath = ''f''\<rparr>"

definition sample_cipher :: "(unit, nat) cipher" where
  "sample_cipher = \<lparr>cipher_Encrypt = \<lambda>v key ad n. Inr (''E'' @ nat_dec n, Suc n),
     cipher_Decrypt = \<lambda>t key ad n. (Inl (), n)\<rparr>"

lemma sample_encrypts:
  "Tree_Encrypt sample_lib sample_cipher ''k'' sample_tree 0 =
    Inr (sample_tree\<lparr>Branches := [[TreeItem (KComment \<lparr>CValue = ''c'', Inline = True\<rparr>) GNil,
       TreeItem (KStr ''a'') (GSlice [GStr ''E0'', GStr ''E1'']), TreeItem (KStr ''b_clear'') (GBool True)]]\<rparr>,
     ''78313254727565'', 2)"
  by code_simp

section \<open>Properties\<close>

text \<open>C12. The decision for a leaf: the last directive among the comments in scope decides, before
  every other rule; without one, the regular expression for encrypting comments, then the one for
  leaving comments' items in clear, then the rules on the path.\<close>

theorem decision_precedence:
  assumes "commentsStack \<noteq> []"
  shows "shouldBeEncrypted L m path commentsStack False =
    Inr (case last_directive (concat commentsStack) of
           DirectiveEncrypted \<Rightarrow> True
         | DirectiveUnencrypted \<Rightarrow> False
         | DirectiveNone \<Rightarrow>
             if EncryptedCommentRegex m \<noteq> ''''
             then \<exists>c\<in>set (concat commentsStack). MatchRegexp L (EncryptedCommentRegex m) c
             else if UnencryptedCommentRegex m \<noteq> ''''
                  \<and> (\<exists>c\<in>set (concat commentsStack). MatchRegexp L (UnencryptedCommentRegex m) c)
             then False else path_rule L m path)"
  using assms
  by (auto simp: shouldBeEncrypted_leaf leaf_rule_def foldl_apply_directive comment_rule_def list_ex_iff
      split: Directive.split)

lemma decision_precedence_witness:
  "shouldBeEncrypted sample_lib sample_meta [''k''] [[''note''], ['' SOPS:unencrypted '', ''hint'']] False
    = (Inr False :: unit walk_error + bool)"
proof -
  have "last_directive (concat [[''note''], ['' SOPS:unencrypted '', ''hint'']]) = DirectiveUnencrypted"
    by code_simp
  with decision_precedence [of "[[''note''], ['' SOPS:unencrypted '', ''hint'']]" sample_lib sample_meta "[''k'']"]
  show ?thesis by simp
qed

text \<open>Without \<open>EncryptedCommentRegex\<close> no comment is encrypted: encryption keeps every key, every
  comment and the shape of every container; only leaf values change.\<close>

lemma encrypt_keeps_comments:
  assumes "Tree_Encrypt L C key tree s = Inr (tree', mac, s')"
    and "EncryptedCommentRegex (TreeMetadata tree) = ''''"
  shows "map (map item_skeleton) (Branches tree') = map (map item_skeleton) (Branches tree)"
  using assms by (auto simp: Tree_Encrypt_def Let_def dest: walk_branches_skeleton)

lemma encrypt_keeps_comments_witness:
  "\<exists>tree' mac s'. Tree_Encrypt sample_lib sample_cipher ''k'' sample_tree 0 = Inr (tree', mac, s')
    \<and> map (map item_skeleton) (Branches tree') = map (map item_skeleton) (Branches sample_tree)"
  using encrypt_keeps_comments [OF sample_encrypts] sample_encrypts
  by (simp add: sample_tree_def sample_meta_def)

text \<open>C21. The MAC of a whole document is the hash of the bytes of its leaf values, one after the
  other: neither keys nor nesting nor the borders between values enter it.\<close>

theorem mac_of_leaf_bytes:
  assumes "Tree_Encrypt L C key tree s = Inr (tree', mac, s')"
    and "\<not> MACOnlyEncrypted (TreeMetadata tree)"
  shows "mac = hex_upper (SHA512 L (concat (map (item_bytes L) (concat (Branches tree)))))"
  using assms by (auto simp: Tree_Encrypt_def Let_def initial_hash_def dest: walk_branches_hash)

lemma mac_of_leaf_bytes_witness:
  "\<exists>tree' s'. Tree_Encrypt sample_lib sample_cipher ''k'' sample_tree 0 =
    Inr (tree', hex_upper (SHA512 sample_lib (concat (map (item_bytes sample_lib) (concat (Branches sample_tree))))), s')"
proof -
  have "\<not> MACOnlyEncrypted (TreeMetadata sample_tree)" by (simp add: sample_tree_def sample_meta_def)
  from mac_of_leaf_bytes [OF sample_encrypts this] sample_encrypts show ?thesis by metis
qed

end
