(* ===== verification/Metadata_Correct.thy ===== *)
theory Metadata_Correct
  imports Metadata_Store Flatten_Correct Tree_Crypt_Correct "HOL-Library.Multiset"
begin

text \<open>
  Correctness of the stored metadata: the stored struct gives back the internal metadata, the keys of
  every group ordered by type; and what \<open>SerializeMetadata\<close> put into the branches of a file,
  \<open>ExtractMetadata\<close> takes out again, in the nested and in both flattened layouts.
\<close>

section \<open>The struct\<close>

text \<open>The order in which \<open>internalGroupFrom\<close> lists the types.\<close>

definition by_type :: "master_key list \<Rightarrow> master_key list" where
  "by_type grp =
     concat (map (\<lambda>t. filter (\<lambda>k. TypeToIdentifier k = t) grp)
       [''kms'', ''gcp_kms'', ''hckms'', ''azure_kv'', ''hc_vault'', ''pgp'', ''age''])"

text \<open>A time is stored with the precision of RFC 3339, that is, in whole seconds.\<close>

definition stored_time :: "golib \<Rightarrow> gotime \<Rightarrow> gotime" where
  "stored_time L t = (case ParseRFC3339 L (FormatRFC3339 L t) of Some u \<Rightarrow> u | None \<Rightarrow> t)"

fun stored_key :: "golib \<Rightarrow> master_key \<Rightarrow> master_key" where
  "stored_key L (PGP k) = PGP (k\<lparr>pgp_created := stored_time L (pgp_created k)\<rparr>)"
| "stored_key L (KMS k) = KMS (k\<lparr>kms_created := stored_time L (kms_created k)\<rparr>)"
| "stored_key L (GCPKMS k) = GCPKMS (k\<lparr>gcp_created := stored_time L (gcp_created k)\<rparr>)"
| "stored_key L (HCKMS k) = HCKMS (k\<lparr>hckms_created := stored_time L (hckms_created k)\<rparr>)"
| "stored_key L (AZKV k) = AZKV (k\<lparr>azkv_created := stored_time L (azkv_created k)\<rparr>)"
| "stored_key L (HCVAULT k) = HCVAULT (k\<lparr>vault_created := stored_time L (vault_created k)\<rparr>)"
| "stored_key L (AGE k) = AGE k"

lemma stored_key_keeps [simp]:
  "TypeToIdentifier (stored_key L k) = TypeToIdentifier k"
  "EncryptedDataKey (stored_key L k) = EncryptedDataKey k"
  "KeyFromMasterKey (stored_key L k) = KeyFromMasterKey k"
  "ToString (stored_key L k) = ToString k"
  by (cases k; simp add: kms_ToString_def Let_def)+

text \<open>A key that survives storage: its date can be read back, and a key of HuaweiCloud is the one its
  identifier parses to.\<close>

fun storable_key :: "golib \<Rightarrow> master_key \<Rightarrow> bool" where
  "storable_key L (HCKMS k) =
     (parseKeyID (KeyID k) = Inr (Region k, KeyUUID k)
      \<and> ParseRFC3339 L (FormatRFC3339 L (hckms_created k)) \<noteq> None)"
| "storable_key L k =
     (case CreationDate k of None \<Rightarrow> True | Some t \<Rightarrow> ParseRFC3339 L (FormatRFC3339 L t) \<noteq> None)"

lemma parseTimestamp_format:
  "ParseRFC3339 L (FormatRFC3339 L t) = Some u \<Longrightarrow> parseTimestamp L field (FormatRFC3339 L t) = Inr u"
  by (simp add: parseTimestamp_def)

lemma mapE_stored:
  assumes "\<And>k. k \<in> set grp \<Longrightarrow>
      (case st k of None \<Rightarrow> TypeToIdentifier k \<noteq> t | Some s \<Rightarrow> TypeToIdentifier k = t \<and> f s = Inr (g k))"
  shows "mapE f (List.map_filter st grp) = Inr (map g (filter (\<lambda>k. TypeToIdentifier k = t) grp))"
  using assms
proof (induction grp)
  case (Cons k grp)
  have "mapE f (List.map_filter st grp) = Inr (map g (filter (\<lambda>k. TypeToIdentifier k = t) grp))"
    by (rule Cons.IH) (use Cons.prems in auto)
  with Cons.prems [of k] show ?case
    by (cases "st k") (auto simp: List.map_filter_simps)
qed (simp add: List.map_filter_simps)

lemmas toInternal_defs = kmskey_toInternal_def gcpkmskey_toInternal_def hckmskey_toInternal_def
  azkvkey_toInternal_def vaultkey_toInternal_def pgpkey_toInternal_def agekey_toInternal_def
  hckms_NewMasterKey_def parseTimestamp_format

lemmas fromGroup_defs = kmsKeysFromGroup_def gcpkmsKeysFromGroup_def hckmsKeysFromGroup_def
  azkvKeysFromGroup_def vaultKeysFromGroup_def pgpKeysFromGroup_def ageKeysFromGroup_def

definition stored_back ::
    "golib \<Rightarrow> (master_key \<Rightarrow> 's option) \<Rightarrow> ('s \<Rightarrow> store_error + master_key) \<Rightarrow> string \<Rightarrow> master_key \<Rightarrow> bool" where
  "stored_back L st f t k =
     (case st k of None \<Rightarrow> TypeToIdentifier k \<noteq> t | Some s \<Rightarrow> TypeToIdentifier k = t \<and> f s = Inr (stored_key L k))"

lemma stored_back:
  assumes "storable_key L k"
  shows "stored_back L (stored_kms L) (kmskey_toInternal L) ''kms'' k"
    "stored_back L (stored_gcp L) (gcpkmskey_toInternal L) ''gcp_kms'' k"
    "stored_back L (stored_hckms L) (hckmskey_toInternal L now) ''hckms'' k"
    "stored_back L (stored_azkv L) (azkvkey_toInternal L) ''azure_kv'' k"
    "stored_back L (stored_vault L) (vaultkey_toInternal L) ''hc_vault'' k"
    "stored_back L (stored_pgp L) (pgpkey_toInternal L) ''pgp'' k"
    "stored_back L stored_age agekey_toInternal ''age'' k"
  using assms by (cases k; auto simp: stored_back_def toInternal_defs stored_time_def)+

lemma internal_keys:
  assumes "\<forall>k\<in>set grp. storable_key L k"
  shows "mapE (kmskey_toInternal L) (kmsKeysFromGroup L grp) = Inr (map (stored_key L) (filter (\<lambda>k. TypeToIdentifier k = ''kms'') grp))"
    "mapE (gcpkmskey_toInternal L) (gcpkmsKeysFromGroup L grp) = Inr (map (stored_key L) (filter (\<lambda>k. TypeToIdentifier k = ''gcp_kms'') grp))"
    "mapE (hckmskey_toInternal L now) (hckmsKeysFromGroup L grp) = Inr (map (stored_key L) (filter (\<lambda>k. TypeToIdentifier k = ''hckms'') grp))"
    "mapE (azkvkey_toInternal L) (azkvKeysFromGroup L grp) = Inr (map (stored_key L) (filter (\<lambda>k. TypeToIdentifier k = ''azure_kv'') grp))"
    "mapE (vaultkey_toInternal L) (vaultKeysFromGroup L grp) = Inr (map (stored_key L) (filter (\<lambda>k. TypeToIdentifier k = ''hc_vault'') grp))"
    "mapE (pgpkey_toInternal L) (pgpKeysFromGroup L grp) = Inr (map (stored_key L) (filter (\<lambda>k. TypeToIdentifier k = ''pgp'') grp))"
    "mapE agekey_toInternal (ageKeysFromGroup grp) = Inr (map (stored_key L) (filter (\<lambda>k. TypeToIdentifier k = ''age'') grp))"
  using assms stored_back
  by (auto simp: fromGroup_defs simp flip: stored_back_def intro!: mapE_stored)

lemma internalGroupFrom_keygroup:
  assumes "\<forall>k\<in>set grp. storable_key L k"
  shows "internalGroupFrom L now (keygroup_from L grp) = Inr (map (stored_key L) (by_type grp))"
  using internal_keys [OF assms] by (simp add: internalGroupFrom_def keygroup_from_def by_type_def)

lemma mset_by_type: "mset (by_type grp) = mset grp"
proof (induction grp)
  case (Cons k grp)
  then show ?case by (cases k) (simp_all add: by_type_def)
qed (simp add: by_type_def)

lemma map_filter_Nil: "List.map_filter f xs = [] \<longleftrightarrow> (\<forall>x\<in>set xs. f x = None)"
  by (induction xs) (auto simp: List.map_filter_simps split: option.split)

lemma has_keys_keygroup: "has_keys (keygroup_from L grp) \<longleftrightarrow> grp \<noteq> []"
proof
  assume "grp \<noteq> []"
  then obtain k where k: "k \<in> set grp" by (cases grp) auto
  show "has_keys (keygroup_from L grp)"
    by (insert k, cases k; force simp: has_keys_def keygroup_from_def fromGroup_defs map_filter_Nil)
qed (auto simp: has_keys_def keygroup_from_def fromGroup_defs List.map_filter_simps)

definition crypt_rules :: "Metadata \<Rightarrow> string list" where
  "crypt_rules m = filter (\<lambda>rule. rule \<noteq> '''')
     [UnencryptedSuffix m, EncryptedSuffix m, UnencryptedRegex m, EncryptedRegex m,
      UnencryptedCommentRegex m, EncryptedCommentRegex m]"

text \<open>What storage makes of the metadata.\<close>

definition stored_form :: "golib \<Rightarrow> Metadata \<Rightarrow> Metadata" where
  "stored_form L m =
     m\<lparr>LastModified := stored_time L (LastModified m),
       KeyGroups := map (\<lambda>grp. map (stored_key L) (by_type grp)) (KeyGroups m), DataKey := None,
       UnencryptedSuffix := (if crypt_rules m = [] then DefaultUnencryptedSuffix else UnencryptedSuffix m)\<rparr>"

definition storable :: "golib \<Rightarrow> Metadata \<Rightarrow> bool" where
  "storable L m \<longleftrightarrow>
     ParseRFC3339 L (FormatRFC3339 L (LastModified m)) \<noteq> None
     \<and> KeyGroups m \<noteq> [] \<and> KeyGroups m \<noteq> [[]]
     \<and> (\<forall>grp\<in>set (KeyGroups m). \<forall>k\<in>set grp. storable_key L k)
     \<and> length (crypt_rules m) \<le> 1"

lemma internalKeygroups_from:
  assumes "storable L m"
  shows "internalKeygroups L now (metadataFromInternal L m) = Inr (map (\<lambda>grp. map (stored_key L) (by_type grp)) (KeyGroups m))"
proof (cases "length (KeyGroups m) = 1")
  case True
  then obtain grp where "KeyGroups m = [grp]" by (auto simp: length_Suc_conv)
  with assms show ?thesis
    by (simp add: internalKeygroups_def metadataFromInternal_def has_keys_keygroup storable_def
        internalGroupFrom_keygroup)
next
  case False
  then have "\<not> has_keys (TopKeys (metadataFromInternal L m))"
    and groups: "stored_KeyGroups (metadataFromInternal L m) = map (keygroup_from L) (KeyGroups m)"
    by (simp_all add: metadataFromInternal_def has_keys_def no_keys_def)
  moreover have "mapE (internalGroupFrom L now) (map (keygroup_from L) gs) = Inr (map (\<lambda>grp. map (stored_key L) (by_type grp)) gs)"
    if "\<forall>grp\<in>set gs. \<forall>k\<in>set grp. storable_key L k" for gs
    using that by (induction gs) (auto simp: internalGroupFrom_keygroup)
  ultimately show ?thesis using assms by (simp add: internalKeygroups_def storable_def)
qed

lemma ToInternal_from:
  assumes "storable L m"
  shows "ToInternal L now (metadataFromInternal L m) = Inr (stored_form L m)"
proof -
  have count: "cryptRuleCount (metadataFromInternal L m) = length (crypt_rules m)"
    by (simp add: cryptRuleCount_def crypt_rules_def metadataFromInternal_def Let_def del: filter.simps)
  have "parseTimestamp L ''lastmodified'' (stored_LastModified (metadataFromInternal L m)) = Inr (stored_time L (LastModified m))"
    using assms by (auto simp: metadataFromInternal_def Let_def parseTimestamp_format storable_def stored_time_def)
  moreover have "length (crypt_rules m) \<le> 1" using assms by (simp add: storable_def)
  ultimately show ?thesis
    using internalKeygroups_from [OF assms, of now]
    by (simp add: ToInternal_def count)
      (auto simp: stored_form_def metadataFromInternal_def Let_def intro!: Metadata.equality)
qed

section \<open>The map of the struct\<close>

text \<open>Two Go maps with the same canonical form differ in the order of entries, and in entries
  under which there is no value.\<close>

fun go_hollow :: "goval \<Rightarrow> bool" where
  "go_hollow (GoMap kvs) = (\<forall>(k, v)\<in>set kvs. go_hollow v)"
| "go_hollow (GoSlice vs) = (\<forall>v\<in>set vs. go_hollow v)"
| "go_hollow (GoVal v) = False"

fun canonical :: "goval \<Rightarrow> goval" where
  "canonical (GoMap kvs) =
     GoMap (sort_key fst (map (\<lambda>(k, v). (k, canonical v)) (filter (\<lambda>(k, v). \<not> go_hollow v) kvs)))"
| "canonical (GoSlice vs) = GoSlice (map canonical vs)"
| "canonical (GoVal v) = GoVal v"

fun go_sorted :: "goval \<Rightarrow> goval" where
  "go_sorted (GoMap kvs) = GoMap (sort_key fst (map (\<lambda>(k, v). (k, go_sorted v)) kvs))"
| "go_sorted (GoSlice vs) = GoSlice (map go_sorted vs)"
| "go_sorted (GoVal v) = GoVal v"

text \<open>Maps have no repeated keys, and the other values are scalars.\<close>

fun go_ok :: "goval \<Rightarrow> bool" where
  "go_ok (GoMap kvs) = (distinct (map fst kvs) \<and> (\<forall>(k, v)\<in>set kvs. go_ok v))"
| "go_ok (GoSlice vs) = (\<forall>v\<in>set vs. go_ok v)"
| "go_ok (GoVal v) = (\<not> IsComplexValue v \<and> \<not> is_comment v)"


lemma distinct_sort_fst: "distinct (map fst (sort_key fst kvs)) = distinct (map fst kvs)"
  by (metis distinct_map distinct_sort set_sort)

lemma sopsToGoMap_sorted:
  assumes "\<forall>(k, g)\<in>set kvs. sopsToGo (h g) = Inr (f g)" "distinct (map fst kvs)"
  shows "sopsToGoMap (map (\<lambda>(k, v). TreeItem (KStr k) v) (sort_key fst (map (\<lambda>(k, g). (k, h g)) kvs))) []
    = Inr (sort_key fst (map (\<lambda>(k, g). (k, f g)) kvs))"
proof -

  have "sopsToGoMap (map (\<lambda>(k, v). TreeItem (KStr k) v) (map (\<lambda>(k, g). (k, h g)) kvs')) acc
      = Inr (acc @ map (\<lambda>(k, g). (k, f g)) kvs')"
    if "\<forall>(k, g)\<in>set kvs'. sopsToGo (h g) = Inr (f g)" "distinct (map fst (acc @ map (\<lambda>(k, g). (k, f g)) kvs'))" for kvs' acc
    using that
  proof (induction kvs' arbitrary: acc)
    case (Cons kv kvs')
    obtain k g where kv: "kv = (k, g)" by (cases kv)
    have "k \<notin> fst ` set acc" using Cons.prems(2) by (auto simp: kv)
    then have "AList.update k (f g) acc = acc @ [(k, f g)]" by (rule update_absent)
    with Cons.prems Cons.IH [of "acc @ [(k, f g)]"] show ?case by (simp add: kv)
  qed simp
  from this [of "sort_key fst kvs" "[]"] assms distinct_sort_fst [of kvs] show ?thesis
    by (simp add: sort_key_map case_prod_unfold comp_def)
qed

lemma goToSops_comment: "go_ok g \<Longrightarrow> \<not> is_comment (goToSops g)"
  by (cases g) auto

lemma sopsToGo_leaf: "\<not> IsComplexValue v \<Longrightarrow> sopsToGo v = Inr (GoVal v)"
  by (cases v) auto

lemma sopsToGoSlice_map:
  assumes "\<forall>g\<in>set vs. sopsToGo (h g) = Inr (f g) \<and> \<not> is_comment (h g)"
  shows "sopsToGoSlice (map h vs) = Inr (map f vs)"
  using assms by (induction vs) auto

lemma sopsToGo_goToSops: "go_ok g \<Longrightarrow> sopsToGo (goToSops g) = Inr (go_sorted g)"
proof (induction g rule: go_ok.induct)
  case (1 kvs)
  then have "\<forall>(k, g)\<in>set kvs. sopsToGo (goToSops g) = Inr (go_sorted g)" by auto
  from sopsToGoMap_sorted [OF this] 1 show ?case by simp
next
  case (2 vs)
  then show ?case using sopsToGoSlice_map [of vs goToSops go_sorted] goToSops_comment by auto
qed (simp add: sopsToGo_leaf)

lemma hollow_sort: "go_hollow (go_sorted g) = go_hollow g"
  by (induction g rule: go_sorted.induct) (auto simp: case_prod_unfold)

lemma canonical_sorted: "canonical (go_sorted g) = canonical g"
proof (induction g rule: go_sorted.induct)
  case (1 kvs)
  let ?live = "\<lambda>(k, v). \<not> go_hollow v"
  have "filter ?live (sort_key fst (map (\<lambda>(k, v). (k, go_sorted v)) kvs))
      = sort_key fst (map (\<lambda>(k, v). (k, go_sorted v)) (filter ?live kvs))"
    by (simp add: filter_sort filter_map comp_def case_prod_unfold hollow_sort)
  then have "canonical (go_sorted (GoMap kvs)) =
      GoMap (sort_key fst (map (\<lambda>(k, v). (k, canonical v)) (sort_key fst (map (\<lambda>(k, v). (k, go_sorted v)) (filter ?live kvs)))))"
    by simp
  also have "\<dots> = GoMap (sort_key fst (sort_key fst (map (\<lambda>(k, v). (k, canonical (go_sorted v))) (filter ?live kvs))))"
    by (simp add: sort_key_map comp_def case_prod_unfold)
  also have "\<dots> = canonical (GoMap kvs)" using 1
    by (auto simp: sort_key_id_if_sorted intro!: arg_cong [where f = "sort_key fst"])
  finally show ?case .
qed auto

lemma entries_pairs [simp]: "entries (map (\<lambda>(k, v). TreeItem (KStr k) v) kvs) = kvs"
  by (induction kvs) auto

lemma entries_items_of [simp]: "entries (map (\<lambda>x. TreeItem (KStr (f x)) (g x)) xs) = map (\<lambda>x. (f x, g x)) xs"
  by (induction xs) auto

lemma hollow_goToSops: "go_ok g \<Longrightarrow> hollow (goToSops g) = go_hollow g"
proof (induction g rule: go_ok.induct)
  case (1 kvs)
  then have "\<forall>(k, v)\<in>set kvs. hollow (goToSops v) = go_hollow v" by auto
  moreover have "hollow (goToSops (GoMap kvs)) \<longleftrightarrow> (\<forall>(k, v)\<in>set (map (\<lambda>(k, g). (k, goToSops g)) kvs). hollow v)"
    by simp
  ultimately show ?case by auto
next
  case (2 vs)
  then have "elems (map goToSops vs) = map goToSops vs"
    by (auto simp: elems_def filter_id_conv goToSops_comment)
  with 2 show ?case by auto
next
  case (3 v)
  then show ?case by (cases v) auto
qed

lemma prune_map:
  assumes "go_ok (GoMap kvs)"
  shows "prune (goToSops (GoMap kvs)) = GBranch (map (\<lambda>(k, v). TreeItem (KStr k) v)
      (sort_key fst (map (\<lambda>(k, g). (k, prune (goToSops g))) (filter (\<lambda>(k, g). \<not> go_hollow g) kvs))))"
proof -
  have "\<forall>(k, g)\<in>set kvs. hollow (goToSops g) = go_hollow g"
    using assms hollow_goToSops by auto
  then have live: "filter (\<lambda>(k, v). \<not> hollow v) (map (\<lambda>(k, g). (k, goToSops g)) kvs) =
      map (\<lambda>(k, g). (k, goToSops g)) (filter (\<lambda>(k, g). \<not> go_hollow g) kvs)"
    by (induction kvs) auto
  show ?thesis
    by (simp add: filter_sort live) (simp add: sort_key_map comp_def case_prod_unfold)
qed

lemma normal_prune_map:
  assumes "go_ok (GoMap kvs)"
  shows "normal (prune (goToSops (GoMap kvs))) =
    GBranch (map (\<lambda>(k, v). TreeItem (KStr k) v)
      (sort_key fst (map (\<lambda>(k, g). (k, normal (prune (goToSops g)))) (filter (\<lambda>(k, g). \<not> go_hollow g) kvs))))"
  using prune_map [OF assms] by (simp add: sort_key_map comp_def case_prod_unfold sort_key_id_if_sorted)

lemma elems_goToSops: "\<forall>g\<in>set vs. go_ok g \<Longrightarrow> elems (map goToSops vs) = map goToSops vs"
  by (induction vs) (auto simp: goToSops_comment)

lemma normal_comment [simp]: "is_comment (normal v) = is_comment v"
  by (cases v) auto

lemma elems_no_comment: "\<forall>v\<in>set vs. \<not> is_comment v \<Longrightarrow> elems vs = vs"
  by (induction vs) auto

lemma sopsToGo_normal_prune: "go_ok g \<Longrightarrow> sopsToGo (normal (prune (goToSops g))) = Inr (canonical g)"
proof (induction g rule: go_ok.induct)
  case (1 kvs)
  then have step: "\<forall>(k, g)\<in>set (filter (\<lambda>(k, g). \<not> go_hollow g) kvs).
      sopsToGo (normal (prune (goToSops g))) = Inr (canonical g)" by auto
  have "distinct (map fst (filter (\<lambda>(k, g). \<not> go_hollow g) kvs))"
    using "1.prems" by (auto simp: distinct_map inj_on_def)
  from sopsToGoMap_sorted [OF step this] show ?case
    unfolding normal_prune_map [OF "1.prems"] by simp
next
  case (2 vs)
  then have ok: "\<forall>g\<in>set vs. go_ok g" by simp
  then have "normal (prune (goToSops (GoSlice vs))) = GSlice (map (\<lambda>g. normal (prune (goToSops g))) vs)"
    by (simp add: elems_goToSops elems_no_comment goToSops_comment comp_def)
  moreover have "sopsToGoSlice (map (\<lambda>g. normal (prune (goToSops g))) vs) = Inr (map canonical vs)"
    using 2 ok by (intro sopsToGoSlice_map) (auto simp: goToSops_comment)
  ultimately show ?case by simp
next
  case (3 v)
  then have "normal (prune v) = v" by (cases v) auto
  with 3 show ?case by (simp add: sopsToGo_leaf)
qed

lemma canonical_idem: "canonical (canonical g) = canonical g"
proof -
  have hollow: "go_hollow (canonical g) = go_hollow g" for g
  proof (induction g rule: canonical.induct)
    case (1 kvs)
    then have "\<not> go_hollow v \<longrightarrow> \<not> go_hollow (canonical v)" if "(k, v) \<in> set kvs" for k v
      using that by auto
    moreover have "go_hollow (canonical (GoMap kvs)) \<longleftrightarrow>
        (\<forall>k v. (k, v) \<in> set kvs \<and> \<not> go_hollow v \<longrightarrow> go_hollow (canonical v))"
      by auto
    moreover have "go_hollow (GoMap kvs) \<longleftrightarrow> (\<forall>k v. (k, v) \<in> set kvs \<longrightarrow> go_hollow v)"
      by auto
    ultimately show ?case by blast
  qed auto
  show ?thesis
  proof (induction g rule: canonical.induct)
    case (1 kvs)
    let ?live = "\<lambda>(k, v). \<not> go_hollow v"
    have "filter ?live (sort_key fst (map (\<lambda>(k, v). (k, canonical v)) (filter ?live kvs))) =
        sort_key fst (map (\<lambda>(k, v). (k, canonical v)) (filter ?live kvs))"
      by (auto simp: filter_id_conv hollow)
    then have "canonical (canonical (GoMap kvs)) =
        GoMap (sort_key fst (map (\<lambda>(k, v). (k, canonical v)) (sort_key fst (map (\<lambda>(k, v). (k, canonical v)) (filter ?live kvs)))))"
      by simp
    also have "\<dots> = GoMap (sort_key fst (map (\<lambda>(k, v). (k, canonical (canonical v))) (filter ?live kvs)))"
      by (simp add: sort_key_map comp_def case_prod_unfold sort_key_id_if_sorted)
    also have "map (\<lambda>(k, v). (k, canonical (canonical v))) (filter ?live kvs) = map (\<lambda>(k, v). (k, canonical v)) (filter ?live kvs)"
      using 1 by auto
    finally show ?case by simp
  qed auto
qed

section \<open>Metadata in the branches\<close>

text \<open>
  What is asked of \<open>mapstructure\<close> for a struct: decoding a map with the canonical form of the encoded
  one gives the struct back. Its documentation says so: a missing entry leaves the zero value, and a
  Go map has no order.
\<close>

definition mapstructure_lawful :: "mapstructure \<Rightarrow> stored_metadata \<Rightarrow> bool" where
  "mapstructure_lawful M md \<longleftrightarrow>
     (\<forall>mdMap m. ms_Encode M md = Inr mdMap \<and> canonical (GoMap m) = canonical (GoMap mdMap)
        \<longrightarrow> ms_Decode M m = Inr md)"

definition embeddable :: "mapstructure \<Rightarrow> stored_metadata \<Rightarrow> bool" where
  "embeddable M md \<longleftrightarrow>
     (case ms_Encode M md of
        Inl e \<Rightarrow> False
      | Inr mdMap \<Rightarrow> go_ok (GoMap mdMap) \<and> mdMap \<noteq> [] \<and> flat_ok (prune (goToSops (GoMap mdMap))))"

lemma string_keys_goToSops: "go_ok g \<Longrightarrow> string_keys (goToSops g)"
proof (induction g rule: go_ok.induct)
  case (1 kvs)
  then have "\<forall>(k, v)\<in>set (map (\<lambda>(k, g). (k, goToSops g)) kvs). string_keys v" by auto
  then show ?case by (auto simp: list_all_iff)
next
  case (2 vs)
  then show ?case by (auto simp: elems_goToSops)
next
  case (3 v)
  then show ?case by (cases v) auto
qed

lemma decode_canonical:
  assumes "mapstructure_lawful M md" "ms_Encode M md = Inr mdMap"
    and "sopsToGo (GBranch tree) = Inr g" "canonical g = canonical (GoMap mdMap)"
  shows "treeBranchToMetadata M tree = Inr md"
proof -
  obtain m where m: "sopsToGoMap tree [] = Inr m" "g = GoMap m" using assms(3) by auto
  have "ms_Decode M m = Inr md"
    using assms(1,2,4) unfolding mapstructure_lawful_def m(2) by blast
  with m show ?thesis by (simp add: treeBranchToMetadata_def)
qed

lemma embedded_metadata:
  assumes lawful: "mapstructure_lawful M md" and emb: "embeddable M md"
  shows "\<exists>tree flat result. metadataToTreeBranch M md = Inr tree \<and> tree \<noteq> []
    \<and> treeBranchToMetadata M tree = Inr md
    \<and> flattenTreeBranch tree '''' = Inr flat
    \<and> flattenTreeBranch tree SopsPrefix = Inr (map (with_prefix SopsPrefix) flat)
    \<and> flat \<noteq> [] \<and> unflattenTreeBranch flat = Inr result \<and> treeBranchToMetadata M result = Inr md"
proof -
  obtain mdMap where mdMap: "ms_Encode M md = Inr mdMap" "go_ok (GoMap mdMap)" "mdMap \<noteq> []"
    and ok: "flat_ok (prune (goToSops (GoMap mdMap)))"
    using emb by (auto simp: embeddable_def split: sum.splits)
  obtain tree where tree: "goToSops (GoMap mdMap) = GBranch tree" by simp
  have enc: "metadataToTreeBranch M md = Inr tree"
    using mdMap(1) tree by (simp add: metadataToTreeBranch_def)
  have "tree \<noteq> []" using tree mdMap(3) by (auto simp: sort_key_map dest: arg_cong [where f = length])
  obtain flat result where flat: "flattenTreeBranch tree '''' = Inr flat"
      "\<forall>pfx. flattenTreeBranch tree pfx = Inr (map (with_prefix pfx) flat)"
      "unflattenTreeBranch flat = Inr result" "normal (prune (GBranch tree)) = GBranch result"
    using flatten_unflatten [of tree] string_keys_goToSops [OF mdMap(2)] ok unfolding tree by blast
  have "treeBranchToMetadata M tree = Inr md"
    using sopsToGo_goToSops [OF mdMap(2)] unfolding tree
    by (rule decode_canonical [OF lawful mdMap(1) _ canonical_sorted])
  moreover have "treeBranchToMetadata M result = Inr md"
    using sopsToGo_normal_prune [OF mdMap(2)] unfolding tree flat(4)
    by (rule decode_canonical [OF lawful mdMap(1) _ canonical_idem])
  moreover have "flat \<noteq> []"
  proof
    assume "flat = []"
    then have "normal (prune (GBranch tree)) = GBranch []"
      using flat(3,4) by (simp add: unflattenTreeBranch_def new_node_def convert.simps)
    then have "entries (case prune (GBranch tree) of GBranch b \<Rightarrow> b) = []"
      by (auto simp: sort_key_map dest: arg_cong [where f = length])
    then show False using ok unfolding tree by simp
  qed
  ultimately show ?thesis using enc \<open>tree \<noteq> []\<close> flat by blast
qed

lemma reserved_key_keeps: "reserved_key opts item = Inr item' \<Longrightarrow> item' = item"
  by (cases "(opts, item)" rule: reserved_key.cases) (auto split: if_splits)

lemma mapE_reserved: "mapE (reserved_key opts) branch = Inr items \<Longrightarrow>
    items = branch \<and> (\<forall>item\<in>set branch. reserved_key opts item = Inr item)"
  by (induction branch arbitrary: items) (auto dest: reserved_key_keeps)

lemma not_reserved_nested:
  "opts \<noteq> MetadataFlattenFull \<Longrightarrow> reserved_key opts item = Inr item \<Longrightarrow> \<not> key_eq (Key item) (KStr SopsMetadataKey)"
  by (cases "(opts, item)" rule: reserved_key.cases) (auto split: if_splits)

lemma take_entry_append:
  "\<forall>item\<in>set b. \<not> key_eq (Key item) (KStr SopsMetadataKey) \<Longrightarrow>
   take_entry (b @ [TreeItem (KStr SopsMetadataKey) (GBranch t)]) False meta = Inr (b, t)"
proof (induction b)
  case (Cons item b)
  then show ?case by (cases item) auto
qed simp

lemma drop_entries_append:
  "\<forall>item\<in>set b. \<not> key_eq (Key item) (KStr SopsMetadataKey) \<Longrightarrow>
   drop_entries (b @ [TreeItem (KStr SopsMetadataKey) v]) = b"
  by (simp add: drop_entries_def)

lemma take_prefixed_append:
  assumes "\<forall>item\<in>set b. reserved_key MetadataFlattenFull item = Inr item" "\<forall>item\<in>set flat. entry item \<noteq> None"
  shows "take_prefixed (b @ map (with_prefix SopsPrefix) flat) = (b, flat)"
  using assms(1)
proof (induction b)
  case Nil
  show ?case using assms(2)
  proof (induction flat)
    case (Cons item flat)
    then show ?case by (cases item rule: entry.cases) auto
  qed simp
next
  case (Cons item b)
  then show ?case by (cases "(MetadataFlattenFull, item)" rule: reserved_key.cases) (auto split: if_splits)
qed

lemma flat_entries:
  assumes "flattenTreeBranch b pfx = Inr flat"
  shows "\<forall>item\<in>set flat. entry item \<noteq> None"
proof -
  let ?P = "\<lambda>d. \<forall>item\<in>set d. entry item \<noteq> None"
  have "flattenDescendValue v key d t = Inr (d', t') \<Longrightarrow> ?P d \<Longrightarrow> ?P d'"
    and "flattenDescendMap items pfx d t = Inr (d', t') \<Longrightarrow> ?P d \<Longrightarrow> ?P d'"
    and "flattenDescendArray vs pfx i d t = Inr (d', t') \<Longrightarrow> ?P d \<Longrightarrow> ?P d'"
    for v key d t d' t' items vs i pfx
  proof (induction v key d t and items pfx d t and vs pfx i d t arbitrary: d' t' and d' t' and d' t'
      rule: flattenDescendValue_flattenDescendMap_flattenDescendArray.induct)
  qed (force split: if_splits gkey.splits)+
  then show ?thesis using assms by (cases "flattenDescendMap b pfx [] []") (auto simp: flattenTreeBranch_def)
qed

text \<open>C39. What \<open>SerializeMetadata\<close> writes into the branches of a file, in any of the three layouts,
  \<open>ExtractMetadata\<close> takes out again: the branches are those of the document, and the metadata is the
  stored form of the document's. A layout with prefixes serves stores with a single branch.\<close>

theorem metadata_embedding:
  assumes "storable L (TreeMetadata data)"
    and "mapstructure_lawful M (metadataFromInternal L (TreeMetadata data))"
    and "embeddable M (metadataFromInternal L (TreeMetadata data))"
    and "SerializeMetadata L M opts data = Inr branches" "Branches data \<noteq> []"
    and "opts = MetadataFlattenFull \<longrightarrow> length (Branches data) = 1"
  shows "ExtractMetadata L M now opts branches = Inr (Branches data, stored_form L (TreeMetadata data))"
proof -
  obtain tree flat result where emb:
      "metadataToTreeBranch M (metadataFromInternal L (TreeMetadata data)) = Inr tree" "tree \<noteq> []"
      "treeBranchToMetadata M tree = Inr (metadataFromInternal L (TreeMetadata data))"
      "flattenTreeBranch tree '''' = Inr flat"
      "flattenTreeBranch tree SopsPrefix = Inr (map (with_prefix SopsPrefix) flat)"
      "flat \<noteq> []" "unflattenTreeBranch flat = Inr result"
      "treeBranchToMetadata M result = Inr (metadataFromInternal L (TreeMetadata data))"
    using embedded_metadata [OF assms(2,3)] by blast
  define meta where "meta = (if opts = MetadataFlattenNone then tree else flat)"
  define md where "md = (if opts = MetadataFlattenFull then map (with_prefix SopsPrefix) flat
      else [TreeItem (KStr SopsMetadataKey) (GBranch meta)])"
  have added: "mapE (\<lambda>branch. bindE (mapE (reserved_key opts) branch) (\<lambda>items. Inr (items @ md))) (Branches data)
      = Inr branches"
    using assms(4) emb by (cases opts) (auto simp: SerializeMetadata_def md_def meta_def)
  have all: "branches' = map (\<lambda>b. b @ md) bs \<and> (\<forall>b\<in>set bs. \<forall>item\<in>set b. reserved_key opts item = Inr item)"
    if "mapE (\<lambda>branch. bindE (mapE (reserved_key opts) branch) (\<lambda>items. Inr (items @ md))) bs = Inr branches'"
    for bs branches'
    using that by (induction bs arbitrary: branches') (auto dest!: mapE_reserved)
  obtain first others where bs: "Branches data = first # others"
    using assms(5) by (cases "Branches data") auto
  from all [OF added] have branches: "branches = (first @ md) # map (\<lambda>b. b @ md) others"
    and free: "\<forall>b\<in>set (Branches data). \<forall>item\<in>set b. reserved_key opts item = Inr item"
    by (auto simp: bs)
  have "take_metadata opts branches = Inr (Branches data, meta)"
  proof (cases "opts = MetadataFlattenFull")
    case True
    then have "others = []" using assms(6) bs by simp
    with True free show ?thesis using flat_entries [OF emb(4)]
      by (simp add: take_metadata_def branches bs md_def meta_def take_prefixed_append)
  next
    case False
    have plain: "\<forall>b\<in>set (Branches data). \<forall>item\<in>set b. \<not> key_eq (Key item) (KStr SopsMetadataKey)"
      using free not_reserved_nested [OF False] by blast
    then have "take_entry (first @ md) False [] = Inr (first, meta)"
      using False by (simp add: bs md_def take_entry_append)
    moreover have "map drop_entries (map (\<lambda>b. b @ md) others) = others"
      using plain False by (simp add: bs md_def comp_def) (simp add: drop_entries_append map_idI)
    ultimately show ?thesis using False by (simp add: take_metadata_def branches bs)
  qed
  then show ?thesis using emb ToInternal_from [OF assms(1)]
    by (cases opts) (simp_all add: ExtractMetadata_def meta_def)
qed

definition stored_sample :: Metadata where
  "stored_sample = sample_meta
     \<lparr>KeyGroups := [[AGE \<lparr>Recipient = ''age1x'', age_enc = ''E1''\<rparr>,
        PGP \<lparr>Fingerprint = ''ABCD'', pgp_enc = ''E2'', pgp_created = \<lparr>seconds = 0, nanoseconds = 0, location = 0\<rparr>\<rparr>]]\<rparr>"

definition stored_tree :: Tree where
  "stored_tree = sample_tree\<lparr>TreeMetadata := stored_sample\<rparr>"

text \<open>A decoder that knows the maps of one struct.\<close>

definition sample_fields :: "stored_metadata \<Rightarrow> (string \<times> goval) list" where
  "sample_fields md =
     [(''version'', GoVal (GStr (stored_Version md))),
      (''mac'', GoVal (GStr (stored_MessageAuthenticationCode md))),
      (''age'', GoSlice (map (\<lambda>k. GoMap [(''recipient'', GoVal (GStr (agekey_Recipient k))),
         (''enc'', GoVal (GStr (agekey_enc k)))]) (AgeKeys (TopKeys md)))),
      (''kms'', GoSlice [])]"

definition sample_mapstructure :: mapstructure where
  "sample_mapstructure =
     (let md = metadataFromInternal sample_lib stored_sample
      in \<lparr>ms_Encode = (\<lambda>m. Inr (sample_fields m)),
          ms_Decode = (\<lambda>m. if canonical (GoMap m) = canonical (GoMap (sample_fields md)) then Inr md else Inl '''')\<rparr>)"

lemma stored_sample_storable: "storable sample_lib stored_sample"
  by code_simp

text \<open>The stored struct keeps the metadata: the keys of every group come back ordered by type, the
  data key is not stored, dates lose what RFC 3339 does not hold, and metadata without a rule for encryption gets the default suffix.\<close>

lemma metadata_round_trip:
  assumes "storable L m"
  shows "ToInternal L now (metadataFromInternal L m) = Inr (stored_form L m)
    \<and> map mset (KeyGroups (stored_form L m)) = map (image_mset (stored_key L) \<circ> mset) (KeyGroups m)
    \<and> DataKey (stored_form L m) = None"
  using ToInternal_from [OF assms] by (simp add: stored_form_def mset_by_type)

lemma metadata_round_trip_witness:
  "ToInternal sample_lib (LastModified stored_sample) (metadataFromInternal sample_lib stored_sample) = Inr (stored_form sample_lib stored_sample)"
  using metadata_round_trip [OF stored_sample_storable] by blast

lemma metadata_embedding_witness:
  "\<exists>branches. SerializeMetadata sample_lib sample_mapstructure MetadataFlattenFull stored_tree = Inr branches
    \<and> ExtractMetadata sample_lib sample_mapstructure (LastModified stored_sample) MetadataFlattenFull branches
      = Inr (Branches stored_tree, stored_form sample_lib stored_sample)"
proof -
  have "mapstructure_lawful sample_mapstructure (metadataFromInternal sample_lib (TreeMetadata stored_tree))"
    by (simp add: mapstructure_lawful_def sample_mapstructure_def stored_tree_def Let_def)
  moreover have "embeddable sample_mapstructure (metadataFromInternal sample_lib (TreeMetadata stored_tree))"
    by code_simp
  moreover have "\<not> isl (SerializeMetadata sample_lib sample_mapstructure MetadataFlattenFull stored_tree)"
    by code_simp
  then obtain branches where "SerializeMetadata sample_lib sample_mapstructure MetadataFlattenFull stored_tree = Inr branches"
    by (auto simp: not_isl_iff)
  moreover have "Branches stored_tree \<noteq> []" "length (Branches stored_tree) = 1"
    by code_simp+
  moreover have "TreeMetadata stored_tree = stored_sample"
    by (simp add: stored_tree_def)
  ultimately show ?thesis
    using metadata_embedding [of sample_lib stored_tree sample_mapstructure MetadataFlattenFull branches]
      stored_sample_storable by auto
qed

end
