(* ===== verification/Dotenv_Correct.thy ===== *)
theory Dotenv_Correct
  imports Dotenv Metadata_Correct
begin

text \<open>
  The encrypted dotenv file: what \<open>EmitEncryptedFile\<close> wrote, \<open>LoadEncryptedFile\<close> reads, every value
  as its text. The metadata passes through texts too; that \<open>mapstructure\<close> decodes the text of a
  number or a boolean (its option \<open>WeaklyTypedInput\<close>) is the hypothesis \<open>decodes_texts\<close>.
\<close>

section \<open>Leaves replaced by their texts\<close>

fun go_map :: "(gval \<Rightarrow> gval) \<Rightarrow> goval \<Rightarrow> goval" where
  "go_map f (GoMap kvs) = GoMap (map (\<lambda>(k, v). (k, go_map f v)) kvs)"
| "go_map f (GoSlice vs) = GoSlice (map (go_map f) vs)"
| "go_map f (GoVal v) = GoVal (f v)"

definition scalar :: "gval \<Rightarrow> bool" where
  "scalar v \<longleftrightarrow> \<not> IsComplexValue v \<and> \<not> is_comment v"

lemma go_ok_map:
  assumes "\<forall>v. scalar (f v)"
  shows "go_ok g \<Longrightarrow> go_ok (go_map f g)"
  by (induction g rule: go_ok.induct) (use assms in \<open>auto simp: scalar_def comp_def case_prod_unfold\<close>)

lemma elems_go_map:
  assumes "\<forall>v. scalar (f v)" "\<forall>g\<in>set vs. go_ok g"
  shows "elems (map goToSops (map (go_map f) vs)) = map goToSops (map (go_map f) vs)"
    "elems (map goToSops vs) = map goToSops vs"
  by (rule elems_goToSops, use go_ok_map [OF assms(1)] assms(2) in auto)+

lemma go_hollow_map: "go_hollow (go_map f g) = go_hollow g"
  by (induction f g rule: go_map.induct) (auto simp: case_prod_unfold)

lemma leaves_scalar: "scalar v \<Longrightarrow> leaves v = [([], v)]"
  by (cases v) (auto simp: scalar_def)

lemma leaves_go_map:
  assumes f: "\<forall>v. scalar (f v)"
  shows "go_ok g \<Longrightarrow> leaves (goToSops (go_map f g)) = map (apsnd f) (leaves (goToSops g))"
proof (induction g rule: go_ok.induct)
  case (1 kvs)
  have IH: "leaves (goToSops (go_map f v)) = map (apsnd f) (leaves (goToSops v))" if "(k, v) \<in> set kvs" for k v
    using 1 that by auto
  have "leaves (goToSops (go_map f (GoMap kvs))) =
      concat (map (\<lambda>(k, v). map (apfst (Cons (MapToken k))) (leaves (goToSops (go_map f v)))) (sort_key fst kvs))"
    by (simp add: sort_key_map comp_def case_prod_unfold)
  also have "\<dots> = concat (map (\<lambda>(k, v). map (apsnd f) (map (apfst (Cons (MapToken k))) (leaves (goToSops v)))) (sort_key fst kvs))"
    using IH by (intro arg_cong [where f = concat] map_cong) (auto simp: comp_def)
  also have "\<dots> = map (apsnd f) (leaves (goToSops (GoMap kvs)))"
    by (simp add: sort_key_map comp_def case_prod_unfold map_concat)
  finally show ?case .
next
  case (2 vs)
  have IH: "leaves (goToSops (go_map f v)) = map (apsnd f) (leaves (goToSops v))" if "v \<in> set vs" for v
    using 2 that by auto
  have elems: "elems (map goToSops (map (go_map f) vs)) = map goToSops (map (go_map f) vs)"
      "elems (map goToSops vs) = map goToSops vs"
    by (rule elems_go_map [OF f], use 2 in simp)+
  have "leaves (goToSops (go_map f (GoSlice vs))) =
      concat (map (\<lambda>(i, v). map (apfst (Cons (ListToken (int i)))) (leaves (goToSops (go_map f v)))) (List.enumerate 0 vs))"
    using elems(1) by (simp add: enumerate_map comp_def case_prod_unfold)
  also have "\<dots> = concat (map (\<lambda>(i, v). map (apsnd f) (map (apfst (Cons (ListToken (int i)))) (leaves (goToSops v)))) (List.enumerate 0 vs))"
    using IH by (intro arg_cong [where f = concat] map_cong) (auto simp: comp_def in_set_enumerate_eq)
  also have "\<dots> = map (apsnd f) (leaves (goToSops (GoSlice vs)))"
    using elems(2) by (simp add: enumerate_map comp_def case_prod_unfold map_concat)
  finally show ?case .
next
  case (3 v)
  then show ?case using f by (simp add: leaves_scalar) (simp add: scalar_def leaves_scalar)
qed

lemma flat_ok_go_map:
  assumes f: "\<forall>v. scalar (f v)"
  shows "go_ok g \<Longrightarrow> flat_ok (prune (goToSops g)) \<Longrightarrow> flat_ok (prune (goToSops (go_map f g)))"
proof (induction g rule: go_ok.induct)
  case (1 kvs)
  let ?live = "\<lambda>(k, g). \<not> go_hollow g"
  have ok: "go_ok (GoMap (map (\<lambda>(k, v). (k, go_map f v)) kvs))"
    using go_ok_map [OF f "1.prems"(1)] by simp
  have "filter ?live (map (\<lambda>(k, v). (k, go_map f v)) kvs) = map (\<lambda>(k, v). (k, go_map f v)) (filter ?live kvs)"
    by (simp add: filter_map comp_def case_prod_unfold go_hollow_map)
  then show ?case
    using 1 unfolding go_map.simps prune_map [OF ok] prune_map [OF "1.prems"(1)]
    by (auto simp: sort_key_map comp_def case_prod_unfold list_all_iff)
next
  case (2 vs)
  have elems: "elems (map goToSops (map (go_map f) vs)) = map goToSops (map (go_map f) vs)"
      "elems (map goToSops vs) = map goToSops vs"
    by (rule elems_go_map [OF f], use 2 in simp)+
  have "elems (map prune (map goToSops vs)) = map prune (map goToSops vs)"
     "elems (map prune (map goToSops (map (go_map f) vs))) = map prune (map goToSops (map (go_map f) vs))"
    by (metis elems elems_map_prune)+
  then show ?case using 2 elems by (auto simp: comp_def)
next
  case (3 v)
  have "flat_ok v" if "scalar v" for v using that by (cases v) (auto simp: scalar_def)
  moreover have "prune v = v" if "scalar v" for v using that by (cases v) (auto simp: scalar_def)
  ultimately show ?case using f by simp
qed

section \<open>Metadata read back from texts\<close>

definition decodes_mapped :: "mapstructure \<Rightarrow> (gval \<Rightarrow> gval) \<Rightarrow> stored_metadata \<Rightarrow> bool" where
  "decodes_mapped M f md \<longleftrightarrow>
     (\<forall>mdMap m. ms_Encode M md = Inr mdMap \<and> canonical (GoMap m) = canonical (go_map f (GoMap mdMap))
        \<longrightarrow> ms_Decode M m = Inr md)"

definition decodes_texts :: "golib \<Rightarrow> valfmt \<Rightarrow> mapstructure \<Rightarrow> stored_metadata \<Rightarrow> bool" where
  "decodes_texts L F M md \<longleftrightarrow> decodes_mapped M (\<lambda>v. GStr (value_text L F v)) md"

fun item_map :: "(gval \<Rightarrow> gval) \<Rightarrow> treeitem \<Rightarrow> treeitem" where
  "item_map f (TreeItem k v) = TreeItem k (f v)"

lemma embedded_mapped:
  assumes f: "\<forall>v. scalar (f v)" and lawful: "decodes_mapped M f md" and emb: "embeddable M md"
  shows "\<exists>tree flat result. metadataToTreeBranch M md = Inr tree
    \<and> flattenTreeBranch tree '''' = Inr flat
    \<and> flattenTreeBranch tree SopsPrefix = Inr (map (with_prefix SopsPrefix) flat) \<and> flat \<noteq> []
    \<and> unflattenTreeBranch (map (item_map f) flat) = Inr result \<and> treeBranchToMetadata M result = Inr md"
proof -
  obtain mdMap where mdMap: "ms_Encode M md = Inr mdMap" "go_ok (GoMap mdMap)" "mdMap \<noteq> []"
    and ok: "flat_ok (prune (goToSops (GoMap mdMap)))"
    using emb by (auto simp: embeddable_def split: sum.splits)
  let ?g = "go_map f (GoMap mdMap)"
  obtain tree tree' where tree: "goToSops (GoMap mdMap) = GBranch tree" "goToSops ?g = GBranch tree'" by simp
  have enc: "metadataToTreeBranch M md = Inr tree"
    using mdMap(1) tree(1) by (simp add: metadataToTreeBranch_def)
  have ok': "go_ok ?g" "flat_ok (prune (goToSops ?g))"
    by (rule go_ok_map [OF f mdMap(2)], rule flat_ok_go_map [OF f mdMap(2) ok])
  have flat: "flattenTreeBranch tree pfx = Inr (map (with_prefix pfx) (flat_branch tree))" for pfx
    using flatten_unflatten_branch(1) [of tree pfx] string_keys_goToSops [OF mdMap(2)] ok unfolding tree by blast
  have "with_prefix '''' item = item" for item by (cases item rule: entry.cases) auto
  then have flat0: "flattenTreeBranch tree '''' = Inr (flat_branch tree)" using flat by (simp add: map_idI)
  have mapped: "flat_branch tree' = map (item_map f) (flat_branch tree)"
    using leaves_go_map [OF f mdMap(2)] unfolding tree flat_branch_def
    by (simp add: comp_def case_prod_unfold del: leaves.simps)
  obtain result where result: "unflattenTreeBranch (flat_branch tree') = Inr result"
      "normal (prune (GBranch tree')) = GBranch result"
    using flatten_unflatten_branch(2) [of tree'] string_keys_goToSops [OF ok'(1)] ok'(2) unfolding tree by blast
  have "sopsToGo (GBranch result) = Inr (canonical ?g)"
    using sopsToGo_normal_prune [OF ok'(1)] unfolding tree result(2) .
  then obtain m where m: "sopsToGoMap result [] = Inr m" "canonical ?g = GoMap m" by auto
  have "canonical (GoMap m) = canonical ?g" unfolding m(2) [symmetric] by (rule canonical_idem)
  then have "ms_Decode M m = Inr md" using lawful mdMap(1) unfolding decodes_mapped_def by blast
  then have "treeBranchToMetadata M result = Inr md" using m by (simp add: treeBranchToMetadata_def)
  moreover have "flat_branch tree \<noteq> []"
  proof
    assume "flat_branch tree = []"
    then have "flat_branch tree' = []" using mapped by simp
    then have "normal (prune (GBranch tree')) = GBranch []"
      using result by (simp add: unflattenTreeBranch_def new_node_def convert.simps)
    then have "entries (case prune (GBranch tree') of GBranch b \<Rightarrow> b) = []"
      by (auto simp: sort_key_map dest: arg_cong [where f = length])
    then show False using ok'(2) unfolding tree by simp
  qed
  ultimately show ?thesis using enc flat flat0 result(1) unfolding mapped by blast
qed

section \<open>The encrypted file\<close>

text \<open>The metadata can be written as lines.\<close>

definition metadata_lines :: "golib \<Rightarrow> valfmt \<Rightarrow> mapstructure \<Rightarrow> stored_metadata \<Rightarrow> bool" where
  "metadata_lines L F M md \<longleftrightarrow>
     (\<forall>tree flat. metadataToTreeBranch M md = Inr tree \<and> flattenTreeBranch tree SopsPrefix = Inr flat
        \<longrightarrow> (\<forall>item\<in>set flat. line_ok L F item))"

lemma as_line_mapped: "entry item \<noteq> None \<Longrightarrow>
    as_line L F (with_prefix p item) = with_prefix p (item_map (\<lambda>v. GStr (value_text L F v)) item)"
  by (cases item rule: entry.cases) auto

lemma dotenv_encrypted:
  assumes "storable L (TreeMetadata tree)"
    and "decodes_texts L F M (metadataFromInternal L (TreeMetadata tree))"
    and "embeddable M (metadataFromInternal L (TreeMetadata tree))"
    and "metadata_lines L F M (metadataFromInternal L (TreeMetadata tree))"
    and branch: "Branches tree = [b]" "\<forall>item\<in>set b. line_ok L F item \<and> as_line L F item = item"
    and "dotenv_EmitEncryptedFile L F M tree = Inr out"
  shows "dotenv_LoadEncryptedFile L M now out =
    Inr \<lparr>TreeMetadata = stored_form L (TreeMetadata tree), Branches = [b], FilePath = ''''\<rparr>"
proof -
  let ?f = "\<lambda>v. GStr (value_text L F v)" and ?md = "metadataFromInternal L (TreeMetadata tree)"
  have "\<forall>v. scalar (?f v)" by (simp add: scalar_def)
  from embedded_mapped [OF this assms(2) [unfolded decodes_texts_def] assms(3)] obtain t flat result where emb:
      "metadataToTreeBranch M ?md = Inr t" "flattenTreeBranch t '''' = Inr flat"
      "flattenTreeBranch t SopsPrefix = Inr (map (with_prefix SopsPrefix) flat)" "flat \<noteq> []"
      "unflattenTreeBranch (map (item_map ?f) flat) = Inr result" "treeBranchToMetadata M result = Inr ?md" by blast
  define meta where "meta = map (with_prefix SopsPrefix) flat"
  obtain branches where ser: "SerializeMetadata L M MetadataFlattenFull tree = Inr branches"
      "dotenv_EmitPlainFile L F branches = Inr out"
    using assms(7) by (auto simp: dotenv_EmitEncryptedFile_def split: sum.splits)
  from ser(1) emb branch(1) have br: "branches = [b @ meta]"
    and free: "\<forall>item\<in>set b. reserved_key MetadataFlattenFull item = Inr item"
    by (auto simp: SerializeMetadata_def meta_def dest!: mapE_reserved)
  have "\<forall>item\<in>set (b @ meta). line_ok L F item"
    using branch(2) assms(4) emb(1,3) by (auto simp: metadata_lines_def meta_def)
  from load_emit_plain [OF this, of "[]"] ser(2) br
  have load: "dotenv_LoadPlainFile out = Inr [map (as_line L F) (b @ meta)]" by simp
  have named: "\<forall>item\<in>set flat. entry item \<noteq> None" by (rule flat_entries [OF emb(2)])
  have "map (as_line L F) (b @ meta) = b @ map (with_prefix SopsPrefix) (map (item_map ?f) flat)"
    using branch(2) named by (simp add: meta_def map_idI as_line_mapped)
  moreover have "\<forall>item\<in>set (map (item_map ?f) flat). entry item \<noteq> None"
  proof -
    have "entry (item_map ?f item) \<noteq> None" if "entry item \<noteq> None" for item
      using that by (cases item rule: entry.cases) auto
    then show ?thesis using named by auto
  qed
  ultimately have "take_metadata MetadataFlattenFull [map (as_line L F) (b @ meta)] = Inr ([b], map (item_map ?f) flat)"
    using take_prefixed_append [OF free] by (simp add: take_metadata_def del: map_map)
  then show ?thesis
    using load emb ToInternal_from [OF assms(1)]
    by (simp add: dotenv_LoadEncryptedFile_def ExtractMetadata_def)
qed

end
