(* ===== verification/Aes_Cipher.thy ===== *)
theory Aes_Cipher
  imports Tree_Crypt_Correct Base64
begin

text \<open>
  The cipher of \<open>src/aes/cipher.go\<close>: the text format of an encrypted value and its parser, the stash
  of nonces, \<open>Encrypt\<close> and \<open>Decrypt\<close>. AES-GCM itself is a parameter, with the laws of an AEAD.
  The random source is the list of the bytes it will yield; it fails when too few are left.
\<close>

section \<open>State and parameters\<close>

record gcm =
  gcm_Seal :: "string \<Rightarrow> string \<Rightarrow> string \<Rightarrow> string \<Rightarrow> string"
  gcm_Open :: "string \<Rightarrow> string \<Rightarrow> string \<Rightarrow> string \<Rightarrow> string option"

text \<open>The documented laws of the AEAD: the tag of 16 bytes is appended, and opening inverts sealing.\<close>

definition gcm_lawful :: "gcm \<Rightarrow> bool" where
  "gcm_lawful G \<longleftrightarrow>
     (\<forall>key nonce plain aad. length (gcm_Seal G key nonce plain aad) = length plain + 16
        \<and> gcm_Open G key nonce (gcm_Seal G key nonce plain aad) aad = Some plain)"

datatype aes_error =
    NotSopsFormat string
  | Base64Data | Base64IV | Base64Tag
  | InvalidKeySize nat
  | EmptyNonce
  | AuthenticationFailed
  | BadInt num_error | BadFloat | BadBool | BadTime
  | UnknownDatatype string
  | RandomSourceFailed
  | TimestampMarshal
  | UnsupportedPlaintext
  | PanicUnhashableKey
  | PanicNonceLength

record encryptedValue =
  data :: string
  iv :: string
  tag :: string
  datatyp :: string

type_synonym stash_entry = "(string \<times> gval) \<times> string"

record cipher_state =
  stash :: "stash_entry list"
  random :: string

section \<open>The text format\<close>

text \<open>
  A group \<open>(.+)\<close> of \<open>encre\<close> followed by the literal \<open>sep\<close> and then by what \<open>k\<close> matches: the
  longest piece without a line feed for which the rest matches.
\<close>

fun first_some :: "('a \<Rightarrow> 'b option) \<Rightarrow> 'a list \<Rightarrow> 'b option" where
  "first_some f [] = None"
| "first_some f (x # xs) = (case f x of None \<Rightarrow> first_some f xs | Some y \<Rightarrow> Some y)"

definition group_then :: "string \<Rightarrow> (string \<Rightarrow> 'a option) \<Rightarrow> string \<Rightarrow> (string \<times> 'a) option" where
  "group_then sep k s =
     first_some
       (\<lambda>n. if has_prefix (drop n s) sep
            then map_option (Pair (take n s)) (k (drop (n + length sep) s)) else None)
       (rev [1..<Suc (length (takeWhile (\<lambda>c. c \<noteq> CHR 0x0A) s))])"

definition encre_match :: "string \<Rightarrow> (string \<times> string \<times> string \<times> string) option" where
  "encre_match value =
     (if has_prefix value ''ENC[AES256_GCM,data:''
      then map_option (\<lambda>(d, i, t, ty, _). (d, i, t, ty))
        (group_then '',iv:'' (group_then '',tag:'' (group_then '',type:'' (group_then '']'' (\<lambda>_. Some ()))))
          (drop (length ''ENC[AES256_GCM,data:'') value))
      else None)"

definition parse_value :: "string \<Rightarrow> aes_error + encryptedValue" where
  "parse_value value =
     (case encre_match value of
        None \<Rightarrow> Inl (NotSopsFormat value)
      | Some (d, i, t, ty) \<Rightarrow>
          (case DecodeString d of None \<Rightarrow> Inl Base64Data | Some d' \<Rightarrow>
          (case DecodeString i of None \<Rightarrow> Inl Base64IV | Some i' \<Rightarrow>
          (case DecodeString t of None \<Rightarrow> Inl Base64Tag | Some t' \<Rightarrow>
             Inr \<lparr>data = d', iv = i', tag = t', datatyp = ty\<rparr>))))"

definition format_value :: "string \<Rightarrow> string \<Rightarrow> string \<Rightarrow> string \<Rightarrow> string" where
  "format_value d i t ty =
     ''ENC[AES256_GCM,data:'' @ EncodeToString d @ '',iv:'' @ EncodeToString i
       @ '',tag:'' @ EncodeToString t @ '',type:'' @ ty @ '']''"

section \<open>The stash\<close>

text \<open>Go's \<open>==\<close> on the hashable plaintexts: identity, but for floats.\<close>

fun plaintext_eq :: "gval \<Rightarrow> gval \<Rightarrow> bool" where
  "plaintext_eq (GFloat x) (GFloat y) = f64_eq x y"
| "plaintext_eq v w = (v = w)"

fun hashable :: "gval \<Rightarrow> bool" where
  "hashable (GBytes b) = False"
| "hashable (GSlice vs) = False"
| "hashable (GBranch b) = False"
| "hashable v = True"

definition stash_get :: "stash_entry list \<Rightarrow> string \<Rightarrow> gval \<Rightarrow> string option" where
  "stash_get st aad v =
     map_option snd (find (\<lambda>((a, w), i). a = aad \<and> plaintext_eq w v) st)"

definition stash_put :: "stash_entry list \<Rightarrow> string \<Rightarrow> gval \<Rightarrow> string \<Rightarrow> stash_entry list" where
  "stash_put st aad v i = ((aad, v), i) # filter (\<lambda>((a, w), _). \<not> (a = aad \<and> plaintext_eq w v)) st"

section \<open>Encrypt and Decrypt\<close>

fun isEmpty :: "gval \<Rightarrow> bool" where
  "isEmpty (GStr s) = (s = '''')"
| "isEmpty (GBytes b) = (b = '''')"
| "isEmpty (GComment c) = (CValue c = '''')"
| "isEmpty _ = False"

definition valid_key :: "string \<Rightarrow> bool" where
  "valid_key key \<longleftrightarrow> length key \<in> {16, 24, 32}"

text \<open>\<open>strconv.ParseBool\<close>.\<close>

definition parse_bool :: "string \<Rightarrow> bool option" where
  "parse_bool s =
     (if s \<in> {''1'', ''t'', ''T'', ''true'', ''TRUE'', ''True''} then Some True
      else if s \<in> {''0'', ''f'', ''F'', ''false'', ''FALSE'', ''False''} then Some False
      else None)"

text \<open>The plaintext bytes and the type label of a value.\<close>

fun plain_bytes :: "golib \<Rightarrow> gval \<Rightarrow> aes_error + (string \<times> string)" where
  "plain_bytes L (GStr s) = Inr (''str'', s)"
| "plain_bytes L (GInt i) = Inr (''int'', itoa i)"
| "plain_bytes L (GFloat x) = Inr (''float'', FormatFloat L x)"
| "plain_bytes L (GBool b) = Inr (''bool'', if b then ''True'' else ''False'')"
| "plain_bytes L (GTime t) =
     (case MarshalTime L t of None \<Rightarrow> Inl TimestampMarshal | Some s \<Rightarrow> Inr (''time'', s))"
| "plain_bytes L (GComment c) = Inr (''comment'', CValue c)"
| "plain_bytes L _ = Inl UnsupportedPlaintext"

definition take_iv :: "cipher_state \<Rightarrow> string \<Rightarrow> gval \<Rightarrow> aes_error + (string \<times> cipher_state)" where
  "take_iv st aad v =
     (if \<not> hashable v then Inl PanicUnhashableKey
      else case stash_get (stash st) aad v of
          Some i \<Rightarrow> Inr (i, st)
        | None \<Rightarrow>
            if length (random st) < 32 then Inl RandomSourceFailed
            else Inr (take 32 (random st), st\<lparr>random := drop 32 (random st)\<rparr>))"

definition aes_Encrypt :: "golib \<Rightarrow> gcm \<Rightarrow> gval \<Rightarrow> string \<Rightarrow> string \<Rightarrow> cipher_state
    \<Rightarrow> aes_error + (string \<times> cipher_state)" where
  "aes_Encrypt L G plaintext key additionalData st =
     (if isEmpty plaintext then Inr ('''', st)
      else if \<not> valid_key key then Inl (InvalidKeySize (length key))
      else bindE (take_iv st additionalData plaintext) (\<lambda>(i, st').
        bindE (plain_bytes L plaintext) (\<lambda>(encryptedType, plainBytes).
          if length i \<noteq> 32 then Inl PanicNonceLength
          else
            let out = gcm_Seal G key i plainBytes additionalData; cut = length out - 16
            in Inr (format_value (take cut out) i (drop cut out) encryptedType, st'))))"

text \<open>The plaintext a decrypted byte string stands for, beside the error of its conversion.\<close>

fun typed_plaintext :: "golib \<Rightarrow> string \<Rightarrow> string \<Rightarrow> (gval \<times> aes_error option) option" where
  "typed_plaintext L ty b =
     (if ty = ''str'' then Some (GStr b, None)
      else if ty = ''int'' then
        Some (GInt (atoi_value b), case atoi b of Inl e \<Rightarrow> Some (BadInt e) | Inr _ \<Rightarrow> None)
      else if ty = ''float'' then
        Some (case ParseFloat L b of Inl x \<Rightarrow> (GFloat x, Some BadFloat) | Inr x \<Rightarrow> (GFloat x, None))
      else if ty = ''bytes'' then Some (GBytes b, None)
      else if ty = ''bool'' then
        Some (case parse_bool b of None \<Rightarrow> (GBool False, Some BadBool) | Some v \<Rightarrow> (GBool v, None))
      else if ty = ''time'' then
        Some (case UnmarshalTime L b of Inl t \<Rightarrow> (GTime t, Some BadTime) | Inr t \<Rightarrow> (GTime t, None))
      else if ty = ''comment'' then Some (GComment \<lparr>CValue = b, Inline = False\<rparr>, None)
      else None)"

definition aes_Decrypt :: "golib \<Rightarrow> gcm \<Rightarrow> string \<Rightarrow> string \<Rightarrow> string \<Rightarrow> cipher_state
    \<Rightarrow> (aes_error + gval) \<times> cipher_state" where
  "aes_Decrypt L G ciphertext key additionalData st =
     (if ciphertext = '''' then (Inr (GStr ''''), st)
      else case parse_value ciphertext of
          Inl e \<Rightarrow> (Inl e, st)
        | Inr ev \<Rightarrow>
            if \<not> valid_key key then (Inl (InvalidKeySize (length key)), st)
            else if iv ev = '''' then (Inl EmptyNonce, st)
            else case gcm_Open G key (iv ev) (data ev @ tag ev) additionalData of
                None \<Rightarrow> (Inl AuthenticationFailed, st)
              | Some decryptedBytes \<Rightarrow>
                  (case typed_plaintext L (datatyp ev) decryptedBytes of
                     None \<Rightarrow> (Inl (UnknownDatatype (datatyp ev)), st)
                   | Some (plaintext, err) \<Rightarrow>
                       if \<not> hashable plaintext then (Inl PanicUnhashableKey, st)
                       else (case err of Some e \<Rightarrow> Inl e | None \<Rightarrow> Inr plaintext,
                             st\<lparr>stash := stash_put (stash st) additionalData plaintext (iv ev)\<rparr>)))"

definition aes_cipher :: "golib \<Rightarrow> gcm \<Rightarrow> (aes_error, cipher_state) cipher" where
  "aes_cipher L G = \<lparr>cipher_Encrypt = aes_Encrypt L G, cipher_Decrypt = aes_Decrypt L G\<rparr>"

definition NewCipher :: "string \<Rightarrow> cipher_state" where
  "NewCipher entropy = \<lparr>stash = [], random = entropy\<rparr>"

section \<open>Parsing inverts formatting\<close>

definition absent :: "string \<Rightarrow> string \<Rightarrow> bool" where
  "absent p s \<longleftrightarrow> (\<forall>n. \<not> has_prefix (drop n s) p)"

lemma absent_Nil [simp]: "absent (c # p) []"
  by (simp add: absent_def)

lemma absent_Cons: "absent p (x # s) \<longleftrightarrow> \<not> has_prefix (x # s) p \<and> absent p s"
  unfolding absent_def by (metis drop0 drop_Suc_Cons not0_implies_Suc)

lemma absent_skip: "c \<notin> set a \<Longrightarrow> absent (c # p) (a @ s) \<longleftrightarrow> absent (c # p) s"
  by (induction a) (auto simp: absent_Cons)

lemma first_some_append:
  "first_some f (xs @ ys) = (case first_some f xs of None \<Rightarrow> first_some f ys | Some y \<Rightarrow> Some y)"
  by (induction xs) (auto split: option.split)

lemma first_some_None: "(\<And>x. x \<in> set xs \<Longrightarrow> f x = None) \<Longrightarrow> first_some f xs = None"
  by (induction xs) auto

lemma group_then_unique:
  assumes "c \<notin> set a" "a \<noteq> []" "CHR 0x0A \<notin> set a" "absent (c # sep) (sep @ r)" "k r = Some y"
  shows "group_then (c # sep) k (a @ c # sep @ r) = Some (a, y)"
proof -
  let ?s = "a @ c # sep @ r"
  let ?f = "\<lambda>n. if has_prefix (drop n ?s) (c # sep)
      then map_option (Pair (take n ?s)) (k (drop (n + length (c # sep)) ?s)) else None"
  let ?m = "length (takeWhile (\<lambda>c. c \<noteq> CHR 0x0A) ?s)"
  have "length a \<le> ?m" using assms(3) by (subst takeWhile_append2) auto
  then have split: "rev [1..<Suc ?m] = rev [Suc (length a)..<Suc ?m] @ length a # rev [1..<length a]"
    using assms(2) upt_add_eq_append [of 1 "length a" "Suc ?m - length a"]
    by (simp add: upt_conv_Cons Suc_le_eq)
  have none: "?f n = None" if "n > length a" for n
  proof -
    have "drop n ?s = drop (n - Suc (length a)) (sep @ r)" using that by (simp add: drop_Cons' flip: drop_drop)
    with assms(4) have "\<not> has_prefix (drop n ?s) (c # sep)" by (simp only: absent_def not_False_eq_True simp_thms)
    then show ?thesis by (simp only: if_False)
  qed
  have "first_some ?f (rev [Suc (length a)..<Suc ?m]) = None"
  proof (rule first_some_None)
    fix n assume "n \<in> set (rev [Suc (length a)..<Suc ?m])"
    then have "n > length a" by (auto simp: Suc_le_eq)
    then show "?f n = None" by (rule none)
  qed
  moreover have "?f (length a) = Some (a, y)" using assms(5) by simp
  ultimately show ?thesis unfolding group_then_def split first_some_append by simp
qed

lemma encre_format:
  assumes "d \<noteq> []" "i \<noteq> []" "t \<noteq> []" "ty \<noteq> []" "CHR '','' \<notin> set ty" "CHR '']'' \<notin> set ty" "CHR 0x0A \<notin> set ty"
  shows "encre_match (format_value d i t ty) = Some (EncodeToString d, EncodeToString i, EncodeToString t, ty)"
proof -
  have 4: "group_then '']'' (\<lambda>_. Some ()) (ty @ '']'') = Some (ty, ())"
    using group_then_unique [of "CHR '']''" ty "[]" "[]" "\<lambda>_. Some ()"] assms by simp
  have tail [simp]: "absent (CHR '','' # p) (x @ '']'')" if "CHR '','' \<notin> set x" for p x
    using that by (simp add: absent_skip absent_Cons)
  have 3: "group_then '',type:'' (group_then '']'' (\<lambda>_. Some ())) (EncodeToString t @ '',type:'' @ ty @ '']'')
      = Some (EncodeToString t, (ty, ()))"
    using group_then_unique [of "CHR '',''" "EncodeToString t" "''type:''" "ty @ '']''"
        "group_then '']'' (\<lambda>_. Some ())" "(ty, ())"] 4 assms
    by (simp add: absent_Cons)
  have 2: "group_then '',tag:'' (group_then '',type:'' (group_then '']'' (\<lambda>_. Some ())))
      (EncodeToString i @ '',tag:'' @ EncodeToString t @ '',type:'' @ ty @ '']'')
      = Some (EncodeToString i, (EncodeToString t, (ty, ())))"
    using group_then_unique [of "CHR '',''" "EncodeToString i" "''tag:''"
        "EncodeToString t @ '',type:'' @ ty @ '']''"
        "group_then '',type:'' (group_then '']'' (\<lambda>_. Some ()))" "(EncodeToString t, (ty, ()))"] 3 assms
    by (simp add: absent_Cons absent_skip)
  have "group_then '',iv:'' (group_then '',tag:'' (group_then '',type:'' (group_then '']'' (\<lambda>_. Some ()))))
      (EncodeToString d @ '',iv:'' @ EncodeToString i @ '',tag:'' @ EncodeToString t @ '',type:'' @ ty @ '']'')
      = Some (EncodeToString d, (EncodeToString i, (EncodeToString t, (ty, ()))))"
    using group_then_unique [of "CHR '',''" "EncodeToString d" "''iv:''"
        "EncodeToString i @ '',tag:'' @ EncodeToString t @ '',type:'' @ ty @ '']''"
        "group_then '',tag:'' (group_then '',type:'' (group_then '']'' (\<lambda>_. Some ())))"
        "(EncodeToString i, (EncodeToString t, (ty, ())))"] 2 assms
    by (simp add: absent_Cons absent_skip)
  then show ?thesis by (simp add: encre_match_def format_value_def)
qed

lemma parse_format:
  assumes "d \<noteq> []" "i \<noteq> []" "t \<noteq> []" "ty \<noteq> []" "CHR '','' \<notin> set ty" "CHR '']'' \<notin> set ty" "CHR 0x0A \<notin> set ty"
  shows "parse_value (format_value d i t ty) = Inr \<lparr>data = d, iv = i, tag = t, datatyp = ty\<rparr>"
  using encre_format [OF assms] by (simp add: parse_value_def)

section \<open>The law of the cipher\<close>

text \<open>
  The values that survive a round trip: integers of 64 bits, floats and times that the standard
  library reads back as they were printed, comments that are not empty.
\<close>

fun aes_ok :: "golib \<Rightarrow> gval \<Rightarrow> bool" where
  "aes_ok L (GStr s) = True"
| "aes_ok L (GInt i) = (min_int64 \<le> i \<and> i \<le> max_int64)"
| "aes_ok L (GBool b) = True"
| "aes_ok L (GFloat x) = (FormatFloat L x \<noteq> '''' \<and> ParseFloat L (FormatFloat L x) = Inr x)"
| "aes_ok L (GTime t) = (\<exists>s. MarshalTime L t = Some s \<and> s \<noteq> '''' \<and> UnmarshalTime L s = Inr t)"
| "aes_ok L (GComment c) = (CValue c \<noteq> '''')"
| "aes_ok L _ = False"

lemma itoa_nonempty [simp]: "itoa i \<noteq> []"
  by (simp add: itoa_def)

lemma typed_plaintext_labels:
  "typed_plaintext L ''str'' b = Some (GStr b, None)"
  "typed_plaintext L ''int'' b = Some (GInt (atoi_value b), case atoi b of Inl e \<Rightarrow> Some (BadInt e) | Inr _ \<Rightarrow> None)"
  "typed_plaintext L ''float'' b = Some (case ParseFloat L b of Inl x \<Rightarrow> (GFloat x, Some BadFloat) | Inr x \<Rightarrow> (GFloat x, None))"
  "typed_plaintext L ''bool'' b = Some (case parse_bool b of None \<Rightarrow> (GBool False, Some BadBool) | Some v \<Rightarrow> (GBool v, None))"
  "typed_plaintext L ''time'' b = Some (case UnmarshalTime L b of Inl t \<Rightarrow> (GTime t, Some BadTime) | Inr t \<Rightarrow> (GTime t, None))"
  "typed_plaintext L ''comment'' b = Some (GComment \<lparr>CValue = b, Inline = False\<rparr>, None)"
  by simp_all

lemma parse_bool_printed: "parse_bool ''True'' = Some True" "parse_bool ''False'' = Some False"
  by (simp_all add: parse_bool_def)

declare typed_plaintext.simps [simp del]

lemma plain_bytes_typed:
  assumes "aes_ok L v" "\<not> isEmpty v" "plain_bytes L v = Inr (ty, b)"
  shows "typed_plaintext L ty b = Some (leaf_result v, None) \<and> b \<noteq> []
    \<and> ty \<in> {''str'', ''int'', ''float'', ''bool'', ''time'', ''comment''} \<and> hashable (leaf_result v)"
proof (cases v)
  case (GBool b')
  with assms show ?thesis by (cases b') (auto simp: typed_plaintext_labels parse_bool_printed)
qed (use assms in \<open>auto simp: typed_plaintext_labels atoi_itoa atoi_value_itoa split: option.splits\<close>)

lemma take_iv_length: "take_iv st aad v = Inr (i, st') \<Longrightarrow> stash_get (stash st) aad v = None \<Longrightarrow> length i = 32"
  by (auto simp: take_iv_def split: if_splits)

lemma aes_Encrypt_cases:
  assumes "aes_Encrypt L G v key aad st = Inr (text, st')"
  obtains (empty) "isEmpty v" "text = ''''" "st' = st"
  | (sealed) i ty b out where "\<not> isEmpty v" "valid_key key" "take_iv st aad v = Inr (i, st')"
      "plain_bytes L v = Inr (ty, b)" "length i = 32" "out = gcm_Seal G key i b aad"
      "text = format_value (take (length out - 16) out) i (drop (length out - 16) out) ty"
  using assms by (auto simp: aes_Encrypt_def Let_def split: if_splits)

lemma aes_Decrypt_Encrypt:
  assumes "gcm_lawful G" "aes_ok L v" "aes_Encrypt L G v key aad st = Inr (text, st')"
  shows "\<exists>u'. aes_Decrypt L G text key aad u = (Inr (leaf_result v), u')"
  using assms(3)
proof (cases rule: aes_Encrypt_cases)
  case empty
  with assms(2) show ?thesis by (cases v) (auto simp: aes_Decrypt_def)
next
  case (sealed i ty b out)
  note typed = plain_bytes_typed [OF assms(2) sealed(1,4)]
  have len: "length out = length b + 16" and opens: "gcm_Open G key i out aad = Some b"
    using assms(1) sealed(6) by (simp_all add: gcm_lawful_def)
  have "parse_value text = Inr \<lparr>data = take (length out - 16) out, iv = i, tag = drop (length out - 16) out, datatyp = ty\<rparr>"
    unfolding sealed(7) by (rule parse_format) (use typed len sealed(5) in auto)
  moreover have "text \<noteq> []" by (simp add: sealed(7) format_value_def)
  ultimately show ?thesis
    using sealed(2,5) opens typed by (auto simp: aes_Decrypt_def)
qed

lemma trim_space_format:
  "trim_space (CHR ''E'' # s @ '']'') = CHR ''E'' # s @ '']''"
  by (simp add: trim_space_def trim_left_by_none white_space_def)

lemma format_no_directive: "ParseDirective (format_value d i t ty) = DirectiveNone"
proof -
  obtain s where "format_value d i t ty = CHR ''E'' # s @ '']''"
    by (simp add: format_value_def)
  then show ?thesis
    by (simp add: ParseDirective_def trim_space_format to_lower_def lower_char_def)
qed

lemma aes_no_directive: "aes_Encrypt L G v key aad st = Inr (text, st') \<Longrightarrow> ParseDirective text = DirectiveNone"
  by (erule aes_Encrypt_cases) (simp_all add: format_no_directive, simp add: ParseDirective_def trim_space_def to_lower_def)

text \<open>The AES cipher keeps the contract of \<open>sops.Cipher\<close>. The lawfulness of the AEAD is part of the domain, so that the contract holds for every AEAD.\<close>

interpretation aes: tree_cipher "aes_cipher L G" key "\<lambda>v. gcm_lawful G \<and> aes_ok L v" for L G key
  by unfold_locales (auto simp: aes_cipher_def dest: aes_Decrypt_Encrypt aes_no_directive)

section \<open>The stash\<close>

lemma stash_get_put: "plaintext_eq v w \<Longrightarrow> stash_get (stash_put st aad v i) aad w = Some i"
  by (simp add: stash_get_def stash_put_def)

lemma take_iv_after_put:
  "hashable w \<Longrightarrow> plaintext_eq v w \<Longrightarrow>
   take_iv (st\<lparr>stash := stash_put (stash st) aad v i\<rparr>) aad w = Inr (i, st\<lparr>stash := stash_put (stash st) aad v i\<rparr>)"
  by (simp add: take_iv_def stash_get_put)

lemma aes_Decrypt_Inr:
  assumes "aes_Decrypt L G text key aad st = (Inr v, st')" "text \<noteq> ''''"
  obtains ev where "parse_value text = Inr ev" "hashable v"
    "st' = st\<lparr>stash := stash_put (stash st) aad v (iv ev)\<rparr>"
  using assms by (auto simp: aes_Decrypt_def split: sum.splits if_splits option.splits)

lemma leaf_result_props [simp]:
  "plain_bytes L (leaf_result v) = plain_bytes L v" "isEmpty (leaf_result v) = isEmpty v"
  by (cases v; simp)+

definition reflexive_plaintext :: "gval \<Rightarrow> bool" where
  "reflexive_plaintext v \<longleftrightarrow> (case v of GFloat x \<Rightarrow> \<not> f64_is_nan x | _ \<Rightarrow> True)"

lemma plaintext_eq_refl: "reflexive_plaintext v \<Longrightarrow> plaintext_eq (leaf_result v) (leaf_result v)"
  by (cases v) (auto simp: reflexive_plaintext_def f64_eq_def)

section \<open>Properties\<close>

definition sample_gcm :: gcm where
  "sample_gcm = \<lparr>gcm_Seal = \<lambda>key nonce p aad. p @ replicate 16 CHR ''T'',
     gcm_Open = \<lambda>key nonce d aad. if 16 \<le> length d then Some (take (length d - 16) d) else None\<rparr>"

lemma sample_gcm_lawful: "gcm_lawful sample_gcm"
  by (simp add: gcm_lawful_def sample_gcm_def)

definition sample_key :: string where "sample_key = replicate 32 CHR ''k''"

text \<open>C10. \<open>Decrypt\<close> of what \<open>Encrypt\<close> returned, with the same key and additional data and in any
  state of the stash, is the plaintext; only the flag \<open>Inline\<close> of a comment is lost.\<close>

theorem aes_round_trip:
  assumes "gcm_lawful G" "aes_ok L v" "aes_Encrypt L G v key aad st = Inr (text, st')"
  shows "\<exists>u'. aes_Decrypt L G text key aad u = (Inr (leaf_result v), u')"
  using aes_Decrypt_Encrypt [OF assms] .

lemma sample_aes_encrypts:
  "aes_Encrypt sample_lib sample_gcm (GInt 42) sample_key ''a:'' (NewCipher (replicate 32 CHR ''i'')) =
    Inr (format_value ''42'' (replicate 32 CHR ''i'') (replicate 16 CHR ''T'') ''int'', NewCipher [])"
  by code_simp

lemma aes_round_trip_witness:
  "\<exists>u'. aes_Decrypt sample_lib sample_gcm (format_value ''42'' (replicate 32 CHR ''i'') (replicate 16 CHR ''T'') ''int'')
    sample_key ''a:'' (NewCipher []) = (Inr (GInt 42), u')"
  using aes_round_trip [OF sample_gcm_lawful _ sample_aes_encrypts, of "NewCipher []"]
  by (simp add: min_int64_def max_int64_def)

text \<open>C6. Decrypting a document that \<open>Tree.Encrypt\<close> produced, with any cipher state, succeeds,
  recomputes the same MAC, and gives the document back: the same items in the same order, up to byte
  slices read back as strings and, where comments are encrypted, their flag \<open>Inline\<close>.\<close>

theorem tree_round_trip:
  assumes "gcm_lawful G"
    and "Tree_Encrypt L (aes_cipher L G) key tree st = Inr (tree', mac, st')"
    and "\<forall>b\<in>set (Branches tree). \<forall>item\<in>set b.
      crypt_ok_item (aes_ok L) (EncryptedCommentRegex (TreeMetadata tree) = '''') item"
  shows "\<exists>tree'' u'. Tree_Decrypt L (aes_cipher L G) key tree' u = Inr (tree'', mac, u')
    \<and> map (map (tidy_item (EncryptedCommentRegex (TreeMetadata tree) = ''''))) (Branches tree'')
        = map (map (canon_item (EncryptedCommentRegex (TreeMetadata tree) = ''''))) (Branches tree)
    \<and> TreeMetadata tree'' = TreeMetadata tree \<and> FilePath tree'' = FilePath tree"
  by (rule aes.Tree_round_trip) (use assms in simp_all)

definition sample_entropy :: string where "sample_entropy = replicate 64 CHR ''i''"

definition sample_encrypted :: Tree where
  "sample_encrypted = sample_tree\<lparr>Branches := [[TreeItem (KComment \<lparr>CValue = ''c'', Inline = True\<rparr>) GNil,
     TreeItem (KStr ''a'') (GSlice
       [GStr (format_value ''x'' (replicate 32 CHR ''i'') (replicate 16 CHR ''T'') ''str''),
        GStr (format_value ''12'' (replicate 32 CHR ''i'') (replicate 16 CHR ''T'') ''int'')]),
     TreeItem (KStr ''b_clear'') (GBool True)]]\<rparr>"

lemma sample_tree_encrypts:
  "Tree_Encrypt sample_lib (aes_cipher sample_lib sample_gcm) sample_key sample_tree (NewCipher sample_entropy) =
    Inr (sample_encrypted, ''78313254727565'', NewCipher [])"
  by code_simp

lemma tree_round_trip_witness:
  "\<exists>tree'' u'. Tree_Decrypt sample_lib (aes_cipher sample_lib sample_gcm) sample_key sample_encrypted (NewCipher [])
     = Inr (tree'', ''78313254727565'', u')
   \<and> map (map (tidy_item True)) (Branches tree'') = map (map (canon_item True)) (Branches sample_tree)"
proof -
  have "EncryptedCommentRegex (TreeMetadata sample_tree) = ''''"
    by (simp add: sample_tree_def sample_meta_def)
  moreover have "\<forall>b\<in>set (Branches sample_tree). \<forall>item\<in>set b. crypt_ok_item (aes_ok sample_lib) True item"
    by (simp add: sample_tree_def min_int64_def max_int64_def)
  ultimately show ?thesis
    using tree_round_trip [OF sample_gcm_lawful sample_tree_encrypts, of "NewCipher []"] by fastforce
qed

text \<open>C20. The purpose of the stash: a value that is decrypted and encrypted again unchanged, under
  the same additional data, gives the ciphertext it was read from, and takes nothing from the random
  source.\<close>

theorem reencrypt_unchanged:
  assumes "gcm_lawful G" "aes_ok L v" "reflexive_plaintext v"
    and "aes_Encrypt L G v key aad st = Inr (text, st')"
  shows "\<exists>u'. aes_Decrypt L G text key aad u = (Inr (leaf_result v), u')
    \<and> aes_Encrypt L G (leaf_result v) key aad u' = Inr (text, u') \<and> random u' = random u"
proof -
  obtain u' where u': "aes_Decrypt L G text key aad u = (Inr (leaf_result v), u')"
    using aes_Decrypt_Encrypt [OF assms(1,2,4)] by blast
  from assms(4) show ?thesis
  proof (cases rule: aes_Encrypt_cases)
    case empty
    with u' show ?thesis by (auto simp: aes_Decrypt_def aes_Encrypt_def)
  next
    case (sealed i ty b out)
    note typed = plain_bytes_typed [OF assms(2) sealed(1,4)]
    have len: "length out = length b + 16"
      using assms(1) sealed(6) by (simp add: gcm_lawful_def)
    have parsed: "parse_value text = Inr \<lparr>data = take (length out - 16) out, iv = i, tag = drop (length out - 16) out, datatyp = ty\<rparr>"
      unfolding sealed(7) by (rule parse_format) (use typed len sealed(5) in auto)
    have "text \<noteq> ''''" by (simp add: sealed(7) format_value_def)
    from aes_Decrypt_Inr [OF u' this] parsed
    have st: "hashable (leaf_result v)" "u' = u\<lparr>stash := stash_put (stash u) aad (leaf_result v) i\<rparr>" by auto
    have "take_iv u' aad (leaf_result v) = Inr (i, u')"
      using take_iv_after_put [OF st(1) plaintext_eq_refl [OF assms(3)]] st(2) by simp
    then have "aes_Encrypt L G (leaf_result v) key aad u' = Inr (text, u')"
      using sealed by (simp add: aes_Encrypt_def Let_def)
    with u' st(2) show ?thesis by simp
  qed
qed

lemma reencrypt_unchanged_witness:
  "\<exists>u' text. aes_Decrypt sample_lib sample_gcm text sample_key ''a:'' (NewCipher []) = (Inr (GInt 42), u')
    \<and> aes_Encrypt sample_lib sample_gcm (GInt 42) sample_key ''a:'' u' = Inr (text, u')"
  using reencrypt_unchanged [OF sample_gcm_lawful _ _ sample_aes_encrypts, of "NewCipher []"]
  by (force simp: reflexive_plaintext_def min_int64_def max_int64_def)

text \<open>C37. Go compares the two zeros of \<open>float64\<close> as equal keys of the stash: after a zero of one sign
  has been decrypted, encrypting the zero of the other sign reuses its nonce for a different
  plaintext.\<close>

theorem zero_reuses_nonce:
  assumes "aes_Decrypt L G text key aad st = (Inr (GFloat x), st')" "text \<noteq> ''''"
    and "f64_is_zero x" "f64_is_zero y"
  shows "\<exists>ev. parse_value text = Inr ev \<and> take_iv st' aad (GFloat y) = Inr (iv ev, st')"
proof -
  obtain ev where ev: "parse_value text = Inr ev" "st' = st\<lparr>stash := stash_put (stash st) aad (GFloat x) (iv ev)\<rparr>"
    using aes_Decrypt_Inr [OF assms(1,2)] by metis
  have "plaintext_eq (GFloat x) (GFloat y)"
    using assms(3,4) by (simp add: f64_eq_def f64_is_zero_def f64_is_nan_def)
  with ev show ?thesis using take_iv_after_put by simp
qed

lemma zero_reuses_nonce_witness:
  "\<exists>st'. aes_Decrypt sample_lib sample_gcm (format_value ''0'' (replicate 32 CHR ''i'') (replicate 16 CHR ''T'') ''float'')
      sample_key ''a:'' (NewCipher []) = (Inr (GFloat (F64 0)), st')
    \<and> take_iv st' ''a:'' (GFloat (F64 0x8000000000000000)) = Inr (replicate 32 CHR ''i'', st')"
proof -
  let ?t = "format_value ''0'' (replicate 32 CHR ''i'') (replicate 16 CHR ''T'') ''float''"
  have p: "parse_value ?t = Inr \<lparr>data = ''0'', iv = replicate 32 CHR ''i'', tag = replicate 16 CHR ''T'', datatyp = ''float''\<rparr>"
    by (rule parse_format) simp_all
  have ne: "?t \<noteq> ''''" by (simp add: format_value_def)
  obtain st' where d: "aes_Decrypt sample_lib sample_gcm ?t sample_key ''a:'' (NewCipher []) = (Inr (GFloat (F64 0)), st')"
    using p ne by (simp add: aes_Decrypt_def valid_key_def sample_key_def sample_gcm_def typed_plaintext_labels sample_lib_def)
  from zero_reuses_nonce [OF d ne, of "F64 0x8000000000000000"] p d show ?thesis
    by (auto simp: f64_is_zero_def)
qed

end
