(* ===== verification/Key_Groups_Correct.thy ===== *)
theory Key_Groups_Correct
  imports Key_Groups Tree_Crypt_Correct "HOL-Library.Multiset"
begin

text \<open>
  Correctness of the key groups: after a successful update the data key is recovered exactly when
  enough groups can be decrypted, and never a wrong one; the context and the cached key stop every
  call to a key service; the decryption order is a stable sort. The clients rest on the interface
  \<open>key_services\<close>, interpreted by the local key service.
\<close>

section \<open>The order of the keys\<close>

lemma set_insert_stable: "set (insert_stable lt x ys) = insert x (set ys)"
  by (induction ys) auto

lemma set_SliceStable: "set (SliceStable lt xs) = set xs"
  by (induction xs) (simp_all add: SliceStable_def set_insert_stable)

lemma set_sortKeyGroupIndices: "set (sortKeyGroupIndices grp order) = {0..<length grp}"
  by (simp add: sortKeyGroupIndices_def set_SliceStable)

text \<open>Elements inserted from the last to the first keep their order among equals.\<close>

lemma sorted_insert_stable:
  fixes f :: "nat \<Rightarrow> nat"
  assumes "sorted_wrt (\<lambda>i j. f i < f j \<or> f i = f j \<and> i < j) ys" "\<forall>y\<in>set ys. x < y"
  shows "sorted_wrt (\<lambda>i j. f i < f j \<or> f i = f j \<and> i < j) (insert_stable (\<lambda>i j. f i < f j) x ys)"
  using assms
proof (induction ys)
  case (Cons y ys)
  show ?case
  proof (cases "f y < f x")
    case True
    with Cons show ?thesis by (auto simp: set_insert_stable)
  next
    case False
    then have "f x < f y \<or> f x = f y" by auto
    moreover have "f y \<le> f z" if "z \<in> set ys" for z using Cons.prems(1) that by auto
    ultimately show ?thesis using Cons.prems False by (auto intro: le_less_trans order_le_imp_less_or_eq)
  qed
qed simp

lemma sorted_SliceStable:
  "sorted_wrt (\<lambda>i j. f i < f j \<or> f i = f j \<and> i < j) (SliceStable (\<lambda>i j. f i < f j) [m..<n])" for f :: "nat \<Rightarrow> nat"
proof (induction "n - m" arbitrary: m)
  case (Suc k)
  then have "[m..<n] = m # [Suc m..<n]" by (simp add: upt_conv_Cons)
  moreover have "\<forall>y\<in>set (SliceStable (\<lambda>i j. f i < f j) [Suc m..<n]). m < y" by (simp add: set_SliceStable)
  ultimately show ?case
    using Suc(1) [of "Suc m"] Suc(2) by (simp add: SliceStable_def sorted_insert_stable)
qed (simp add: SliceStable_def)

lemma map_of_positions:
  "map_of (rev (zip xs [0..<length xs])) x = (if x \<in> set xs then Some (Max {p. p < length xs \<and> xs ! p = x}) else None)"
proof (induction xs rule: rev_induct)
  case (snoc y ys)
  show ?case
  proof (cases "x = y")
    case True
    have "Max {p. p < length (ys @ [y]) \<and> (ys @ [y]) ! p = x} = length ys"
      using True by (intro Max_eqI) (auto simp: nth_append)
    then show ?thesis using True by simp
  next
    case False
    have "{p. p < length (ys @ [y]) \<and> (ys @ [y]) ! p = x} = {p. p < length ys \<and> ys ! p = x}"
      using False by (auto simp: nth_append less_Suc_eq split: if_splits)
    then show ?thesis using False snoc by simp
  qed
qed simp

lemma key_priority_last:
  "key_priority order key = (if TypeToIdentifier key \<in> set order
     then Max {p. p < length order \<and> order ! p = TypeToIdentifier key} else length order)"
  by (simp add: key_priority_def map_of_positions)

section \<open>Combining the parts\<close>

lemma parts_of_append [simp]: "parts_of (rs @ rs') = parts_of rs @ parts_of rs'"
  by (induction rs rule: parts_of.induct) auto

text \<open>When every result is the part of its group or an error, the parts collected are those of the
  groups that succeeded.\<close>

lemma parts_of_filter:
  assumes "list_all2 (\<lambda>part r. \<forall>p. r = Inr p \<longrightarrow> p = part) parts results"
  shows "parts_of results = map ((!) parts) (filter (\<lambda>i. \<not> isl (results ! i)) [0..<length parts])"
  using assms
proof (induction results arbitrary: parts rule: rev_induct)
  case (snoc r results)
  then obtain part parts' where parts: "parts = parts' @ [part]"
      "list_all2 (\<lambda>part r. \<forall>p. r = Inr p \<longrightarrow> p = part) parts' results" "\<forall>p. r = Inr p \<longrightarrow> p = part"
    by (auto simp: list_all2_append2 list_all2_Cons2)
  have same: "length parts' = length results" by (rule list_all2_lengthD [OF parts(2)])
  have "map ((!) parts) (filter (\<lambda>i. \<not> isl ((results @ [r]) ! i)) [0..<length parts']) =
      map ((!) parts') (filter (\<lambda>i. \<not> isl (results ! i)) [0..<length parts'])"
    by (auto simp: parts(1) nth_append same intro!: map_cong filter_cong)
  moreover have "map ((!) parts) (filter (\<lambda>i. \<not> isl ((results @ [r]) ! i)) [0..<length parts]) =
      map ((!) parts) (filter (\<lambda>i. \<not> isl ((results @ [r]) ! i)) [0..<length parts']) @ (if isl r then [] else [part])"
    by (simp add: parts(1) same) (simp add: nth_append same)
  moreover have "parts_of [r] = (if isl r then [] else [part])"
    using parts(3) by (cases r) auto
  ultimately show ?case using snoc.IH [OF parts(2)] by (simp only: parts_of_append)
qed simp

lemma length_parts_of: "length (parts_of results) = successfulKeyGroups (map group_result results)"
  by (induction results rule: parts_of.induct) (auto simp: successfulKeyGroups_def)

definition groups_needed :: "Metadata \<Rightarrow> int" where
  "groups_needed m = (if length (KeyGroups m) = 1 then 1 else ShamirThreshold m)"

lemma combine_parts_outcome:
  assumes split: "split_data_key m dataKey rnd = Inr (parts, rnd')" and "KeyGroups m \<noteq> []"
    and results: "list_all2 (\<lambda>part r. \<forall>p. r = Inr p \<longrightarrow> p = part) parts results"
    and same: "length (KeyGroups m') = length (KeyGroups m)" "ShamirThreshold m' = ShamirThreshold m"
  shows "combine_parts m' results =
    (if int (successfulKeyGroups (map group_result results)) < groups_needed m'
     then Inl (GetDataKeyError (ShamirThreshold m') (map group_result results)) else Inr dataKey)"
proof (cases "length (KeyGroups m) = 1")
  case True
  then have "parts = [dataKey]" using split by (simp add: split_data_key_def)
  then obtain r where "results = [r]" "\<forall>p. r = Inr p \<longrightarrow> p = dataKey"
    using results by (auto simp: list_all2_Cons1)
  then show ?thesis using True same
    by (cases r) (auto simp: combine_parts_def groups_needed_def successfulKeyGroups_def)
next
  case False
  then have many: "length (KeyGroups m) > 1" using assms(2) by (cases "KeyGroups m") auto
  obtain shares where shares:
      "Split (string_bytes dataKey) (int (length (KeyGroups m))) (ShamirThreshold m) rnd = Inr (shares, rnd')"
      "parts = map bytes_string shares"
    using split False by (auto simp: split_data_key_def split: sum.splits if_splits)
  define alive where "alive i = (\<not> isl (results ! i))" for i
  have parts: "parts_of results = map ((!) parts) (filter alive [0..<length parts])"
    using parts_of_filter [OF results] by (simp add: alive_def [abs_def])
  have "map string_bytes (parts_of results) = map ((!) shares) (filter alive [0..<length shares])"
    unfolding parts by (auto simp: shares(2))
  moreover have "nat (ShamirThreshold m) \<le> length (filter alive [0..<length shares])"
    if "\<not> int (length (parts_of results)) < ShamirThreshold m"
    using that unfolding parts by (simp add: shares(2))
  ultimately show ?thesis
    using shamir.surviving_parts [OF shares(1), of alive] many same
    by (auto simp: combine_parts_def groups_needed_def Let_def simp flip: length_parts_of)
qed


text \<open>A key answers when some service decrypts it whatever the state of the world.\<close>

definition answering :: "'w keyservice list \<Rightarrow> master_key \<Rightarrow> bool" where
  "answering svcs key \<longleftrightarrow> (\<exists>svc\<in>set svcs. \<forall>w. \<exists>p w'.
     svc_Decrypt svc (KeyFromMasterKey key) (EncryptedDataKey key) w = (Inr (Some p), w'))"

section \<open>The interface of key services\<close>

text \<open>
  Soundness of the services \<open>dsvcs\<close> that decrypt with respect to the services \<open>svcs\<close> that encrypted:
  a plaintext returned for a stored ciphertext is the one it was made from. \<open>trusted\<close> is the domain of
  the law. A service that has forgotten the key, or is not reachable, returns errors.
\<close>

locale key_services =
  fixes svcs :: "'w keyservice list" and dsvcs :: "'v keyservice list" and trusted :: "rpc_key \<Rightarrow> bool"
  assumes sound: "trusted k \<Longrightarrow> svc \<in> set svcs \<Longrightarrow> svc_Encrypt svc k p w = (Inr c, w1) \<Longrightarrow>
      svc' \<in> set dsvcs \<Longrightarrow> svc_Decrypt svc' k c w2 = (Inr (Some q), w3) \<Longrightarrow> q = p"
begin

text \<open>A master key holds a part when no service returns anything else for it.\<close>

definition holds :: "string \<Rightarrow> master_key \<Rightarrow> bool" where
  "holds part key \<longleftrightarrow> (\<forall>svc\<in>set dsvcs. \<forall>w q w'.
     svc_Decrypt svc (KeyFromMasterKey key) (EncryptedDataKey key) w = (Inr (Some q), w') \<longrightarrow> q = part)"

lemma encrypt_with_services_holds:
  assumes "encrypt_with_services ss key part w = (Inr c, w1)" "set ss \<subseteq> set svcs" "trusted (KeyFromMasterKey key)"
  shows "holds part (SetEncryptedDataKey c key)"
  using assms
proof (induction ss arbitrary: w)
  case (Cons s ss)
  then show ?case
    by (cases "svc_Encrypt s (KeyFromMasterKey key) part w")
      (auto simp: holds_def split: sum.splits prod.splits dest: sound)
qed simp

lemma update_keys_errs: "update_keys ctxErr ss part ks errs w = (ks', errs', stop, w1) \<Longrightarrow> \<exists>more. errs' = errs @ more"
  by (induction ctxErr ss part ks errs w arbitrary: ks' errs' stop w1 rule: update_keys.induct)
    (fastforce split: prod.splits sum.splits if_splits)+

lemma encrypt_with_services_fails:
  "encrypt_with_services ss key part w = (Inl es, w1) \<Longrightarrow> ss \<noteq> [] \<Longrightarrow> es \<noteq> []"
  by (cases ss) (auto split: prod.splits sum.splits)

lemma update_keys_holds:
  assumes "update_keys ctxErr ss part ks errs w = (ks', [], stop, w1)" "ss \<noteq> []" "set ss \<subseteq> set svcs"
    and "\<forall>key\<in>set ks. trusted (KeyFromMasterKey key)"
  shows "errs = [] \<and> \<not> stop \<and> length ks' = length ks \<and> (\<forall>key\<in>set ks'. holds part key)"
  using assms
proof (induction ctxErr ss part ks errs w arbitrary: ks' w1 stop rule: update_keys.induct)
  case (2 ctxErr ss part key ks errs w)
  obtain cancelled w0 where ctx: "ctxErr w = (cancelled, w0)" by (cases "ctxErr w")
  have alive: "\<not> cancelled" using "2.prems"(1) ctx by auto
  obtain r w2 where r: "encrypt_with_services ss key part w0 = (r, w2)"
    by (cases "encrypt_with_services ss key part w0")
  show ?case
  proof (cases r)
    case (Inl es)
    then have "es \<noteq> []" using encrypt_with_services_fails [OF _ "2.prems"(2)] r by simp
    with "2.prems"(1) ctx alive r Inl show ?thesis
      by (auto split: prod.splits dest: update_keys_errs)
  next
    case (Inr c)
    obtain ks2 errs2 stop2 w3 where rec: "update_keys ctxErr ss part ks errs w2 = (ks2, errs2, stop2, w3)"
      by (cases "update_keys ctxErr ss part ks errs w2") auto
    have "holds part (SetEncryptedDataKey c key)"
      using encrypt_with_services_holds r Inr "2.prems"(3,4) by simp
    with "2.prems" ctx alive r Inr rec "2.IH"(2) [OF ctx [symmetric] alive r [symmetric] Inr] show ?thesis
      by auto
  qed
qed auto

lemma update_groups_holds:
  assumes "update_groups ctxErr ss gs errs w = (groups', [], stop, w1)" "ss \<noteq> []" "set ss \<subseteq> set svcs"
    and "\<forall>(grp, part)\<in>set gs. \<forall>key\<in>set grp. trusted (KeyFromMasterKey key)"
  shows "errs = [] \<and> \<not> stop \<and> list_all2 (\<lambda>(grp, part) grp'. length grp' = length grp \<and> (\<forall>key\<in>set grp'. holds part key)) gs groups'"
  using assms
proof (induction ctxErr ss gs errs w arbitrary: groups' stop w1 rule: update_groups.induct)
  case (2 ctxErr ss grp part gs errs w)
  obtain grp' errs1 stop1 w2 where keys: "update_keys ctxErr ss part grp errs w = (grp', errs1, stop1, w2)"
    by (cases "update_keys ctxErr ss part grp errs w") auto
  obtain gs' errs2 stop2 w3 where rec: "update_groups ctxErr ss gs errs1 w2 = (gs', errs2, stop2, w3)"
    by (cases "update_groups ctxErr ss gs errs1 w2") auto
  have nonempty: "grp \<noteq> []" using "2.prems"(1) by auto
  have trust: "\<forall>key\<in>set grp. trusted (KeyFromMasterKey key)" using "2.prems"(4) by auto
  show ?case
  proof (cases stop1)
    case True
    then have "errs1 = []" using "2.prems"(1) keys nonempty by auto
    then show ?thesis using update_keys_holds [OF _ "2.prems"(2,3) trust] keys True by blast
  next
    case False
    then have gs': "groups' = grp' # gs'" "errs2 = []" "stop = stop2"
      using "2.prems"(1) keys rec nonempty by auto
    have rest: "errs1 = [] \<and> \<not> stop2
        \<and> list_all2 (\<lambda>(grp, part) grp'. length grp' = length grp \<and> (\<forall>key\<in>set grp'. holds part key)) gs gs'"
      using "2.IH" [OF nonempty keys [symmetric] _ _ False] rec gs'(2) "2.prems"(2-4) by auto
    then show ?thesis
      using update_keys_holds [OF _ "2.prems"(2,3) trust] keys gs' by auto
  qed
qed auto

lemma decrypt_with_services_holds:
  assumes "decrypt_with_services ss key start w = (Some p, errs, w')" "set ss \<subseteq> set dsvcs" "holds part key"
    and "start = None \<or> start = Some part"
  shows "p = part"
  using assms
proof (induction ss arbitrary: start w errs w')
  case (Cons s ss)
  show ?case
  proof (cases start)
    case (Some q)
    with Cons.prems Cons.IH show ?thesis by (auto split: prod.splits)
  next
    case None
    obtain r w1 where r: "svc_Decrypt s (KeyFromMasterKey key) (EncryptedDataKey key) w = (r, w1)"
      by (cases "svc_Decrypt s (KeyFromMasterKey key) (EncryptedDataKey key) w")
    define next' where "next' = (case r of Inr p \<Rightarrow> p | Inl _ \<Rightarrow> None)"
    have "next' = None \<or> next' = Some part"
    proof (cases r)
      case (Inr x)
      then show ?thesis using Cons.prems(2,3) r by (cases x) (auto simp: next'_def holds_def)
    qed (simp add: next'_def)
    moreover obtain errs' w2 where "decrypt_with_services ss key next' w1 = (Some p, errs', w2)"
      using Cons.prems(1) None r by (auto simp: next'_def split: prod.splits)
    ultimately show ?thesis using Cons.IH Cons.prems(2,3) by simp
  qed
qed auto

lemma decryptKey_holds: "decryptKey dsvcs key w = (Inr p, w') \<Longrightarrow> holds part key \<Longrightarrow> p = part"
  by (auto simp: decryptKey_def split: prod.splits option.splits dest: decrypt_with_services_holds)

lemma decrypt_in_order_holds:
  "decrypt_in_order ctxErr dsvcs ks es w = (Inr p, w') \<Longrightarrow> \<forall>key\<in>set ks. holds part key \<Longrightarrow> p = part"
  by (induction ks arbitrary: es w) (auto split: prod.splits if_splits sum.splits dest: decryptKey_holds)

lemma decryptKeyGroup_holds:
  assumes "decryptKeyGroup ctxErr dsvcs order grp w = (Inr p, w')" "\<forall>key\<in>set grp. holds part key"
  shows "p = part"
  by (rule decrypt_in_order_holds [OF assms(1) [unfolded decryptKeyGroup_def]])
    (use assms(2) in \<open>auto simp: set_sortKeyGroupIndices\<close>)

lemma decrypt_groups_holds:
  assumes "decrypt_groups ctxErr dsvcs order groups w = (Some results, w')"
    and "list_all2 (\<lambda>part grp. \<forall>key\<in>set grp. holds part key) parts groups"
  shows "list_all2 (\<lambda>part r. \<forall>p. r = Inr p \<longrightarrow> p = part) parts results"
  using assms
proof (induction groups arbitrary: parts results w)
  case (Cons grp groups)
  then obtain part parts' where parts: "parts = part # parts'" "\<forall>key\<in>set grp. holds part key"
      "list_all2 (\<lambda>part grp. \<forall>key\<in>set grp. holds part key) parts' groups"
    by (auto simp: list_all2_Cons2)
  from Cons.prems(1) obtain w0 r w1 results' where
      r: "decryptKeyGroup ctxErr dsvcs order grp w0 = (r, w1)" "results = r # results'"
      "decrypt_groups ctxErr dsvcs order groups w1 = (Some results', w')"
    by (auto split: prod.splits if_splits)
  with Cons.IH [OF r(3) parts(3)] parts show ?case
    by (auto dest: decryptKeyGroup_holds)
qed auto

lemma list_all2_zip_map:
  "list_all2 (\<lambda>(a, b) c. P a b c) (zip as bs) cs \<Longrightarrow> length as = length bs \<Longrightarrow>
   list_all2 (\<lambda>b c. \<exists>a. P a b c) bs cs"
  by (auto simp: list_all2_conv_all_nth)

text \<open>A successful update leaves in every group keys that hold the group's part.\<close>

lemma update_holds:
  assumes "UpdateMasterKeys ctxErr svcs dataKey m rnd w = ([], m', rnd', w1)"
    and trust: "\<forall>grp\<in>set (KeyGroups m). \<forall>key\<in>set grp. trusted (KeyFromMasterKey key)"
  shows "\<exists>parts. split_data_key (default_threshold m) dataKey rnd = Inr (parts, rnd')
    \<and> m' = (default_threshold m)\<lparr>KeyGroups := KeyGroups m', DataKey := Some dataKey\<rparr> \<and> KeyGroups m \<noteq> []
    \<and> length (KeyGroups m') = length (KeyGroups m)
    \<and> list_all2 (\<lambda>part grp. \<forall>key\<in>set grp. holds part key) parts (KeyGroups m')"
proof -
  let ?m = "default_threshold m"
  have groups: "KeyGroups ?m = KeyGroups m" by (simp add: default_threshold_def)
  from assms(1) obtain w0 parts groups' errs stop where
      svcs: "svcs \<noteq> []" and ne: "KeyGroups m \<noteq> []" and split: "split_data_key ?m dataKey rnd = Inr (parts, rnd')"
      and upd: "update_groups ctxErr svcs (zip (KeyGroups m) parts) [] w0 = (groups', [], stop, w1)"
      and m': "m' = (if stop then ?m\<lparr>KeyGroups := groups'\<rparr> else ?m\<lparr>KeyGroups := groups', DataKey := Some dataKey\<rparr>)"
    by (auto simp: UpdateMasterKeys_def Let_def groups split: prod.splits if_splits sum.splits)
  have len: "length parts = length (KeyGroups m)"
    using split by (auto simp: split_data_key_def groups split: sum.splits if_splits)
  have upd_holds: "\<not> stop \<and> list_all2 (\<lambda>(grp, part) grp'. length grp' = length grp \<and> (\<forall>key\<in>set grp'. holds part key))
      (zip (KeyGroups m) parts) groups'"
    using update_groups_holds [OF upd svcs subset_refl] trust by (auto dest: set_zip_leftD)
  then have "list_all2 (\<lambda>part grp. \<forall>key\<in>set grp. holds part key) parts groups'"
    using list_all2_zip_map [of "\<lambda>grp part grp'. length grp' = length grp \<and> (\<forall>key\<in>set grp'. holds part key)"
      "KeyGroups m" parts groups'] len
    by (auto elim: list_all2_mono)
  moreover have "length groups' = length (KeyGroups m)"
    using upd_holds len by (auto dest: list_all2_lengthD)
  ultimately show ?thesis using m' split ne upd_holds by auto
qed

text \<open>The outcome of recovering the data key.\<close>

lemma data_key_outcome:
  assumes "UpdateMasterKeys ctxErr svcs dataKey m rnd w = ([], m', rnd', w1)"
    and "\<forall>grp\<in>set (KeyGroups m). \<forall>key\<in>set grp. trusted (KeyFromMasterKey key)"
    and get: "GetDataKey ctxErr' dsvcs order (m'\<lparr>DataKey := None\<rparr>) w2 = (r, m'', w3)"
  shows "r = Inr dataKey \<and> m'' = m' \<or> r = Inl GetAlreadyCancelled \<or> r = Inl GetCancelledMidway
    \<or> (\<exists>results. r = Inl (GetDataKeyError (ShamirThreshold m') results) \<and> length results = length (KeyGroups m)
        \<and> int (successfulKeyGroups results) < groups_needed m')"
proof -
  let ?m = "default_threshold m"
  obtain parts where split: "split_data_key ?m dataKey rnd = Inr (parts, rnd')"
      and m': "m' = ?m\<lparr>KeyGroups := KeyGroups m', DataKey := Some dataKey\<rparr>" "KeyGroups m \<noteq> []"
        "length (KeyGroups m') = length (KeyGroups m)"
      and held: "list_all2 (\<lambda>part grp. \<forall>key\<in>set grp. holds part key) parts (KeyGroups m')"
    using update_holds [OF assms(1,2)] by blast
  have same: "KeyGroups ?m = KeyGroups m" "ShamirThreshold m' = ShamirThreshold ?m"
    by (simp add: default_threshold_def) (metis m'(1) Metadata.select_convs(12) Metadata.surjective
        Metadata.update_convs(11,13))
  show ?thesis
  proof (cases "\<exists>results u. fst (ctxErr' w2) = False
      \<and> decrypt_groups ctxErr' dsvcs order (KeyGroups m') (snd (ctxErr' w2)) = (Some results, u)")
    case True
    then obtain results u where res: "\<not> fst (ctxErr' w2)"
        "decrypt_groups ctxErr' dsvcs order (KeyGroups m') (snd (ctxErr' w2)) = (Some results, u)" by auto
    have need: "groups_needed (m'\<lparr>DataKey := None\<rparr>) = groups_needed m'" by (simp add: groups_needed_def)
    have comb: "combine_parts (m'\<lparr>DataKey := None\<rparr>) results =
      (if int (successfulKeyGroups (map group_result results)) < groups_needed m'
       then Inl (GetDataKeyError (ShamirThreshold m') (map group_result results)) else Inr dataKey)"
      using combine_parts_outcome [OF split _ decrypt_groups_holds [OF res(2) held], of "m'\<lparr>DataKey := None\<rparr>"]
        m'(2,3) same by (simp add: need)
    have len: "length results = length (KeyGroups m)"
      using list_all2_lengthD [OF decrypt_groups_holds [OF res(2) held]] list_all2_lengthD [OF held] m'(3) by simp
    have restored: "m'\<lparr>DataKey := Some dataKey\<rparr> = m'"
      by (subst (2) m'(1), subst m'(1)) simp
    have got: "case combine_parts (m'\<lparr>DataKey := None\<rparr>) results of
        Inl e \<Rightarrow> r = Inl e | Inr key \<Rightarrow> r = Inr key \<and> m'' = m'\<lparr>DataKey := Some key\<rparr>"
      using get res by (auto simp: GetDataKey_def split: prod.splits if_splits sum.splits)
    show ?thesis
    proof (cases "int (successfulKeyGroups (map group_result results)) < groups_needed m'")
      case True
      with comb got have "r = Inl (GetDataKeyError (ShamirThreshold m') (map group_result results))" by simp
      with True len show ?thesis by (metis length_map)
    next
      case False
      with comb got restored show ?thesis by simp
    qed
  next
    case False
    then show ?thesis using get
      by (auto simp: GetDataKey_def split: prod.splits if_splits option.splits)
  qed
qed

lemma decrypt_with_services_keeps: "\<exists>errs w'. decrypt_with_services ss key (Some p) w = (Some p, errs, w')"
proof (induction ss arbitrary: w)
  case (Cons s ss)
  then obtain errs w' where "decrypt_with_services ss key (Some p) w = (Some p, errs, w')" by blast
  then show ?case by simp
qed simp

lemma decrypt_with_services_answers:
  assumes "svc \<in> set ss" "\<forall>w. \<exists>p w'. svc_Decrypt svc (KeyFromMasterKey key) (EncryptedDataKey key) w = (Inr (Some p), w')"
  shows "\<exists>p errs w'. decrypt_with_services ss key None w = (Some p, errs, w')"
  using assms(1)
proof (induction ss arbitrary: w)
  case (Cons s ss)
  obtain r w1 where r: "svc_Decrypt s (KeyFromMasterKey key) (EncryptedDataKey key) w = (r, w1)"
    by (cases "svc_Decrypt s (KeyFromMasterKey key) (EncryptedDataKey key) w")
  define next' where "next' = (case r of Inr p \<Rightarrow> p | Inl _ \<Rightarrow> None)"
  have "\<exists>p errs w'. decrypt_with_services ss key next' w1 = (Some p, errs, w')"
  proof (cases next')
    case None
    moreover obtain p w' where "svc_Decrypt svc (KeyFromMasterKey key) (EncryptedDataKey key) w = (Inr (Some p), w')"
      using assms(2) by blast
    then have "svc \<noteq> s" using r None by (auto simp: next'_def)
    ultimately show ?thesis using Cons by simp
  next
    case (Some p)
    then show ?thesis using decrypt_with_services_keeps [of ss key p w1] by auto
  qed
  then show ?case using r by (auto simp: next'_def)
qed simp

lemma decryptKey_answers: "answering dsvcs key \<Longrightarrow> \<exists>p w'. decryptKey dsvcs key w = (Inr p, w')"
  using decrypt_with_services_answers [of _ dsvcs key w] by (force simp: answering_def decryptKey_def)

lemma decrypt_in_order_answers:
  "\<forall>w. \<not> fst (ctxErr w) \<Longrightarrow> \<exists>key\<in>set ks. answering dsvcs key \<Longrightarrow>
   \<exists>p w'. decrypt_in_order ctxErr dsvcs ks es w = (Inr p, w')"
proof (induction ks arbitrary: es w)
  case (Cons key ks)
  obtain w0 where ctx: "ctxErr w = (False, w0)" using Cons.prems(1) by (metis (full_types) prod.collapse)
  obtain r w1 where r: "decryptKey dsvcs key w0 = (r, w1)" by (cases "decryptKey dsvcs key w0")
  show ?case
  proof (cases r)
    case (Inl e)
    then have "\<not> answering dsvcs key" using decryptKey_answers [of key w0] r by auto
    then show ?thesis using Cons ctx r Inl by auto
  qed (use ctx r in simp)
qed simp

lemma decryptKeyGroup_answers:
  assumes "\<forall>w. \<not> fst (ctxErr w)" "\<exists>key\<in>set grp. answering dsvcs key"
  shows "\<exists>p w'. decryptKeyGroup ctxErr dsvcs order grp w = (Inr p, w')"
proof -
  have "set (map ((!) grp) (sortKeyGroupIndices grp order)) = set grp"
    by (simp add: set_sortKeyGroupIndices) (metis map_nth set_map set_upt atLeast_upt)
  then show ?thesis
    unfolding decryptKeyGroup_def using decrypt_in_order_answers assms by metis
qed

lemma decrypt_groups_answers:
  assumes "\<forall>w. \<not> fst (ctxErr w)"
  shows "\<exists>results w'. decrypt_groups ctxErr dsvcs order groups w = (Some results, w')
    \<and> length (filter (\<lambda>grp. \<exists>key\<in>set grp. answering dsvcs key) groups) \<le> successfulKeyGroups (map group_result results)"
proof (induction groups arbitrary: w)
  case (Cons grp groups)
  obtain w0 where ctx: "ctxErr w = (False, w0)" using assms by (metis (full_types) prod.collapse)
  obtain r w1 where r: "decryptKeyGroup ctxErr dsvcs order grp w0 = (r, w1)"
    by (cases "decryptKeyGroup ctxErr dsvcs order grp w0")
  obtain results w' where rec: "decrypt_groups ctxErr dsvcs order groups w1 = (Some results, w')"
      "length (filter (\<lambda>grp. \<exists>key\<in>set grp. answering dsvcs key) groups) \<le> successfulKeyGroups (map group_result results)"
    using Cons.IH by blast
  have "\<exists>p. r = Inr p" if "\<exists>key\<in>set grp. answering dsvcs key"
    using decryptKeyGroup_answers [OF assms that, of order w0] r by auto
  with ctx r rec show ?case
    by (cases r) (auto simp: successfulKeyGroups_def)
qed (simp add: successfulKeyGroups_def)

lemma data_key_live:
  assumes "UpdateMasterKeys ctxErr svcs dataKey m rnd w = ([], m', rnd', w1)"
    and "\<forall>grp\<in>set (KeyGroups m). \<forall>key\<in>set grp. trusted (KeyFromMasterKey key)"
    and alive: "\<forall>w. \<not> fst (ctxErr' w)"
    and enough: "groups_needed m' \<le> int (length (filter (\<lambda>grp. \<exists>key\<in>set grp. answering dsvcs key) (KeyGroups m')))"
  shows "\<exists>w3. GetDataKey ctxErr' dsvcs order (m'\<lparr>DataKey := None\<rparr>) w2 = (Inr dataKey, m', w3)"
proof -
  obtain r m'' w3 where get: "GetDataKey ctxErr' dsvcs order (m'\<lparr>DataKey := None\<rparr>) w2 = (r, m'', w3)"
    by (cases "GetDataKey ctxErr' dsvcs order (m'\<lparr>DataKey := None\<rparr>) w2")
  obtain w0 where ctx: "ctxErr' w2 = (False, w0)" using alive by (metis (full_types) prod.collapse)
  obtain results u where res: "decrypt_groups ctxErr' dsvcs order (KeyGroups m') w0 = (Some results, u)"
      "length (filter (\<lambda>grp. \<exists>key\<in>set grp. answering dsvcs key) (KeyGroups m')) \<le> successfulKeyGroups (map group_result results)"
    using decrypt_groups_answers [OF alive] by blast
  have r: "case combine_parts (m'\<lparr>DataKey := None\<rparr>) results of Inl e \<Rightarrow> r = Inl e | Inr key \<Rightarrow> r = Inr key"
    using get ctx res by (auto simp: GetDataKey_def split: sum.splits)
  consider "r = Inr dataKey \<and> m'' = m'" | "r = Inl GetAlreadyCancelled" | "r = Inl GetCancelledMidway"
    | results' where "r = Inl (GetDataKeyError (ShamirThreshold m') results')"
        "int (successfulKeyGroups results') < groups_needed m'"
    using data_key_outcome [OF assms(1,2) get] by blast
  then show ?thesis
  proof cases
    case 1
    with get show ?thesis by simp
  next
    case 4
    then have "results' = map group_result results"
      using r by (auto simp: combine_parts_def Let_def split: sum.splits if_splits list.splits)
    with 4 res(2) enough show ?thesis by simp
  qed (use r in \<open>auto simp: combine_parts_def Let_def split: sum.splits if_splits list.splits\<close>)
qed

end

section \<open>The local key service\<close>

definition local_clients :: "'w sdk \<Rightarrow> (('w \<Rightarrow> bool \<times> 'w) \<times> server) list \<Rightarrow> 'w keyservice list" where
  "local_clients S cs = map (\<lambda>(ctxErr, ks). LocalClient S ctxErr ks) cs"

lemma map_sum_Some_eq [simp]: "map_sum f Some x = Inr (Some q) \<longleftrightarrow> x = Inr q"
  by (cases x) auto

lemma local_clients_sound:
  assumes "sdk_lawful S" "svc \<in> set (local_clients S cs)" "svc_Encrypt svc k p w = (Inr c, w1)"
    and "svc' \<in> set (local_clients S ds)" "svc_Decrypt svc' k c w2 = (Inr (Some q), w3)"
  shows "q = p"
  using assms by (auto simp: local_clients_def LocalClient_def split: prod.splits dest: server_sound)

interpretation local_service: key_services "local_clients S cs" "local_clients S ds" "\<lambda>k. sdk_lawful S"
  for S cs ds
  by unfold_locales (rule local_clients_sound)

section \<open>Properties\<close>

text \<open>C2. Recovering the data key with the local key service, after an update that reported no error, in
  any later state of the world and with any decryption order: the result is the very data key, or the
  context was cancelled, or fewer groups than needed could be decrypted. It is never another key, and
  the parts never fail to combine.\<close>

theorem data_key_recovered:
  assumes "sdk_lawful S"
    and "UpdateMasterKeys ctxErr (local_clients S cs) dataKey m rnd w = ([], m', rnd', w1)"
    and "GetDataKey ctxErr' (local_clients S ds) order (m'\<lparr>DataKey := None\<rparr>) w2 = (r, m'', w3)"
  shows "r = Inr dataKey \<and> m'' = m' \<or> r = Inl GetAlreadyCancelled \<or> r = Inl GetCancelledMidway
    \<or> (\<exists>results. r = Inl (GetDataKeyError (ShamirThreshold m') results) \<and> length results = length (KeyGroups m)
        \<and> int (successfulKeyGroups results) < groups_needed m')"
  using local_service.data_key_outcome [OF assms(2) _ assms(3)] assms(1) by blast

text \<open>C3. It is recovered: when as many groups as needed have a key that some key service can decrypt,
  and the context is never cancelled, \<open>GetDataKey\<close> returns the data key and caches it.\<close>

theorem data_key_available:
  assumes "sdk_lawful S"
    and "UpdateMasterKeys ctxErr (local_clients S cs) dataKey m rnd w = ([], m', rnd', w1)"
    and "\<forall>w. \<not> fst (ctxErr' w)"
    and "groups_needed m' \<le> int (length (filter (\<lambda>grp. \<exists>key\<in>set grp. answering (local_clients S ds) key) (KeyGroups m')))"
  shows "\<exists>w3. GetDataKey ctxErr' (local_clients S ds) order (m'\<lparr>DataKey := None\<rparr>) w2 = (Inr dataKey, m', w3)"
  using local_service.data_key_live [OF assms(2) _ assms(3,4)] assms(1) by blast

definition sample_key :: "string \<Rightarrow> string \<Rightarrow> master_key" where
  "sample_key recipient enc = AGE \<lparr>Recipient = ''age1'' @ recipient, age_enc = enc\<rparr>"

definition sample_groups :: "(string \<times> string) list \<Rightarrow> Metadata" where
  "sample_groups keys = sample_meta\<lparr>KeyGroups := map (\<lambda>(recipient, enc). [sample_key recipient enc]) keys, ShamirThreshold := 2\<rparr>"

abbreviation sample_clients :: "unit keyservice list" where
  "sample_clients \<equiv> local_clients sample_sdk [(\<lambda>w. (False, w), \<lparr>Prompt = False\<rparr>)]"

definition sample_updated :: Metadata where
  "sample_updated = (sample_groups [(''a'', [CHR 0x01, CHR ''L'']), (''b'', [CHR 0x02, CHR ''E'']),
     (''c'', [CHR 0x03, CHR ''B''])])\<lparr>DataKey := Some ''K''\<rparr>"

lemma sample_update:
  "UpdateMasterKeys (\<lambda>w. (False, w)) sample_clients ''K'' (sample_groups [(''a'', ''''), (''b'', ''''), (''c'', '''')]) [7] ()
    = ([], sample_updated, [], ())"
  by code_simp

text \<open>C4. The order in which the keys of a group are tried. Every key is tried once. A key comes before
  another when its type stands earlier in the decryption order, the last place counting for a type that
  is named more than once; types that are not named come after all that are; and keys of one rank stay
  in the order of the group. This leaves no choice: there is one such list.\<close>

theorem decryption_order:
  "set (sortKeyGroupIndices grp order) = {..<length grp}
   \<and> sorted_wrt (\<lambda>i j. let rank = (\<lambda>k. if TypeToIdentifier k \<in> set order
          then Max {p. p < length order \<and> order ! p = TypeToIdentifier k} else length order)
        in rank (grp ! i) < rank (grp ! j) \<or> rank (grp ! i) = rank (grp ! j) \<and> i < j)
      (sortKeyGroupIndices grp order)"
proof
  show "set (sortKeyGroupIndices grp order) = {..<length grp}"
    by (simp add: set_sortKeyGroupIndices atLeast0LessThan)
  show "sorted_wrt (\<lambda>i j. let rank = (\<lambda>k. if TypeToIdentifier k \<in> set order
          then Max {p. p < length order \<and> order ! p = TypeToIdentifier k} else length order)
        in rank (grp ! i) < rank (grp ! j) \<or> rank (grp ! i) = rank (grp ! j) \<and> i < j)
      (sortKeyGroupIndices grp order)"
    unfolding Let_def key_priority_last [symmetric] sortKeyGroupIndices_def by (rule sorted_SliceStable)
qed

section \<open>Witnesses\<close>

lemma sample_answers: "answering sample_clients (sample_key recipient enc)"
  by (simp add: answering_def local_clients_def sample_key_def LocalClient_def Server_Decrypt_def
      after_prompt_def age_Decrypt_def sample_sdk_def sdk_result_def)

lemma sample_enough:
  "groups_needed sample_updated \<le>
    int (length (filter (\<lambda>grp. \<exists>key\<in>set grp. answering sample_clients key) (KeyGroups sample_updated)))"
  by (simp add: sample_updated_def sample_groups_def sample_answers groups_needed_def)

lemma data_key_available_witness:
  "\<exists>w3. GetDataKey (\<lambda>w. (False, w)) sample_clients [''age''] (sample_updated\<lparr>DataKey := None\<rparr>) ()
    = (Inr ''K'', sample_updated, w3)"
  by (rule data_key_available [OF sample_sdk_lawful sample_update _ sample_enough]) simp

lemma data_key_recovered_witness:
  "\<exists>r m'' w3. GetDataKey (\<lambda>w. (w = (), w)) sample_clients [] (sample_updated\<lparr>DataKey := None\<rparr>) () = (r, m'', w3)
    \<and> (r = Inr ''K'' \<and> m'' = sample_updated \<or> r = Inl GetAlreadyCancelled \<or> r = Inl GetCancelledMidway
       \<or> (\<exists>results. r = Inl (GetDataKeyError (ShamirThreshold sample_updated) results)
            \<and> length results = length (KeyGroups (sample_groups [(''a'', ''''), (''b'', ''''), (''c'', '''')]))
            \<and> int (successfulKeyGroups results) < groups_needed sample_updated))"
proof -
  obtain r m'' w3 where get: "GetDataKey (\<lambda>w. (w = (), w)) sample_clients [] (sample_updated\<lparr>DataKey := None\<rparr>) () = (r, m'', w3)"
    by (rule prod_cases3)
  from data_key_recovered [OF sample_sdk_lawful sample_update get] get show ?thesis by blast
qed

end
