(* ===== verification/Commands_Correct.thy ===== *)
theory Commands_Correct
  imports Commands Dotenv_Correct Aes_Cipher Key_Groups_Correct
begin

text \<open>
  Correctness of the commands: decrypting the file that \<open>encrypt\<close> wrote gives the document back, for
  every store that keeps the contract \<open>file_store\<close>, the dotenv store among them.
\<close>

section \<open>What decryption reads of the metadata\<close>

definition same_rules :: "Metadata \<Rightarrow> Metadata \<Rightarrow> bool" where
  "same_rules m n \<longleftrightarrow> UnencryptedSuffix m = UnencryptedSuffix n \<and> EncryptedSuffix m = EncryptedSuffix n
     \<and> UnencryptedRegex m = UnencryptedRegex n \<and> EncryptedRegex m = EncryptedRegex n
     \<and> UnencryptedCommentRegex m = UnencryptedCommentRegex n \<and> EncryptedCommentRegex m = EncryptedCommentRegex n
     \<and> MACOnlyEncrypted m = MACOnlyEncrypted n"

lemma decrypt_leaf_rules:
  fixes C :: "('e, 's) cipher"
  shows "same_rules m n \<Longrightarrow> decrypt_leaf L m C key = decrypt_leaf L n C key"
proof -
  assume rules: "same_rules m n"
  then have "shouldBeEncrypted L m = (shouldBeEncrypted L n :: _ \<Rightarrow> _ \<Rightarrow> _ \<Rightarrow> 'e walk_error + bool)"
    unfolding fun_eq_iff shouldBeEncrypted_def same_rules_def by presburger
  moreover have "hash_leaf L m = (hash_leaf L n :: _ \<Rightarrow> _ \<Rightarrow> _ \<Rightarrow> 'e walk_error + string)"
    using rules unfolding fun_eq_iff hash_leaf_def same_rules_def by simp
  ultimately show ?thesis unfolding fun_eq_iff decrypt_leaf_def by simp
qed

lemma Tree_Decrypt_rules:
  assumes "same_rules (TreeMetadata tree) (TreeMetadata tree')" "Branches tree = Branches tree'"
    and "Tree_Decrypt L C key tree u = Inr (t, mac, u')"
  shows "\<exists>t'. Tree_Decrypt L C key tree' u = Inr (t', mac, u') \<and> Branches t' = Branches t
    \<and> TreeMetadata t' = TreeMetadata tree'"
proof -
  have "initial_hash (TreeMetadata tree) = initial_hash (TreeMetadata tree')"
    using assms(1) by (simp add: initial_hash_def same_rules_def)
  with assms decrypt_leaf_rules [OF assms(1), of L C key] show ?thesis
    by (auto simp: Tree_Decrypt_def Let_def)
qed

lemma GetDataKey_metadata:
  "GetDataKey ctxErr svcs order m w = (Inr key, m', w') \<Longrightarrow> m' = m\<lparr>DataKey := Some key\<rparr>"
  by (auto simp: GetDataKey_def split: prod.splits if_splits option.splits sum.splits)

context tree_cipher
begin

text \<open>Decrypting an encrypted tree with the data key at hand: the MAC is the one computed.\<close>

lemma DecryptTree_EncryptTree:
  assumes enc: "EncryptTree S key tree st = Inr (tree', st1)" "Cipher S = C"
    and ok: "\<forall>b\<in>set (Branches tree). \<forall>item\<in>set b.
      crypt_ok_item leaf_ok (EncryptedCommentRegex (TreeMetadata tree) = '''') item"
    and str: "\<And>s. leaf_ok (GStr s)"
    and S': "lib S' = lib S" "Cipher S' = C"
    and stored: "same_rules (TreeMetadata tree'') (TreeMetadata tree)" "Branches tree'' = Branches tree'"
      "MessageAuthenticationCode (TreeMetadata tree'') = MessageAuthenticationCode (TreeMetadata tree')"
      "FormatRFC3339 (lib S) (LastModified (TreeMetadata tree'')) = FormatRFC3339 (lib S) (LastModified (TreeMetadata tree'))"
    and get: "GetDataKey background (KeyServices S') (DecryptionOrder S') (TreeMetadata tree'') (world st2) = (Inr key, m, w)"
  shows "\<exists>tree3 st3. DecryptTree S' ignore tree'' st2 = Inr (key, tree3, st3)
    \<and> map (map (tidy_item (EncryptedCommentRegex (TreeMetadata tree) = ''''))) (Branches tree3)
        = map (map (canon_item (EncryptedCommentRegex (TreeMetadata tree) = ''''))) (Branches tree)"
proof -
  obtain tree1 mac s now w1 ct s' where steps:
      "Tree_Encrypt (lib S) C key tree (cipher_of st) = Inr (tree1, mac, s)" "Now S (world st) = (now, w1)"
      "cipher_Encrypt C (GStr mac) key (FormatRFC3339 (lib S) (utc now)) s = Inr (ct, s')"
      "tree' = tree1\<lparr>TreeMetadata := (TreeMetadata tree1)\<lparr>LastModified := utc now, MessageAuthenticationCode := ct\<rparr>\<rparr>"
    using enc by (auto simp: EncryptTree_def split: sum.splits prod.splits)
  obtain t2 u where dec: "Tree_Decrypt (lib S) C key tree1 (cipher_of st2) = Inr (t2, mac, u)"
      "map (map (tidy_item (EncryptedCommentRegex (TreeMetadata tree) = ''''))) (Branches t2)
        = map (map (canon_item (EncryptedCommentRegex (TreeMetadata tree) = ''''))) (Branches tree)"
    using Tree_round_trip [OF steps(1) ok, of "cipher_of st2"] by blast
  have m: "m = (TreeMetadata tree'')\<lparr>DataKey := Some key\<rparr>" by (rule GetDataKey_metadata [OF get])
  have "TreeMetadata tree1 = TreeMetadata tree" using steps(1) by (auto simp: Tree_Encrypt_def Let_def)
  then have "same_rules (TreeMetadata tree1) m" using stored(1) by (simp add: m same_rules_def)
  then obtain t3 where t3: "Tree_Decrypt (lib S) C key (tree''\<lparr>TreeMetadata := m\<rparr>) (cipher_of st2) = Inr (t3, mac, u)"
      "Branches t3 = Branches t2"
    using Tree_Decrypt_rules [OF _ _ dec(1), of "tree''\<lparr>TreeMetadata := m\<rparr>"] stored(2) steps(4) by auto
  obtain u' where "cipher_Decrypt C ct key (FormatRFC3339 (lib S) (utc now)) u = (Inr (leaf_result (GStr mac)), u')"
    using decrypt_encrypt [OF str steps(3)] by blast
  then have "cipher_Decrypt C (MessageAuthenticationCode m) key (FormatRFC3339 (lib S) (LastModified m)) u = (Inr (GStr mac), u')"
    using stored(3,4) steps(4) by (simp add: m)
  with get t3(1) S' have "DecryptTree S' ignore tree'' st2 = Inr (key, t3, st2\<lparr>world := w, cipher_of := u'\<rparr>)"
    by (simp add: DecryptTree_def Let_def)
  with dec(2) t3(2) show ?thesis by auto
qed

end

section \<open>The data key of a stored file\<close>

context key_services
begin

lemma get_from_held:
  assumes split: "split_data_key (default_threshold m) dataKey rnd = Inr (parts, rnd')" "KeyGroups m \<noteq> []"
    and held: "list_all2 (\<lambda>part grp. \<forall>key\<in>set grp. holds part key) parts (KeyGroups m2)"
    and same: "length (KeyGroups m2) = length (KeyGroups m)" "ShamirThreshold m2 = ShamirThreshold (default_threshold m)"
      "DataKey m2 = None"
    and alive: "\<forall>w. \<not> fst (ctxErr w)"
    and enough: "groups_needed m2 \<le> int (length (filter (\<lambda>grp. \<exists>key\<in>set grp. answering dsvcs key) (KeyGroups m2)))"
  shows "\<exists>w'. GetDataKey ctxErr dsvcs order m2 w = (Inr dataKey, m2\<lparr>DataKey := Some dataKey\<rparr>, w')"
proof -
  have groups: "KeyGroups (default_threshold m) = KeyGroups m" by (simp add: default_threshold_def)
  obtain w0 where ctx: "ctxErr w = (False, w0)" using alive by (metis (full_types) prod.collapse)
  obtain results w' where res: "decrypt_groups ctxErr dsvcs order (KeyGroups m2) w0 = (Some results, w')"
      "length (filter (\<lambda>grp. \<exists>key\<in>set grp. answering dsvcs key) (KeyGroups m2)) \<le> successfulKeyGroups (map group_result results)"
    using decrypt_groups_answers [OF alive] by blast
  have "combine_parts m2 results = Inr dataKey"
    using combine_parts_outcome [OF split(1) _ decrypt_groups_holds [OF res(1) held], of m2] same split(2) groups
      res(2) enough by simp
  with ctx res(1) same(3) show ?thesis by (simp add: GetDataKey_def)
qed

lemma holds_stored [simp]: "holds part (stored_key L key) = holds part key"
  by (simp add: holds_def)

lemma set_by_type [simp]: "set (by_type grp) = set grp"
  by (metis mset_by_type set_mset_mset)

text \<open>From the metadata that was updated and stored, with its time and MAC changed.\<close>

lemma get_from_stored:
  assumes upd: "UpdateMasterKeys ctxErr svcs dataKey m rnd w = ([], m', rnd', w1)"
    and trust: "\<forall>grp\<in>set (KeyGroups m). \<forall>key\<in>set grp. trusted (KeyFromMasterKey key)"
    and stored: "m2 = stored_form L (m'\<lparr>LastModified := t, MessageAuthenticationCode := mac\<rparr>)"
    and alive: "\<forall>w. \<not> fst (ctxErr' w)"
    and enough: "groups_needed m2 \<le> int (length (filter (\<lambda>grp. \<exists>key\<in>set grp. answering dsvcs key) (KeyGroups m2)))"
  shows "\<exists>w3. GetDataKey ctxErr' dsvcs order m2 w2 = (Inr dataKey, m2\<lparr>DataKey := Some dataKey\<rparr>, w3)"
proof -
  obtain parts where parts: "split_data_key (default_threshold m) dataKey rnd = Inr (parts, rnd')"
      "m' = (default_threshold m)\<lparr>KeyGroups := KeyGroups m', DataKey := Some dataKey\<rparr>" "KeyGroups m \<noteq> []"
      "length (KeyGroups m') = length (KeyGroups m)"
      "list_all2 (\<lambda>part grp. \<forall>key\<in>set grp. holds part key) parts (KeyGroups m')"
    using update_holds [OF upd trust] by blast
  have threshold: "ShamirThreshold m' = ShamirThreshold (default_threshold m)"
    by (subst parts(2)) simp
  have "KeyGroups m2 = map (\<lambda>grp. map (stored_key L) (by_type grp)) (KeyGroups m')"
    by (simp add: stored stored_form_def)
  then have "list_all2 (\<lambda>part grp. \<forall>key\<in>set grp. holds part key) parts (KeyGroups m2)"
    using parts(5) by (simp add: list_all2_map2)
  then show ?thesis
    by (rule get_from_held [OF parts(1,3) _ _ _ _ alive enough])
      (use parts(4) threshold in \<open>simp_all add: stored stored_form_def\<close>)
qed

end

section \<open>The interface of a store\<close>

text \<open>
  What the commands rely on: the encrypted file that a store wrote is read back, the metadata in its
  stored form and the branches as they were. \<open>writable\<close> is the domain of the law.
\<close>

locale file_store =
  fixes store :: "'e store" and L :: golib and writable :: "Tree \<Rightarrow> bool"
  assumes load_emitted: "writable tree \<Longrightarrow> store_EmitEncryptedFile store tree = Inr out \<Longrightarrow>
      store_LoadEncryptedFile store now out =
        Inr \<lparr>TreeMetadata = stored_form L (TreeMetadata tree), Branches = Branches tree, FilePath = ''''\<rparr>"

lemma UpdateMasterKeys_keeps:
  assumes "UpdateMasterKeys ctxErr svcs dataKey m rnd w = (errs, m', rnd', w')"
  shows "same_rules m' m \<and> SopsVersion m' = SopsVersion m"
  using assms
  by (auto simp: UpdateMasterKeys_def default_threshold_def Let_def same_rules_def
      split: prod.splits if_splits sum.splits)

lemma GenerateTreeKey_update:
  assumes "GenerateTreeKey S tree st = Inr (dataKey, tree', st')"
  shows "\<exists>m rnd w. UpdateMasterKeys background (KeyServices S) dataKey (TreeMetadata tree) (drop 32 (entropy st)) (world st)
      = ([], m, rnd, w) \<and> tree' = tree\<lparr>TreeMetadata := m\<rparr>"
  using assms
  by (auto simp: GenerateTreeKey_def GenerateTreeKeyCtx_def GenerateDataKey_def Let_def
      split: option.splits prod.splits if_splits)

lemma EncryptTree_metadata:
  assumes "EncryptTree S key tree st = Inr (tree', st')"
  shows "TreeMetadata tree' = (TreeMetadata tree)\<lparr>LastModified := LastModified (TreeMetadata tree'),
    MessageAuthenticationCode := MessageAuthenticationCode (TreeMetadata tree')\<rparr>"
  using assms by (auto simp: EncryptTree_def Tree_Encrypt_def Let_def split: sum.splits prod.splits)

lemma stored_rules:
  assumes "crypt_rules m \<noteq> []"
  shows "same_rules (stored_form L m) m"
  using assms by (simp add: same_rules_def stored_form_def)

lemma crypt_rules_same: "same_rules m n \<Longrightarrow> crypt_rules m = crypt_rules n"
  by (simp add: same_rules_def crypt_rules_def)

text \<open>A store, the services that encrypt and those that decrypt, and a cipher.\<close>

locale file_cycle = file_store store L writable + key_services svcs dsvcs trusted
  for store :: "'e store" and L writable and svcs :: "'w keyservice list" and dsvcs :: "'v keyservice list" and trusted +
  fixes C :: "('c, 's) cipher" and leaf_ok :: "gval \<Rightarrow> bool"
  assumes cipher: "tree_cipher C key leaf_ok"
begin

lemma encrypt_then_decrypt:
  assumes strings: "\<And>s. leaf_ok (GStr s)"
    and S: "lib S = L" "Cipher S = C" "KeyServices S = svcs"
    and S': "lib S' = L" "Cipher S' = C" "KeyServices S' = dsvcs"
    and plain: "store_LoadPlainFile InputStore bytes = Inr branches"
      "\<forall>b\<in>set branches. \<forall>item\<in>set b. crypt_ok_item leaf_ok (config_EncryptedCommentRegex config = '''') item"
    and enc: "encrypted_tree S InputStore store config (Some bytes) path st = Inr (tree, st1)"
      "store_EmitEncryptedFile store tree = Inr out" "writable tree"
    and rules: "crypt_rules (metadataFromEncryptionConfig config) \<noteq> []"
    and rfc3339: "\<And>t. FormatRFC3339 L (stored_time L t) = FormatRFC3339 L t"
    and trust: "\<forall>grp\<in>set (config_KeyGroups config). \<forall>key\<in>set grp. trusted (KeyFromMasterKey key)"
    and newer: "AIsNewerThanB S' KMS_ENC_CTX_BUG_FIXED_VERSION sops_Version = Some False"
    and enough: "groups_needed (stored_form L (TreeMetadata tree)) \<le> int (length
      (filter (\<lambda>grp. \<exists>key\<in>set grp. answering dsvcs key) (KeyGroups (stored_form L (TreeMetadata tree)))))"
  shows "\<exists>key tree3 st3. decryptTree S' store ignore (Some out) (Some p) st2 = Inr (key, tree3, st3)
    \<and> map (map (tidy_item (config_EncryptedCommentRegex config = ''''))) (Branches tree3)
        = map (map (canon_item (config_EncryptedCommentRegex config = ''''))) branches"
proof -
  let ?m0 = "metadataFromEncryptionConfig config"
  obtain p0 dataKey t1 st0 where run:
      "(GenerateTreeKey S \<lparr>TreeMetadata = ?m0, Branches = branches, FilePath = p0\<rparr> st :: ('e, 'c) failure + _)
        = Inr (dataKey, t1, st0)"
      "(EncryptTree S dataKey t1 st0 :: ('e, 'c) failure + _) = Inr (tree, st1)"
    using enc(1) plain(1) by (auto simp: encrypted_tree_def split: option.splits)
  obtain m' rnd' w1 where upd: "UpdateMasterKeys background svcs dataKey ?m0 (drop 32 (entropy st)) (world st) = ([], m', rnd', w1)"
      "t1 = \<lparr>TreeMetadata = m', Branches = branches, FilePath = p0\<rparr>"
    using GenerateTreeKey_update [OF run(1)] S(3) by auto
  obtain t mac where m: "TreeMetadata tree = m'\<lparr>LastModified := t, MessageAuthenticationCode := mac\<rparr>"
    using EncryptTree_metadata [OF run(2)] upd(2) by auto
  define m2 where "m2 = stored_form L (TreeMetadata tree)"
  have kept: "same_rules m' ?m0" "SopsVersion m' = sops_Version"
    using UpdateMasterKeys_keeps [OF upd(1)] by (simp_all add: metadataFromEncryptionConfig_def)
  then have "same_rules (TreeMetadata tree) ?m0" by (simp add: m same_rules_def)
  then have "crypt_rules (TreeMetadata tree) \<noteq> []" using rules crypt_rules_same by simp
  from stored_rules [OF this, of L] have same: "same_rules m2 m'" by (simp add: m2_def m same_rules_def)
  obtain w0 w2 where now: "Now S' (world st2) = (w0, w2)" by (cases "Now S' (world st2)")
  define tree2 where "tree2 = \<lparr>TreeMetadata = m2, Branches = Branches tree, FilePath = p\<rparr>"
  have "DetectKMSEncryptionContextBug S' tree2 = Some False"
    using newer kept(2) by (simp add: DetectKMSEncryptionContextBug_def tree2_def m2_def stored_form_def m)
  then have load: "LoadEncryptedFileWithBugFixes S' store (Some out) (Some p) st2 = Inr (tree2, st2\<lparr>world := w2\<rparr>)"
    using load_emitted [OF enc(3,2)] now
    by (simp add: LoadEncryptedFileWithBugFixes_def LoadEncryptedFileEx_def tree2_def m2_def)
  have groups: "KeyGroups ?m0 = config_KeyGroups config" by (simp add: metadataFromEncryptionConfig_def)
  obtain m3 w3 where get: "GetDataKey background dsvcs (DecryptionOrder S') m2 w2 = (Inr dataKey, m3, w3)"
    using get_from_stored [OF upd(1), where L = L and t = t and mac = mac and ctxErr' = background and order = "DecryptionOrder S'" and ?w2.0 = w2] trust groups enough
    by (auto simp: m2_def m background_def)
  have regex: "EncryptedCommentRegex m' = config_EncryptedCommentRegex config"
    using kept(1) by (simp add: same_rules_def metadataFromEncryptionConfig_def)
  have "FormatRFC3339 L (LastModified m2) = FormatRFC3339 L (LastModified (TreeMetadata tree))"
    using rfc3339 by (simp add: m2_def stored_form_def)
  moreover have "MessageAuthenticationCode m2 = MessageAuthenticationCode (TreeMetadata tree)"
    by (simp add: m2_def stored_form_def)
  moreover have "\<exists>tree3 st3. (DecryptTree S' ignore tree2 (st2\<lparr>world := w2\<rparr>) :: ('e, 'c) failure + _) = Inr (dataKey, tree3, st3)
      \<and> map (map (tidy_item (EncryptedCommentRegex (TreeMetadata t1) = ''''))) (Branches tree3)
        = map (map (canon_item (EncryptedCommentRegex (TreeMetadata t1) = ''''))) (Branches t1)"
    by (rule tree_cipher.DecryptTree_EncryptTree [OF cipher run(2)])
      (use S S' plain(2) strings same get regex calculation in \<open>simp_all add: tree2_def upd(2)\<close>)
  ultimately show ?thesis
    using regex by (auto simp: decryptTree_def load upd(2))
qed

end

section \<open>The dotenv store\<close>

definition dotenv_store :: "golib \<Rightarrow> valfmt \<Rightarrow> mapstructure \<Rightarrow> dotenv_error store" where
  "dotenv_store L F M =
     \<lparr>store_LoadPlainFile = dotenv_LoadPlainFile,
      store_LoadEncryptedFile = dotenv_LoadEncryptedFile L M,
      store_EmitPlainFile = dotenv_EmitPlainFile L F,
      store_EmitEncryptedFile = dotenv_EmitEncryptedFile L F M,
      store_EmitValue = (\<lambda>v. case v of CVal x \<Rightarrow> dotenv_EmitValue x | _ \<Rightarrow> Inl OnlyStrings),
      store_EmitExample = dotenv_EmitExample L F,
      store_HasSopsTopLevelKey = dotenv_HasSopsTopLevelKey\<rparr>"

definition metadata_writable :: "golib \<Rightarrow> valfmt \<Rightarrow> mapstructure \<Rightarrow> Metadata \<Rightarrow> bool" where
  "metadata_writable L F M m \<longleftrightarrow> storable L m \<and> decodes_texts L F M (metadataFromInternal L m)
     \<and> embeddable M (metadataFromInternal L m) \<and> metadata_lines L F M (metadataFromInternal L m)"

text \<open>The items that a dotenv file holds.\<close>

fun file_item :: "treeitem \<Rightarrow> bool" where
  "file_item (TreeItem (KComment c) GNil) = (\<not> Inline c \<and> newline \<notin> set (CValue c))"
| "file_item (TreeItem (KStr k) (GStr s)) =
     (newline \<notin> set k \<and> CHR ''='' \<notin> set k \<and> \<not> has_prefix k ''#'' \<and> no_escape s)"
| "file_item item = False"

lemma file_item_line: "line_ok L F item \<and> as_line L F item = item \<longleftrightarrow> file_item item"
proof (cases item)
  case (TreeItem k v)
  have "\<lparr>CValue = CValue c, Inline = False\<rparr> = c \<longleftrightarrow> \<not> Inline c" for c :: comment
    by (cases c) auto
  then show ?thesis by (cases k; cases v) (auto simp: TreeItem value_text_def)
qed

definition dotenv_writable :: "golib \<Rightarrow> valfmt \<Rightarrow> mapstructure \<Rightarrow> Tree \<Rightarrow> bool" where
  "dotenv_writable L F M tree \<longleftrightarrow> metadata_writable L F M (TreeMetadata tree)
     \<and> (\<exists>b. Branches tree = [b] \<and> (\<forall>item\<in>set b. file_item item))"

interpretation dotenv: file_store "dotenv_store L F M" L "dotenv_writable L F M" for L F M
proof unfold_locales
  fix tree out now
  assume "dotenv_writable L F M tree" and out: "store_EmitEncryptedFile (dotenv_store L F M) tree = Inr out"
  then obtain b where b: "Branches tree = [b]" "\<forall>item\<in>set b. line_ok L F item \<and> as_line L F item = item"
      "metadata_writable L F M (TreeMetadata tree)"
    by (auto simp: dotenv_writable_def file_item_line)
  then show "store_LoadEncryptedFile (dotenv_store L F M) now out =
      Inr \<lparr>TreeMetadata = stored_form L (TreeMetadata tree), Branches = Branches tree, FilePath = ''''\<rparr>"
    using dotenv_encrypted [of L tree F M b out now] out by (simp add: dotenv_store_def metadata_writable_def)
qed

interpretation dotenv_cycle: file_cycle "dotenv_store L F M" L "dotenv_writable L F M"
    "local_clients SDK cs" "local_clients SDK ds" "\<lambda>k. sdk_lawful SDK"
    "aes_cipher L G" "\<lambda>v. gcm_lawful G \<and> aes_ok L v"
  for L F M SDK cs ds G
  by unfold_locales

section \<open>Encrypted dotenv files\<close>

lemma no_escape_plain: "CHR 0x5C \<notin> set s \<Longrightarrow> no_escape s"
  by (induction s rule: no_escape.induct) auto

lemma aes_text_line:
  assumes "aes_Encrypt L G v key aad st = Inr (t, st')"
  shows "newline \<notin> set t \<and> no_escape t"
  using assms
proof (cases rule: aes_Encrypt_cases)
  case (sealed i ty b out)
  have label: "newline \<notin> set ty \<and> CHR 0x5C \<notin> set ty"
    using sealed(4) by (cases v) (auto simp: newline_def split: option.splits)
  have "CHR 0x5C \<notin> set (EncodeToString d)" for d
    by (rule EncodeToString_chars) (simp add: std_alphabet_def)
  moreover have "newline \<notin> set (EncodeToString d)" for d
    by (simp add: newline_def)
  ultimately have "newline \<notin> set t \<and> CHR 0x5C \<notin> set t"
    using label by (simp add: sealed(7) format_value_def) (simp add: newline_def)
  then show ?thesis using no_escape_plain by blast
qed simp

lemma encrypt_leaf_line:
  assumes "encrypt_leaf L m (aes_cipher L G) key v path stack st = Inr (v', st')"
  shows "v' = v \<or> (\<exists>t. v' = GStr t \<and> newline \<notin> set t \<and> no_escape t)"
  using assms
  by (auto simp: encrypt_leaf_def aes_cipher_def split: sum.splits if_splits dest!: aes_text_line)

lemma walk_lines:
  assumes "walkBranch (encrypt_leaf L m (aes_cipher L G) key) items path stack active st = Inr (items', st')"
    and "\<forall>item\<in>set items. file_item item"
  shows "\<forall>item\<in>set items'. file_item item"
  using assms
proof (induction items arbitrary: active st items' st')
  case (Cons item items)
  show ?case
  proof (cases item rule: file_item.cases)
    case (1 c)
    with Cons.prems obtain enc st1 k items1 st2 where
        enc: "encrypt_leaf L m (aes_cipher L G) key (GComment c) path (stack @ [active @ [CValue c]]) st = Inr (enc, st1)"
      and k: "enc = GComment k \<or> (\<exists>t. enc = GStr t \<and> k = \<lparr>CValue = t, Inline = Inline c\<rparr>)"
      and rest: "walkBranch (encrypt_leaf L m (aes_cipher L G) key) items path stack (active @ [CValue c]) st1 = Inr (items1, st2)"
        "items' = TreeItem (KComment k) GNil # items1"
      by (auto split: gval.splits)
    from encrypt_leaf_line [OF enc] k Cons.prems(2) 1 have "file_item (TreeItem (KComment k) GNil)" by auto
    with Cons.IH [OF rest(1)] rest(2) Cons.prems(2) show ?thesis by simp
  next
    case (2 k s)
    with Cons.prems obtain v' st1 items1 st2 where
        enc: "encrypt_leaf L m (aes_cipher L G) key (GStr s) (path @ [k]) (stack @ [active]) st = Inr (v', st1)"
      and rest: "walkBranch (encrypt_leaf L m (aes_cipher L G) key) items path stack [] st1 = Inr (items1, st2)"
        "items' = TreeItem (KStr k) v' # items1"
      by auto
    from encrypt_leaf_line [OF enc] Cons.prems(2) 2 have "file_item (TreeItem (KStr k) v')" by auto
    with Cons.IH [OF rest(1)] rest(2) Cons.prems(2) show ?thesis by simp
  qed (use Cons.prems in auto)
qed simp

text \<open>What the round trip makes of such an item reads back as the item.\<close>

lemma tidy_line:
  assumes "file_item item" "tidy_item keep item' = canon_item keep item"
  shows "line_ok L F item' \<and> as_line L F item' = item"
proof (cases item rule: file_item.cases)
  case (1 c)
  with assms obtain c' where "item' = TreeItem (KComment c') GNil" "CValue c' = CValue c"
    by (cases item'; cases "Key item'") (auto split: if_splits)
  with 1 assms(1) show ?thesis by (cases c) auto
next
  case (2 k s)
  with assms have "item' = TreeItem (KStr k) (GStr s)"
    by (cases item'; cases "Key item'"; cases "Value item'") auto
  with 2 assms(1) show ?thesis by (simp add: value_text_def)
qed (use assms in auto)

lemma EncryptTree_lines:
  assumes "EncryptTree S key tree st = Inr (tree', st')" "Cipher S = aes_cipher L G" "lib S = L"
    and "Branches tree = [b]" "\<forall>item\<in>set b. file_item item"
  shows "\<exists>b'. Branches tree' = [b'] \<and> (\<forall>item\<in>set b'. file_item item)"
proof -
  from assms(1-4) obtain b' st1 where b': "Branches tree' = [b']"
      "walkBranch (encrypt_leaf L (TreeMetadata tree) (aes_cipher L G) key) b [] [] []
         (initial_hash (TreeMetadata tree), cipher_of st) = Inr (b', st1)"
    by (auto simp: EncryptTree_def Tree_Encrypt_def Let_def split: sum.splits prod.splits)
  from walk_lines [OF b'(2) assms(5)] b'(1) show ?thesis by blast
qed

lemma encrypted_tree_steps:
  fixes InS :: "'e store" and S :: "('w, 'c, 's) cmd_env"
  assumes "encrypted_tree S InS OutS config (Some bytes) path st = Inr (tree, st1)"
    and "store_LoadPlainFile InS bytes = Inr branches"
  shows "\<exists>dataKey t st0. EncryptTree S dataKey t st0 = (Inr (tree, st1) :: ('e, 'c) failure + _) \<and> Branches t = branches"
proof -
  obtain p dataKey t st0 where "GenerateTreeKey S \<lparr>TreeMetadata = metadataFromEncryptionConfig config,
      Branches = branches, FilePath = p\<rparr> st = (Inr (dataKey, t, st0) :: ('e, 'c) failure + _)"
      "EncryptTree S dataKey t st0 = (Inr (tree, st1) :: ('e, 'c) failure + _)"
    using assms by (auto simp: encrypted_tree_def split: option.splits)
  moreover have "Branches t = branches" using GenerateTreeKey_update [OF calculation(1)] by auto
  ultimately show ?thesis by blast
qed

text \<open>C1. The life of a dotenv file. Whatever \<open>sops encrypt\<close> made of it, \<open>sops decrypt\<close>, run later with
  any other key services of the same SDKs, any cipher state and any world, gives a file that reads as
  the one encrypted: provided that enough groups have a key that can be decrypted, that the
  configuration has a rule for what to encrypt, and that the metadata can be written as lines.\<close>

theorem dotenv_encrypt_decrypt:
  assumes lawful: "gcm_lawful G" "sdk_lawful SDK" "\<And>t. FormatRFC3339 L (stored_time L t) = FormatRFC3339 L t"
    and S: "lib S = L" "Cipher S = aes_cipher L G" "KeyServices S = local_clients SDK cs"
    and S': "lib S' = L" "Cipher S' = aes_cipher L G" "KeyServices S' = local_clients SDK ds"
      "AIsNewerThanB S' KMS_ENC_CTX_BUG_FIXED_VERSION sops_Version = Some False"
    and plain: "dotenv_LoadPlainFile bytes = Inr branches"
      "config_EncryptedCommentRegex config = '''' \<or>
        (\<forall>b\<in>set branches. \<forall>item\<in>set b. \<forall>c. Key item = KComment c \<longrightarrow> CValue c \<noteq> '''')"
    and rules: "crypt_rules (metadataFromEncryptionConfig config) \<noteq> []"
    and enc: "encrypted_tree S (dotenv_store L F M) (dotenv_store L F M) config (Some bytes) path st = Inr (tree, st1)"
      "encrypt S (dotenv_store L F M) (dotenv_store L F M) config (Some bytes) path st = Inr (out, st1)"
    and writable: "metadata_writable L F M (TreeMetadata tree)"
    and enough: "groups_needed (stored_form L (TreeMetadata tree)) \<le> int (length (filter
      (\<lambda>grp. \<exists>key\<in>set grp. answering (local_clients SDK ds) key) (KeyGroups (stored_form L (TreeMetadata tree)))))"
  shows "\<exists>again st3. decrypt S' (dotenv_store L F M) (dotenv_store L F M) ignore [] (Some out) (Some p) st2 = Inr (again, st3)
    \<and> dotenv_LoadPlainFile again = Inr branches"
proof -
  let ?store = "dotenv_store L F M" and ?pc = "config_EncryptedCommentRegex config = []"
  obtain b where b: "branches = [b]" "\<forall>item\<in>set b. file_item item"
    using load_plain_ok [OF plain(1), of L F] by (auto simp: file_item_line)
  have load: "store_LoadPlainFile ?store bytes = Inr branches" by (simp add: dotenv_store_def plain(1))
  obtain dataKey t st0 where "EncryptTree S dataKey t st0 = (Inr (tree, st1) :: (dotenv_error, aes_error) failure + _)"
      "Branches t = branches"
    using encrypted_tree_steps [OF enc(1) load] by blast
  from EncryptTree_lines [OF this(1) S(2,1), of b] this(2) b have "dotenv_writable L F M tree"
    using writable by (auto simp: dotenv_writable_def)
  moreover have "store_EmitEncryptedFile ?store tree = Inr out"
    using enc by (auto simp: encrypt_def marshal_def split: sum.splits)
  moreover have "\<forall>b\<in>set branches. \<forall>item\<in>set b. crypt_ok_item (\<lambda>v. gcm_lawful G \<and> aes_ok L v) ?pc item"
  proof -
    have "crypt_ok_item (\<lambda>v. gcm_lawful G \<and> aes_ok L v) ?pc item" if "item \<in> set b" for item
      using that b plain(2) lawful(1) by (cases item rule: file_item.cases) auto
    then show ?thesis using b(1) by simp
  qed
  ultimately obtain key tree3 st3 where dec: "decryptTree S' ?store ignore (Some out) (Some p) st2
        = (Inr (key, tree3, st3) :: (dotenv_error, aes_error) failure + _)"
      "map (map (tidy_item ?pc)) (Branches tree3) = map (map (canon_item ?pc)) branches"
    using dotenv_cycle.encrypt_then_decrypt [where S' = S' and ignore = ignore and p = p and ?st2.0 = st2,
        OF _ S S'(1-3) load _ enc(1) _ _ rules lawful(3) _ S'(4) enough] lawful(1,2)
    by auto
  obtain b3 where b3: "Branches tree3 = [b3]" "map (tidy_item ?pc) b3 = map (canon_item ?pc) b"
    using dec(2) b(1) by (cases "Branches tree3") auto
  have "list_all2 (\<lambda>item' item. line_ok L F item' \<and> as_line L F item' = item) b3 b"
  proof (rule list_all2_all_nthI)
    show len: "length b3 = length b" using b3(2) map_eq_imp_length_eq by blast
    fix i assume "i < length b3"
    with len b(2) arg_cong [OF b3(2), of "\<lambda>l. l ! i"]
    show "line_ok L F (b3 ! i) \<and> as_line L F (b3 ! i) = b ! i" using tidy_line [of "b ! i" ?pc "b3 ! i"] by simp
  qed
  then have "(\<forall>item\<in>set b3. line_ok L F item) \<and> map (as_line L F) b3 = b"
    by (induction b3 b rule: list_all2_induct) auto
  with load_emit_plain [of b3 L F "[]"] obtain again where
      "dotenv_EmitPlainFile L F [b3] = Inr again" "dotenv_LoadPlainFile again = Inr [b]" by auto
  with dec(1) b3(1) b(1) show ?thesis
    by (simp add: decrypt_def dump_def dotenv_store_def)
qed

section \<open>Witnesses\<close>

definition sample_env :: "(unit, aes_error, cipher_state) cmd_env" where
  "sample_env = \<lparr>lib = sample_lib, Cipher = aes_cipher sample_lib sample_gcm, KeyServices = sample_clients,
     DecryptionOrder = [''age''], Now = (\<lambda>w. (zero_time, w)), semver_valid = (\<lambda>v. True),
     semver_Compare = (\<lambda>a b. -1)\<rparr>"

definition sample_config :: encryptConfig where
  "sample_config = \<lparr>config_UnencryptedSuffix = ''_clear'', config_EncryptedSuffix = '''',
     config_UnencryptedRegex = '''', config_EncryptedRegex = '''', config_UnencryptedCommentRegex = '''',
     config_EncryptedCommentRegex = '''', config_MACOnlyEncrypted = False,
     config_KeyGroups = [[AGE \<lparr>Recipient = ''age1a'', age_enc = ''''\<rparr>]], config_GroupThreshold = 0\<rparr>"

definition sample_run :: "(unit, cipher_state) run" where
  "sample_run = \<lparr>world = (), cipher_of = NewCipher (replicate 64 CHR ''i''), entropy = replicate 32 107\<rparr>"

definition sample_dotenv :: string where
  "sample_dotenv = ''A=b'' @ [newline] @ ''#c'' @ [newline]"

definition sample_fmt :: valfmt where
  "sample_fmt = \<lparr>FormatG = (\<lambda>x. ''1''), FormatF1 = (\<lambda>x. ''1.0''), SprintV = (\<lambda>v. ''v''), SprintKey = (\<lambda>k. ''k'')\<rparr>"

definition sample_cipher_text :: "string \<Rightarrow> string" where
  "sample_cipher_text s = format_value s (replicate 32 CHR ''i'') (replicate 16 CHR ''T'') ''str''"

text \<open>The tree that \<open>encrypt\<close> makes of the sample file.\<close>

definition sample_written :: Tree where
  "sample_written =
     \<lparr>TreeMetadata = (metadataFromEncryptionConfig sample_config)
        \<lparr>MessageAuthenticationCode := sample_cipher_text ''62'',
          KeyGroups := [[AGE \<lparr>Recipient = ''age1a'', age_enc = replicate 32 CHR ''k''\<rparr>]],
          DataKey := Some (replicate 32 CHR ''k'')\<rparr>,
      Branches = [[TreeItem (KStr ''A'') (GStr (sample_cipher_text ''b'')),
        TreeItem (KComment \<lparr>CValue = ''c'', Inline = False\<rparr>) GNil]],
      FilePath = ''f''\<rparr>"

text \<open>A decoder of texts for the one struct at hand.\<close>

definition sample_decoder :: mapstructure where
  "sample_decoder =
     (let md = metadataFromInternal sample_lib (TreeMetadata sample_written);
          texts = go_map (\<lambda>v. GStr (value_text sample_lib sample_fmt v)) (GoMap (sample_fields md))
      in \<lparr>ms_Encode = (\<lambda>m. Inr (sample_fields m)),
          ms_Decode = (\<lambda>m. if canonical (GoMap m) = canonical texts then Inr md else Inl '''')\<rparr>)"

abbreviation sample_store :: "dotenv_error store" where
  "sample_store \<equiv> dotenv_store sample_lib sample_fmt sample_decoder"

lemma sample_encrypted_tree:
  "encrypted_tree sample_env sample_store sample_store sample_config (Some sample_dotenv) (Some ''f'') sample_run
    = Inr (sample_written, sample_run\<lparr>cipher_of := NewCipher '''', entropy := []\<rparr>)"
  by code_simp

lemma sample_marshals: "\<not> isl (marshal sample_store sample_written :: (dotenv_error, aes_error) failure + string)"
  by code_simp

lemma sample_lines:
  "case metadataToTreeBranch sample_decoder (metadataFromInternal sample_lib (TreeMetadata sample_written)) of
     Inl e \<Rightarrow> False
   | Inr t \<Rightarrow> (case flattenTreeBranch t SopsPrefix of Inl e \<Rightarrow> False | Inr flat \<Rightarrow> list_all (line_ok sample_lib sample_fmt) flat)"
  by code_simp

lemma sample_metadata_writable: "metadata_writable sample_lib sample_fmt sample_decoder (TreeMetadata sample_written)"
proof -
  have "storable sample_lib (TreeMetadata sample_written)" by code_simp
  moreover have "embeddable sample_decoder (metadataFromInternal sample_lib (TreeMetadata sample_written))" by code_simp
  moreover have "decodes_texts sample_lib sample_fmt sample_decoder (metadataFromInternal sample_lib (TreeMetadata sample_written))"
    by (simp add: decodes_texts_def decodes_mapped_def sample_decoder_def Let_def del: canonical.simps go_map.simps)
  moreover have "metadata_lines sample_lib sample_fmt sample_decoder (metadataFromInternal sample_lib (TreeMetadata sample_written))"
    using sample_lines by (auto simp: metadata_lines_def list_all_iff split: sum.splits)
  ultimately show ?thesis by (simp add: metadata_writable_def)
qed

lemma sample_still_answers:
  "groups_needed (stored_form sample_lib (TreeMetadata sample_written)) \<le> int (length (filter
    (\<lambda>grp. \<exists>key\<in>set grp. answering sample_clients key) (KeyGroups (stored_form sample_lib (TreeMetadata sample_written)))))"
proof -
  have "KeyGroups (stored_form sample_lib (TreeMetadata sample_written)) = [[Key_Groups_Correct.sample_key ''a'' (replicate 32 CHR ''k'')]]"
    by code_simp
  then show ?thesis by (simp add: sample_answers groups_needed_def)
qed

lemma dotenv_encrypt_decrypt_witness:
  "\<exists>out again st3. encrypt sample_env sample_store sample_store sample_config (Some sample_dotenv) (Some ''f'') sample_run
      = Inr (out, sample_run\<lparr>cipher_of := NewCipher '''', entropy := []\<rparr>)
    \<and> decrypt sample_env sample_store sample_store False [] (Some out) (Some ''f'') sample_run = Inr (again, st3)
    \<and> dotenv_LoadPlainFile again = dotenv_LoadPlainFile sample_dotenv"
proof -
  obtain out where out: "encrypt sample_env sample_store sample_store sample_config (Some sample_dotenv) (Some ''f'') sample_run
      = Inr (out, sample_run\<lparr>cipher_of := NewCipher '''', entropy := []\<rparr>)"
    using sample_marshals by (auto simp: encrypt_def sample_encrypted_tree not_isl_iff)
  have load: "dotenv_LoadPlainFile sample_dotenv =
      Inr [[TreeItem (KStr ''A'') (GStr ''b''), TreeItem (KComment \<lparr>CValue = ''c'', Inline = False\<rparr>) GNil]]"
    by code_simp
  have env: "lib sample_env = sample_lib" "Cipher sample_env = aes_cipher sample_lib sample_gcm"
      "KeyServices sample_env = sample_clients"
    by (simp_all add: sample_env_def)
  have time: "FormatRFC3339 sample_lib (stored_time sample_lib t) = FormatRFC3339 sample_lib t" for t
    by (simp add: sample_lib_def)
  have "AIsNewerThanB sample_env KMS_ENC_CTX_BUG_FIXED_VERSION sops_Version = Some False"
    "crypt_rules (metadataFromEncryptionConfig sample_config) \<noteq> []"
    "config_EncryptedCommentRegex sample_config = ''''" by code_simp+
  with dotenv_encrypt_decrypt [OF sample_gcm_lawful sample_sdk_lawful time env env _ load _ _ sample_encrypted_tree out
      sample_metadata_writable sample_still_answers, of False "''f''" sample_run] out load
  show ?thesis by auto
qed

end
