(* ===== verification/Key_Commands_Correct.thy ===== *)
theory Key_Commands_Correct
  imports Key_Commands Commands_Correct
begin

text \<open>
  Properties of the commands: nothing is decrypted without its MAC; \<open>rotate\<close> encrypts under a new key and
  removes what it is told to, unless a key is listed twice; \<open>updatekeys\<close> changes the keys and nothing
  else; and the cases in which \<open>edit\<close>,
  \<open>groups delete\<close> and the package \<open>encrypt\<close> lose data.
\<close>

section \<open>Removing keys\<close>

lemma remove_scan_end: "n \<le> j \<Longrightarrow> remove_scan rm n j backing len = Some (take len backing)"
  by (simp add: remove_scan.simps)

lemma remove_scan_skip:
  "\<forall>i. j \<le> i \<and> i < n \<longrightarrow> ToString (backing ! i) \<noteq> rm \<Longrightarrow> remove_scan rm n j backing len = Some (take len backing)"
proof (induction "n - j" arbitrary: j)
  case (Suc d)
  then show ?case by (subst remove_scan.simps) auto
qed (simp add: remove_scan_end)

text \<open>Up to the first match the scan has changed nothing.\<close>

lemma remove_scan_until:
  "j \<le> i \<Longrightarrow> i \<le> n \<Longrightarrow> \<forall>k. j \<le> k \<and> k < i \<longrightarrow> ToString (backing ! k) \<noteq> rm \<Longrightarrow>
   remove_scan rm n j backing len = remove_scan rm n i backing len"
proof (induction "i - j" arbitrary: j)
  case (Suc d)
  have "remove_scan rm n (Suc j) backing len = remove_scan rm n i backing len"
    by (rule Suc.hyps(1)) (use Suc in auto)
  moreover have "j < n" "ToString (backing ! j) \<noteq> rm" using Suc.hyps(2) Suc.prems by auto
  then have "remove_scan rm n j backing len = remove_scan rm n (Suc j) backing len"
    by (subst remove_scan.simps) simp
  ultimately show ?case by simp
qed simp

lemma remove_key_split:
  assumes "\<forall>k\<in>set xs. ToString k \<noteq> ToString rmKey" "ToString y = ToString rmKey"
  shows "remove_key rmKey (xs @ y # ys) =
    remove_scan (ToString rmKey) (length (xs @ y # ys)) (Suc (length xs))
      (xs @ ys @ [last (y # ys)]) (length (xs @ ys))"
proof -
  let ?grp = "xs @ y # ys"
  have "remove_key rmKey ?grp = remove_scan (ToString rmKey) (length ?grp) (length xs) ?grp (length ?grp)"
    unfolding remove_key_def using assms(1) by (intro remove_scan_until) (auto simp: nth_append)
  also have "\<dots> = remove_scan (ToString rmKey) (length ?grp) (Suc (length xs))
      ((xs @ ys) @ drop (length (xs @ ys)) ?grp) (length (xs @ ys))"
    using assms(2) by (subst remove_scan.simps) (simp add: Let_def)
  also have "drop (length (xs @ ys)) ?grp = [last (y # ys)]"
  proof -
    have "?grp = (xs @ butlast (y # ys)) @ [last (y # ys)]"
      by (simp only: append_assoc append_butlast_last_id [OF list.discI])
    moreover have "length (xs @ ys) = length (xs @ butlast (y # ys))" by simp
    ultimately show ?thesis by (metis append_eq_conv_conj)
  qed
  finally show ?thesis by simp
qed

lemma remove_key_distinct:
  assumes "distinct (map ToString grp)"
  shows "remove_key rmKey grp = Some (filter (\<lambda>k. ToString k \<noteq> ToString rmKey) grp)"
proof (cases "\<exists>k\<in>set grp. ToString k = ToString rmKey")
  case False
  then show ?thesis unfolding remove_key_def
    by (subst remove_scan_skip) (auto simp: filter_id_conv)
next
  case True
  then obtain xs y ys where grp: "grp = xs @ y # ys" "ToString y = ToString rmKey"
      "\<forall>k\<in>set xs. ToString k \<noteq> ToString rmKey"
    using split_list_first_prop [of grp "\<lambda>k. ToString k = ToString rmKey"] by metis
  then have ys: "\<forall>k\<in>set ys. ToString k \<noteq> ToString rmKey" using assms by (auto simp: image_iff)
  have "\<forall>i. Suc (length xs) \<le> i \<and> i < length grp \<longrightarrow> ToString ((xs @ ys @ [last (y # ys)]) ! i) \<noteq> ToString rmKey"
  proof (intro allI impI)
    fix i assume i: "Suc (length xs) \<le> i \<and> i < length grp"
    then have "ys \<noteq> []" using grp(1) by (cases ys) auto
    then have "(xs @ ys @ [last (y # ys)]) ! i \<in> set ys"
      using i grp(1) by (auto simp: nth_append less_Suc_eq)
    then show "ToString ((xs @ ys @ [last (y # ys)]) ! i) \<noteq> ToString rmKey" using ys by blast
  qed
  then show ?thesis
    using remove_scan_skip [of "Suc (length xs)" "length grp" "xs @ ys @ [last (y # ys)]" "ToString rmKey" "length (xs @ ys)"]
      remove_key_split [OF grp(3,2), of ys] grp ys by (simp add: filter_id_conv)
qed

text \<open>The last element stays in its place of the backing array; read again after a removal, it makes
  the slice go out of bounds.\<close>

lemma remove_scan_panics:
  "j < n \<Longrightarrow> length backing = n \<Longrightarrow> len < n \<Longrightarrow> ToString (backing ! (n - 1)) = rm \<Longrightarrow>
   remove_scan rm n j backing len = None"
proof (induction "n - j" arbitrary: j backing len)
  case (Suc d)
  show ?case
  proof (cases "ToString (backing ! j) = rm \<and> \<not> len < Suc j")
    case True
    let ?kept = "take j backing @ drop (Suc j) (take len backing)"
    have "remove_scan rm n j backing len =
        remove_scan rm n (Suc j) (?kept @ drop (length ?kept) backing) (length ?kept)"
      using True Suc.prems by (subst remove_scan.simps) (simp add: Let_def)
    also have "\<dots> = None"
    proof (rule Suc.hyps(1))
      show "Suc j < n" using True Suc.prems by simp
      show "length (?kept @ drop (length ?kept) backing) = n" "length ?kept < n"
        using True Suc.prems by auto
      have "length ?kept \<le> n - 1" using True Suc.prems by auto
      then show "ToString ((?kept @ drop (length ?kept) backing) ! (n - 1)) = rm"
        using Suc.prems by (subst nth_append) (auto simp del: length_append length_take length_drop)
    qed (use Suc in simp)
    finally show ?thesis .
  next
    case False
    show ?thesis
    proof (cases "Suc j < n")
      case True
      then show ?thesis using False Suc by (subst remove_scan.simps) auto
    next
      case last: False
      then have "j = n - 1" using Suc.prems(1) by simp
      then show ?thesis using Suc.prems by (subst remove_scan.simps) auto
    qed
  qed
qed simp

lemma map_some_eq: "map_some f xs = Some ys \<Longrightarrow> length ys = length xs \<and> (\<forall>i<length xs. f (xs ! i) = Some (ys ! i))"
proof (induction xs arbitrary: ys)
  case (Cons x xs)
  then show ?case by (auto split: option.splits simp: nth_Cons split: nat.splits)
qed simp

lemma map_some_map: "\<forall>x\<in>set xs. f x = Some (g x) \<Longrightarrow> map_some f xs = Some (map g xs)"
  by (induction xs) auto

lemma remove_keys_distinct:
  "\<forall>grp\<in>set groups. distinct (map ToString grp) \<Longrightarrow>
   remove_keys rmKeys groups = Some (map (filter (\<lambda>k. ToString k \<notin> ToString ` set rmKeys)) groups)"
proof (induction rmKeys arbitrary: groups)
  case (Cons rmKey rmKeys)
  have "map_some (remove_key rmKey) groups = Some (map (filter (\<lambda>k. ToString k \<noteq> ToString rmKey)) groups)"
    using Cons.prems by (intro map_some_map) (simp add: remove_key_distinct)
  moreover have "\<forall>grp\<in>set (map (filter (\<lambda>k. ToString k \<noteq> ToString rmKey)) groups). distinct (map ToString grp)"
    using Cons.prems by (auto simp: distinct_map_filter)
  ultimately show ?case using Cons.IH by (simp add: comp_def conj_commute)
qed (simp add: map_idI)

section \<open>What an update of the master keys keeps\<close>

text \<open>A key without the data key that it holds.\<close>

definition emptied :: "master_key \<Rightarrow> master_key" where
  "emptied k = SetEncryptedDataKey [] k"

lemma emptied_Set [simp]: "emptied (SetEncryptedDataKey enc k) = emptied k"
  by (cases k) (simp_all add: emptied_def)

lemma ToString_emptied [simp]: "ToString (emptied k) = ToString k"
  by (simp add: emptied_def)

lemma update_keys_emptied: "map emptied (fst (update_keys ctxErr svcs part ks errs w)) = map emptied ks"
  by (induction ctxErr svcs part ks errs w rule: update_keys.induct) (auto split: prod.splits sum.splits)

lemma update_groups_emptied:
  "map (map emptied) (fst (update_groups ctxErr svcs gs errs w)) = map (map emptied \<circ> fst) gs"
proof (induction ctxErr svcs gs errs w rule: update_groups.induct)
  case (2 ctxErr svcs grp part gs errs w)
  have "map emptied (fst (update_keys ctxErr svcs part grp errs w)) = map emptied grp"
    by (rule update_keys_emptied)
  with 2 show ?case by (auto split: prod.splits)
qed simp

text \<open>An update changes nothing of a key but the data key that it holds.\<close>

lemma UpdateMasterKeys_emptied:
  assumes "UpdateMasterKeys ctxErr svcs dataKey m rnd w = (errs, m', rnd', w')"
  shows "map (map emptied) (KeyGroups m') = map (map emptied) (KeyGroups m)"
proof -
  have groups: "KeyGroups (default_threshold m) = KeyGroups m" by (simp add: default_threshold_def)
  have len: "length parts = length (KeyGroups m)" if "split_data_key (default_threshold m) dataKey rnd = Inr (parts, rnd')" for parts rnd'
    using that groups by (auto simp: split_data_key_def split: if_splits sum.splits)
  have names: "map (map emptied) groups' = map (map emptied) (KeyGroups m)"
    if "length parts = length (KeyGroups m)"
      "update_groups ctxErr svcs (zip (KeyGroups m) parts) [] w0 = (groups', errs', stop, w1)"
    for parts w0 groups' errs' stop w1
    using update_groups_emptied [of ctxErr svcs "zip (KeyGroups m) parts" "[]" w0] that
      map_fst_zip [of "KeyGroups m" parts] by (metis fst_conv map_map)
  show ?thesis
  proof (cases "split_data_key (default_threshold m) dataKey rnd")
    case (Inr r)
    obtain parts rnd'' where r: "r = (parts, rnd'')" by (cases r)
    with assms groups names [OF len [OF Inr [unfolded r]]] Inr show ?thesis
      by (auto simp: UpdateMasterKeys_def Let_def split: prod.splits if_splits)
  qed (use assms groups in \<open>auto simp: UpdateMasterKeys_def Let_def split: prod.splits if_splits\<close>)
qed

lemma update_keys_stop: "update_keys ctxErr svcs part ks errs w = (ks', errs', True, w') \<Longrightarrow> errs' \<noteq> []"
  by (induction ctxErr svcs part ks errs w arbitrary: ks' errs' w' rule: update_keys.induct)
    (auto split: prod.splits sum.splits if_splits)

lemma update_groups_stop: "update_groups ctxErr svcs gs errs w = (gs', errs', True, w') \<Longrightarrow> errs' \<noteq> []"
  by (induction ctxErr svcs gs errs w arbitrary: gs' errs' w' rule: update_groups.induct)
    (auto split: prod.splits if_splits dest: update_keys_stop)

text \<open>An update without errors sets the key groups, the data key and a missing threshold, and nothing else.\<close>

lemma UpdateMasterKeys_rest:
  assumes "UpdateMasterKeys ctxErr svcs dataKey m rnd w = ([], m', rnd', w')"
  shows "m' = (default_threshold m)\<lparr>KeyGroups := KeyGroups m', DataKey := Some dataKey\<rparr>"
  using assms
  by (auto simp: UpdateMasterKeys_def Let_def split: prod.splits if_splits sum.splits dest: update_groups_stop)

lemma EncryptTree_keeps:
  assumes "EncryptTree S key tree st = Inr (tree', st')"
  shows "KeyGroups (TreeMetadata tree') = KeyGroups (TreeMetadata tree)
    \<and> DataKey (TreeMetadata tree') = DataKey (TreeMetadata tree)
    \<and> ShamirThreshold (TreeMetadata tree') = ShamirThreshold (TreeMetadata tree)"
  using assms by (auto simp: EncryptTree_def Tree_Encrypt_def Let_def split: sum.splits prod.splits)

lemma update_keys_of_update:
  "update_keys_of S key m st = (errs, m', st') \<Longrightarrow>
   \<exists>rnd w. UpdateMasterKeys background (KeyServices S) key m (entropy st) (world st) = (errs, m', rnd, w)"
  by (auto simp: update_keys_of_def split: prod.splits)

lemma get_data_key_metadata:
  assumes "get_data_key S m st = Inr (key, m', st')"
  shows "m' = m\<lparr>DataKey := Some key\<rparr>"
proof -
  obtain w where "GetDataKey background (KeyServices S) (DecryptionOrder S) m (world st) = (Inr key, m', w)"
    using assms by (auto simp: get_data_key_def split: prod.splits sum.splits)
  then show ?thesis by (rule GetDataKey_metadata)
qed

lemma GenerateTreeKey_parts:
  assumes "GenerateTreeKey S tree st = Inr (dataKey, tree', st')"
  shows "\<exists>m rnd w. UpdateMasterKeys background (KeyServices S) (bytes_string (take 32 (entropy st))) (TreeMetadata tree)
        (drop 32 (entropy st)) (world st) = ([], m, rnd, w)
    \<and> dataKey = bytes_string (take 32 (entropy st)) \<and> tree' = tree\<lparr>TreeMetadata := m\<rparr>
    \<and> st' = st\<lparr>world := w, entropy := rnd\<rparr>"
  using assms
  by (auto simp: GenerateTreeKey_def GenerateTreeKeyCtx_def GenerateDataKey_def Let_def
      split: option.splits prod.splits if_splits)

section \<open>Properties\<close>

text \<open>C7. No unauthenticated document: unless \<open>--ignore-mac\<close> is given, decryption only returns a tree
  for which the MAC of the file decrypts, with the date of the file as additional data, to the hash of
  the bytes that \<open>document_covers\<close> gives. These are the bytes of all leaves of the returned tree, in
  document order; with \<open>mac_only_encrypted\<close> only those of the leaves that the rules select, after the
  constant that starts the hash. Only where comments are encrypted can the text of a comment be among
  them; for a document without encrypted comments and without \<open>mac_only_encrypted\<close> they are a function of
  the returned tree alone.\<close>

theorem decrypt_checks_mac:
  fixes S :: "('w, 'c, 's) cmd_env"
  assumes "DecryptTree S False tree st = (Inr (dataKey, tree', st') :: ('e, 'c) failure + _)"
  shows "\<exists>bytes s. document_covers (lib S) (TreeMetadata tree) (Branches tree) (Branches tree') bytes
    \<and> fst (cipher_Decrypt (Cipher S) (MessageAuthenticationCode (TreeMetadata tree)) dataKey
        (FormatRFC3339 (lib S) (LastModified (TreeMetadata tree))) s)
      = Inr (GStr (hex_upper (SHA512 (lib S) (initial_hash (TreeMetadata tree) @ bytes))))
    \<and> (\<not> MACOnlyEncrypted (TreeMetadata tree) \<and> EncryptedCommentRegex (TreeMetadata tree) = '''' \<longrightarrow>
        initial_hash (TreeMetadata tree) @ bytes = concat (map (item_bytes (lib S)) (concat (Branches tree'))))"
proof -
  obtain m w mac s s' where
      key: "GetDataKey background (KeyServices S) (DecryptionOrder S) (TreeMetadata tree) (world st) = (Inr dataKey, m, w)"
    and dec: "Tree_Decrypt (lib S) (Cipher S) dataKey (tree\<lparr>TreeMetadata := m\<rparr>) (cipher_of st) = Inr (tree', mac, s)"
    and check: "cipher_Decrypt (Cipher S) (MessageAuthenticationCode m) dataKey (FormatRFC3339 (lib S) (LastModified m)) s
      = (Inr (GStr mac), s')"
    using assms by (auto simp: DecryptTree_def Let_def split: prod.splits sum.splits if_splits)
  have m: "m = (TreeMetadata tree)\<lparr>DataKey := Some dataKey\<rparr>" by (rule GetDataKey_metadata [OF key])
  then have "TreeMetadata (tree\<lparr>TreeMetadata := m\<rparr>) = (TreeMetadata tree)\<lparr>DataKey := Some dataKey\<rparr>" by simp
  from Tree_Decrypt_covers [OF dec this] obtain bytes where
      "document_covers (lib S) (TreeMetadata tree) (Branches tree) (Branches tree') bytes"
      "mac = hex_upper (SHA512 (lib S) (initial_hash (TreeMetadata tree) @ bytes))"
      "\<not> MACOnlyEncrypted (TreeMetadata tree) \<and> EncryptedCommentRegex (TreeMetadata tree) = '''' \<longrightarrow>
        bytes = concat (map (item_bytes (lib S)) (concat (Branches tree')))"
    by auto
  with check m show ?thesis by (intro exI [of _ bytes] exI [of _ s]) (simp add: initial_hash_def)
qed

text \<open>C8. What \<open>rotate\<close> writes, when no group lists a key twice. Its key groups are those of the file with
  the new keys at the end of the first one and without the removed keys. The next 32 random bytes are the
  new data key: all groups get it, without an error, and the decrypted document is encrypted under it and
  not under the old one.\<close>

theorem rotate_writes:
  assumes "decryptTree S InputStore ignore bytes path st = (Inr (oldKey, tree, st1) :: ('e, 'c) failure + _)"
    and "KeyGroups (TreeMetadata tree) = grp # gs" "\<forall>g\<in>set ((grp @ new) # gs). distinct (map ToString g)"
    and "rotate_file S InputStore OutputStore ignore new old bytes path st = (Inr (out, st') :: ('e, 'c) failure + _)"
  shows "\<exists>groups newKey m rnd w written.
      groups = map (filter (\<lambda>k. ToString k \<notin> ToString ` set old)) ((grp @ new) # gs)
    \<and> newKey = bytes_string (take 32 (entropy st1))
    \<and> UpdateMasterKeys background (KeyServices S) newKey ((TreeMetadata tree)\<lparr>KeyGroups := groups\<rparr>)
        (drop 32 (entropy st1)) (world st1) = ([], m, rnd, w)
    \<and> EncryptTree S newKey (tree\<lparr>TreeMetadata := m\<rparr>) (st1\<lparr>world := w, entropy := rnd\<rparr>)
        = (Inr (written, st') :: ('e, 'c) failure + _)
    \<and> store_EmitEncryptedFile OutputStore written = Inr out
    \<and> map (map emptied) (KeyGroups (TreeMetadata written)) = map (map emptied) groups
    \<and> DataKey (TreeMetadata written) = Some newKey"
proof -
  let ?groups = "map (filter (\<lambda>k. ToString k \<notin> ToString ` set old)) ((grp @ new) # gs)"
  have "add_keys new (grp # gs) = Some ((grp @ new) # gs)" by (simp add: add_keys_def)
  with assms(2) remove_keys_distinct [OF assms(3), of old]
  have change: "change_keys new old tree = Some (tree\<lparr>TreeMetadata := (TreeMetadata tree)\<lparr>KeyGroups := ?groups\<rparr>\<rparr>)"
    by (simp add: change_keys_def)
  obtain dataKey tree2 st2 tree3 where
      gen: "(GenerateTreeKey S (tree\<lparr>TreeMetadata := (TreeMetadata tree)\<lparr>KeyGroups := ?groups\<rparr>\<rparr>) st1 :: ('e, 'c) failure + _)
        = Inr (dataKey, tree2, st2)"
    and enc: "EncryptTree S dataKey tree2 st2 = (Inr (tree3, st') :: ('e, 'c) failure + _)"
    and out: "store_EmitEncryptedFile OutputStore tree3 = Inr out"
    using assms(1,4) change by (auto simp: rotate_file_def marshal_def split: sum.splits)
  obtain m rnd w where upd: "UpdateMasterKeys background (KeyServices S) (bytes_string (take 32 (entropy st1)))
        ((TreeMetadata tree)\<lparr>KeyGroups := ?groups\<rparr>) (drop 32 (entropy st1)) (world st1) = ([], m, rnd, w)"
      "dataKey = bytes_string (take 32 (entropy st1))" "tree2 = tree\<lparr>TreeMetadata := m\<rparr>"
      "st2 = st1\<lparr>world := w, entropy := rnd\<rparr>"
    using GenerateTreeKey_parts [OF gen] by auto
  have "map (map emptied) (KeyGroups m) = map (map emptied) ?groups"
    using UpdateMasterKeys_emptied [OF upd(1)] by simp
  moreover have "DataKey m = Some dataKey" using UpdateMasterKeys_rest [OF upd(1)] upd(2) by (metis Metadata.ext_inject Metadata.surjective Metadata.update_convs(13))
  ultimately show ?thesis
    using out EncryptTree_keeps [OF enc] upd enc
    by (intro exI [of _ ?groups] exI [of _ dataKey] exI [of _ m] exI [of _ rnd] exI [of _ w] exI [of _ tree3]) simp
qed

text \<open>C34. A group that lists the key to be removed twice, the second time at its end, makes \<open>rotate\<close>
  panic: the loop reads the last element again after the group has shrunk, and slices past its end.\<close>

theorem remove_key_panics:
  assumes "key \<in> set grp" "ToString key = ToString rmKey" "ToString key' = ToString rmKey"
  shows "remove_key rmKey (grp @ [key']) = None"
proof -
  obtain xs y ys where grp: "grp = xs @ y # ys" "ToString y = ToString rmKey"
      "\<forall>k\<in>set xs. ToString k \<noteq> ToString rmKey"
    using split_list_first_prop [of grp "\<lambda>k. ToString k = ToString rmKey"] assms(1,2) by metis
  have "remove_key rmKey (xs @ y # (ys @ [key'])) = None"
    unfolding remove_key_split [OF grp(3,2)]
    by (rule remove_scan_panics) (use assms(3) in \<open>auto simp: nth_append\<close>)
  then show ?thesis using grp(1) by simp
qed

text \<open>C9. \<open>updatekeys\<close> changes the key groups, the threshold and the copies of the data key, and nothing
  else: the tree that it writes is the tree of the file it read, branches, MAC, date, rules and version
  included, but for these three fields. The data key is the one that the file had; the key groups are
  those of the creation rule, each key with the data key or its part in it; the threshold is the one
  given, or the one of the file, cut to the number of groups, and set to that number where it is missing
  and there is not just one group.\<close>

theorem updatekeys_keeps_document:
  assumes "updateFile S store (Some groups) opt ask bytes path st = (Inr (Some out, st') :: ('e, 'c) failure + _)"
  shows "\<exists>tree st1 st0 key old st2 m threshold.
      LoadEncryptedFile S store bytes path st = (Inr (tree, st1) :: ('e, 'c) failure + _)
    \<and> get_data_key S (TreeMetadata tree) st0 = Inr (key, old, st2)
    \<and> update_keys_of S key (old\<lparr>KeyGroups := groups, ShamirThreshold := threshold\<rparr>) st2 = ([], m, st')
    \<and> threshold = min (if opt \<noteq> 0 then opt else ShamirThreshold (TreeMetadata tree)) (int (length groups))
    \<and> m = (TreeMetadata tree)\<lparr>KeyGroups := KeyGroups m, DataKey := Some key,
        ShamirThreshold := (if threshold = 0 \<and> length groups \<noteq> 1 then int (length groups) else threshold)\<rparr>
    \<and> map (map emptied) (KeyGroups m) = map (map emptied) groups
    \<and> store_EmitEncryptedFile store (tree\<lparr>TreeMetadata := m\<rparr>) = Inr out"
proof -
  obtain tree st1 key m1 st2 m2 where
      load: "LoadEncryptedFile S store bytes path st = (Inr (tree, st1) :: ('e, 'c) failure + _)"
    and get: "\<exists>st0. get_data_key S (TreeMetadata tree) st0 = Inr (key, m1, st2)"
    and upd: "update_keys_of S key (m1\<lparr>KeyGroups := groups,
        ShamirThreshold := new_threshold opt (TreeMetadata tree) groups\<rparr>) st2 = ([], m2, st')"
    and out: "store_EmitEncryptedFile store (tree\<lparr>TreeMetadata := m2\<rparr>) = Inr out"
    using assms
    by ((auto simp: updateFile_def Let_def marshal_def split: if_splits prod.splits option.splits bool.splits sum.splits); blast)
  obtain st0 where st0: "get_data_key S (TreeMetadata tree) st0 = Inr (key, m1, st2)" using get by blast
  have m1: "m1 = (TreeMetadata tree)\<lparr>DataKey := Some key\<rparr>" by (rule get_data_key_metadata [OF st0])
  obtain rnd w where u: "UpdateMasterKeys background (KeyServices S) key
      (m1\<lparr>KeyGroups := groups, ShamirThreshold := new_threshold opt (TreeMetadata tree) groups\<rparr>) (entropy st2) (world st2)
      = ([], m2, rnd, w)"
    using update_keys_of_update [OF upd] by blast
  have "m2 = (TreeMetadata tree)\<lparr>KeyGroups := KeyGroups m2, DataKey := Some key,
      ShamirThreshold := (if new_threshold opt (TreeMetadata tree) groups = 0 \<and> length groups \<noteq> 1 then int (length groups)
        else new_threshold opt (TreeMetadata tree) groups)\<rparr>"
    by (subst UpdateMasterKeys_rest [OF u], rule Metadata.equality) (simp_all add: m1 default_threshold_def)
  moreover have "map (map emptied) (KeyGroups m2) = map (map emptied) groups"
    using UpdateMasterKeys_emptied [OF u] by simp
  ultimately show ?thesis
    using load st0 upd out
    by (intro exI [of _ tree] exI [of _ st1] exI [of _ st0] exI [of _ key] exI [of _ m1] exI [of _ st2] exI [of _ m2]
        exI [of _ "new_threshold opt (TreeMetadata tree) groups"]) (simp add: new_threshold_def)
qed

lemma keys_equal_names:
  "(\<forall>k\<in>set xs. ToString k \<in> ToString ` set ys) \<and> (\<forall>k\<in>set ys. ToString k \<in> ToString ` set xs)
    \<longleftrightarrow> ToString ` set xs = ToString ` set ys"
  by auto

text \<open>The comparison of key groups: it reports no change exactly when the groups at every position have
  the same keys, by their names; otherwise every key is common, added or removed.\<close>

lemma DiffKeyGroups_exact:
  "\<not> keys_will_change (DiffKeyGroups ours theirs) \<longleftrightarrow>
    (\<forall>i. ToString ` set (group_at ours i) = ToString ` set (group_at theirs i))"
proof -
  have "ToString ` set (group_at ours i) = ToString ` set (group_at theirs i)" if "max (length ours) (length theirs) \<le> i" for i
    using that by (simp add: group_at_def)
  moreover have same: "Added (diff_group xs ys) = [] \<and> Removed (diff_group xs ys) = [] \<longleftrightarrow> ToString ` set xs = ToString ` set ys" for xs ys
    unfolding keys_equal_names [symmetric] by (auto simp: diff_group_def Let_def filter_empty_conv)
  moreover from same have "\<not> keys_will_change (DiffKeyGroups ours theirs) \<longleftrightarrow>
      (\<forall>i<max (length ours) (length theirs). ToString ` set (group_at ours i) = ToString ` set (group_at theirs i))"
    by (simp add: keys_will_change_def DiffKeyGroups_def list_ex_iff Ball_def)
  ultimately show ?thesis by (meson not_le)
qed

text \<open>C35. \<open>groups delete\<close> of the only key group, with a threshold of zero as files with one group have,
  succeeds and writes a file without any key: its data key can never be recovered again.\<close>

theorem groups_delete_last:
  assumes "LoadEncryptedFile S InputStore bytes path st = (Inr (tree, st1) :: ('e, 'c) failure + _)"
    and "KeyGroups (TreeMetadata tree) = [grp]" "ShamirThreshold (TreeMetadata tree) = 0"
    and "get_data_key S (TreeMetadata tree) st1 = Inr (dataKey, m, st2)"
  shows "\<exists>written st3. groups_Delete S InputStore OutputStore 0 0 bytes path st
      = bindE (marshal OutputStore (tree\<lparr>TreeMetadata := written\<rparr>)) (\<lambda>out. Inr (out, st3))
    \<and> KeyGroups written = []
    \<and> fst (GetDataKey background svcs order (written\<lparr>DataKey := None\<rparr>) w) = Inl (GetDataKeyError 0 [])"
proof -
  have m: "m = (TreeMetadata tree)\<lparr>DataKey := Some dataKey\<rparr>"
    by (rule get_data_key_metadata [OF assms(4)])
  let ?m = "m\<lparr>KeyGroups := []\<rparr>"
  obtain errs st3 where upd: "update_keys_of S dataKey ?m st2 = (errs, ?m, st3)"
    by (cases "KeyServices S = []") (simp_all add: update_keys_of_def UpdateMasterKeys_def background_def)
  have "groups_Delete S InputStore OutputStore 0 0 bytes path st
      = bindE (marshal OutputStore (tree\<lparr>TreeMetadata := ?m\<rparr>)) (\<lambda>out. Inr (out, st3))"
    using assms upd by (simp add: groups_Delete_def m Let_def remove_nth_def)
  moreover have "fst (GetDataKey background svcs order (?m\<lparr>DataKey := None\<rparr>) w) = Inl (GetDataKeyError 0 [])"
    using assms(3) by (simp add: GetDataKey_def background_def combine_parts_def m)
  ultimately show ?thesis by (intro exI [of _ ?m] exI [of _ st3]) simp
qed

section \<open>edit\<close>

lemma editor_round_show:
  "editor_round S E InputStore OutputStore True h tree w = Inl (Inr (tree', w')) \<Longrightarrow> tree' = tree"
  "editor_round S E InputStore OutputStore True h tree w = Inr (tree', w') \<Longrightarrow> tree' = tree"
  by (auto simp: editor_round_def Let_def split: option.splits prod.splits sum.splits if_splits)

lemma runEditorUntilOk_show:
  "runEditorUntilOk n S E InputStore OutputStore True h tree w = Some (Inr (tree', w')) \<Longrightarrow> tree' = tree"
  by (induction n arbitrary: w) (auto split: sum.splits dest: editor_round_show)

lemma runEditorUntilOk_more:
  "runEditorUntilOk n S E InputStore OutputStore show_keys h tree w = Some r \<Longrightarrow> n \<le> m \<Longrightarrow>
   runEditorUntilOk m S E InputStore OutputStore show_keys h tree w = Some r"
proof (induction n arbitrary: m tree w)
  case (Suc n)
  then obtain k where "m = Suc k" "n \<le> k" by (cases m) auto
  with Suc show ?case by (auto split: sum.splits)
qed simp

lemma editor_round_world:
  "editor_round S E InputStore OutputStore show_keys h tree w = Inr (tree', w') \<Longrightarrow>
   w' = snd (run_editor E w) \<or> w' = snd (Now S (snd (run_editor E w)))"
  by (auto simp: editor_round_def Let_def split: option.splits prod.splits sum.splits if_splits)

lemma editor_round_gives_up:
  assumes "case fst (run_editor E w) of None \<Rightarrow> True | Some edited \<Rightarrow> SHA256 E edited = h"
  shows "\<exists>r. editor_round S E InputStore OutputStore show_keys h tree w = Inl r"
  using assms by (auto simp: editor_round_def split: option.splits prod.splits)

text \<open>C23. The editing loop ends whenever the user gives up after finitely many sessions: if some measure
  of the world decreases with every session, and a session in a world of measure zero fails or leaves
  the file as it was, then the loop is done within that many rounds and one; and it gives the same
  result however many more rounds it may take.\<close>

theorem edit_loop_ends:
  assumes "\<And>w. patience (snd (Now S w)) \<le> (patience w :: nat)"
    and "\<And>w. patience w > 0 \<Longrightarrow> patience (snd (run_editor E w)) < patience w"
    and "\<And>w. patience w = 0 \<Longrightarrow> case fst (run_editor E w) of None \<Rightarrow> True | Some edited \<Rightarrow> SHA256 E edited = h"
  shows "\<exists>r. \<forall>n > patience w. runEditorUntilOk n S E InputStore OutputStore show_keys h tree w = Some r"
proof -
  have "\<exists>r. runEditorUntilOk (Suc (patience w)) S E InputStore OutputStore show_keys h tree w = Some r"
  proof (induction "patience w" arbitrary: w tree rule: less_induct)
    case less
    show ?case
    proof (cases "editor_round S E InputStore OutputStore show_keys h tree w")
      case (Inr next_round)
      obtain tree' w' where n: "next_round = (tree', w')" by (cases next_round)
      have "patience w > 0"
        using editor_round_gives_up [OF assms(3), of w S InputStore OutputStore show_keys tree] Inr by fastforce
      then have "patience w' < patience w"
        using editor_round_world [OF Inr [unfolded n]] assms(1,2) by (metis le_less_trans)
      then obtain r where "runEditorUntilOk (Suc (patience w')) S E InputStore OutputStore show_keys h tree' w' = Some r"
        using less by blast
      then have "runEditorUntilOk (patience w) S E InputStore OutputStore show_keys h tree' w' = Some r"
        using \<open>patience w' < patience w\<close> by (auto intro: runEditorUntilOk_more simp del: runEditorUntilOk.simps)
      then show ?thesis using Inr n by simp
    qed simp
  qed
  then show ?thesis by (meson Suc_leI runEditorUntilOk_more)
qed

text \<open>C30. With \<open>--show-master-keys\<close>, whatever the user does in the editor is lost: \<open>edit\<close> encrypts the
  tree it read, since the loop puts the edited tree into a copy of the options.\<close>

theorem edit_show_keys_discards:
  fixes OutputStore :: "'e store" and S :: "('w, 'c, 's) cmd_env"
  assumes "edit_file fuel S E InputStore OutputStore True ignore bytes path st = Some (Inr (out, st'))"
  shows "\<exists>dataKey tree st1 w tree'. decryptTree S InputStore ignore bytes path st = Inr (dataKey, tree, st1)
    \<and> EncryptTree S dataKey tree (st1\<lparr>world := w\<rparr>) = (Inr (tree', st') :: ('e, 'c) failure + _)
    \<and> store_EmitEncryptedFile OutputStore tree' = Inr out"
proof -
  obtain dataKey tree st1 where dec: "decryptTree S InputStore ignore bytes path st = Inr (dataKey, tree, st1)"
      "editTree fuel S E InputStore OutputStore True tree dataKey st1 = Some (Inr (out, st'))"
    using assms by (auto simp: edit_file_def split: sum.splits)
  obtain shown and r :: "('e, 'c) failure + Tree \<times> 'w" where run: "runEditorUntilOk fuel S E InputStore OutputStore True (SHA256 E shown) tree (world st1) = Some r"
      "bindE r (\<lambda>(tree', w). bindE (EncryptTree S dataKey tree' (st1\<lparr>world := w\<rparr>)) (\<lambda>(tree'', st').
        bindE (marshal OutputStore tree'') (\<lambda>encryptedFile. Inr (encryptedFile, st')))) = Inr (out, st')"
    using dec(2) by (auto simp: editTree_def simp del: bindE_eq_Inr split: sum.splits)
  obtain tree1 w where r: "r = Inr (tree1, w)" using run(2) by (cases r) auto
  have tree1: "tree1 = tree" by (rule runEditorUntilOk_show [OF run(1) [unfolded r]])
  obtain tree' where enc: "EncryptTree S dataKey tree (st1\<lparr>world := w\<rparr>) = (Inr (tree', st') :: ('e, 'c) failure + _)"
      "marshal OutputStore tree' = (Inr out :: ('e, 'c) failure + _)"
    using run(2) unfolding r tree1 by auto
  from enc(2) have "store_EmitEncryptedFile OutputStore tree' = Inr out"
    by (simp add: marshal_def split: sum.splits)
  with enc(1) dec(1) show ?thesis by blast
qed

section \<open>The packages\<close>

text \<open>C36. A file that the package \<open>encrypt\<close> writes without any rule is read back with the rule that
  \<open>_unencrypted\<close> marks what is in clear: a value under such a key has been encrypted, but is not
  decrypted. The command line never gets there, since it puts the default rule in before encrypting.\<close>

theorem no_rule_not_kept:
  fixes m :: Metadata
  assumes "storable L m" "crypt_rules m = []"
    and "key \<in> set path" "has_suffix key DefaultUnencryptedSuffix"
    and "stack \<noteq> []" "\<forall>c\<in>set (concat stack). ParseDirective c = DirectiveNone"
  shows "\<exists>m'. ToInternal L now (metadataFromInternal L m) = Inr m'
    \<and> shouldBeEncrypted L m path stack False = Inr True \<and> shouldBeEncrypted L m' path stack False = Inr False"
proof -
  have rules: "UnencryptedSuffix m = ''''" "EncryptedSuffix m = ''''" "UnencryptedRegex m = ''''"
      "EncryptedRegex m = ''''" "UnencryptedCommentRegex m = ''''" "EncryptedCommentRegex m = ''''"
    using assms(2) by (auto simp: crypt_rules_def split: if_splits)
  have "last_directive (concat stack) = DirectiveNone" using assms(6) by (simp only: last_directive_None)
  then have decide: "shouldBeEncrypted L n path stack False = Inr (comment_rule L n path (concat stack))" for n
    by (simp add: shouldBeEncrypted_leaf [OF assms(5)] leaf_rule_def foldl_apply_directive)
  have "comment_rule L m path (concat stack)" by (simp add: comment_rule_def path_rule_def rules)
  moreover have "\<not> comment_rule L (stored_form L m) path (concat stack)"
    using assms(3,4)
    by (auto simp: comment_rule_def path_rule_def stored_form_def rules crypt_rules_def list_ex_iff DefaultUnencryptedSuffix_def)
  ultimately show ?thesis using ToInternal_from [OF assms(1), of now] by (simp add: decide)
qed

section \<open>Witnesses\<close>

text \<open>A cipher with two texts, a service that keeps data keys in clear, a store that always holds the
  same file, and a user who edits it.\<close>

definition table_cipher :: "(unit, unit) cipher" where
  "table_cipher = \<lparr>cipher_Encrypt = (\<lambda>v key ad s. Inr (if v = GStr ''62'' then ''M'' else ''E'', s)),
     cipher_Decrypt = (\<lambda>t key ad s. (Inr (GStr (if t = ''M'' then ''62'' else ''b'')), s))\<rparr>"

definition clear_service :: "unit keyservice" where
  "clear_service = \<lparr>svc_Encrypt = (\<lambda>k d w. (Inr d, w)), svc_Decrypt = (\<lambda>k d w. (Inr (Some d), w))\<rparr>"

definition table_env :: "(unit, unit, unit) cmd_env" where
  "table_env = \<lparr>lib = sample_lib, Cipher = table_cipher, KeyServices = [clear_service], DecryptionOrder = [],
     Now = (\<lambda>w. (zero_time, w)), semver_valid = (\<lambda>v. True), semver_Compare = (\<lambda>a b. -1)\<rparr>"

definition table_run :: "(unit, unit) run" where
  "table_run = \<lparr>world = (), cipher_of = (), entropy = replicate 32 110\<rparr>"

definition table_tree :: "string \<Rightarrow> Tree" where
  "table_tree s =
     \<lparr>TreeMetadata = (TreeMetadata sample_written)\<lparr>MessageAuthenticationCode := ''M'', DataKey := Some (replicate 32 CHR ''k'')\<rparr>,
      Branches = [[TreeItem (KStr ''A'') (GStr s)]], FilePath = ''f''\<rparr>"

definition table_disk :: "unit store" where
  "table_disk = \<lparr>store_LoadPlainFile = (\<lambda>s. Inr [[TreeItem (KStr ''A'') (GStr s)]]),
     store_LoadEncryptedFile = (\<lambda>now s. Inr (table_tree ''E'')), store_EmitPlainFile = (\<lambda>b. Inr ''plain''),
     store_EmitEncryptedFile = (\<lambda>t. Inr (MessageAuthenticationCode (TreeMetadata t))),
     store_EmitValue = (\<lambda>v. Inr ''v''), store_EmitExample = Inr ''A=b'', store_HasSopsTopLevelKey = (\<lambda>b. False)\<rparr>"

definition table_editor :: "unit editor" where
  "table_editor = \<lparr>run_editor = (\<lambda>w. (Some ''edited'', w)), SHA256 = id\<rparr>"

definition age_key :: "string \<Rightarrow> master_key" where
  "age_key r = AGE \<lparr>Recipient = r, age_enc = ''''\<rparr>"

lemma table_decrypts:
  "decryptTree table_env table_disk False (Some ''x'') (Some ''f'') table_run
    = (Inr (replicate 32 CHR ''k'', table_tree ''b'', table_run) :: (unit, unit) failure + _)"
  "DecryptTree table_env False (table_tree ''E'') table_run
    = (Inr (replicate 32 CHR ''k'', table_tree ''b'', table_run) :: (unit, unit) failure + _)"
  by code_simp+

lemma table_key:
  "get_data_key table_env (TreeMetadata (table_tree ''E'')) table_run
    = Inr (replicate 32 CHR ''k'', TreeMetadata (table_tree ''E''), table_run)"
  by code_simp

lemma table_data_key:
  "GetDataKey background (KeyServices table_env) (DecryptionOrder table_env) (TreeMetadata (table_tree s)) w
    = (Inr (replicate 32 CHR ''k''), TreeMetadata (table_tree s), w)"
  by (simp add: GetDataKey_def background_def table_tree_def)

lemma table_group:
  "KeyGroups (TreeMetadata (table_tree s)) = [[AGE \<lparr>Recipient = ''age1a'', age_enc = replicate 32 CHR ''k''\<rparr>]]"
  "ShamirThreshold (TreeMetadata (table_tree s)) = 0"
  by (simp_all add: table_tree_def sample_written_def sample_config_def metadataFromEncryptionConfig_def)

lemma decrypt_checks_mac_witness:
  "\<exists>s. fst (cipher_Decrypt (Cipher table_env) (MessageAuthenticationCode (TreeMetadata (table_tree ''E'')))
      (replicate 32 CHR ''k'') (FormatRFC3339 (lib table_env) (LastModified (TreeMetadata (table_tree ''E'')))) s)
    = Inr (GStr (hex_upper (SHA512 (lib table_env)
        (concat (map (item_bytes (lib table_env)) (concat (Branches (table_tree ''b''))))))))"
proof -
  have "\<not> MACOnlyEncrypted (TreeMetadata (table_tree ''E''))" "EncryptedCommentRegex (TreeMetadata (table_tree ''E'')) = ''''"
    by code_simp+
  with decrypt_checks_mac [OF table_decrypts(2)] show ?thesis by auto
qed

lemma table_rotates:
  "\<not> isl (rotate_file table_env table_disk table_disk False [age_key ''age1b''] [age_key ''age1a'']
     (Some ''x'') (Some ''f'') table_run)"
  by code_simp

lemma rotate_writes_witness:
  "\<exists>written out m rnd w st'. rotate_file table_env table_disk table_disk False [age_key ''age1b''] [age_key ''age1a'']
      (Some ''x'') (Some ''f'') table_run = (Inr (out, st') :: (unit, unit) failure + _)
    \<and> UpdateMasterKeys background (KeyServices table_env) (replicate 32 CHR ''n'')
        ((TreeMetadata (table_tree ''b''))\<lparr>KeyGroups := [[age_key ''age1b'']]\<rparr>) [] () = ([], m, rnd, w)
    \<and> EncryptTree table_env (replicate 32 CHR ''n'') ((table_tree ''b'')\<lparr>TreeMetadata := m\<rparr>)
        (table_run\<lparr>world := w, entropy := rnd\<rparr>) = (Inr (written, st') :: (unit, unit) failure + _)
    \<and> store_EmitEncryptedFile table_disk written = Inr out
    \<and> map (map emptied) (KeyGroups (TreeMetadata written)) = [[age_key ''age1b'']]
    \<and> DataKey (TreeMetadata written) = Some (replicate 32 CHR ''n'')"
proof -
  obtain out st' where rot: "rotate_file table_env table_disk table_disk False [age_key ''age1b''] [age_key ''age1a'']
      (Some ''x'') (Some ''f'') table_run = (Inr (out, st') :: (unit, unit) failure + _)"
    using table_rotates by (auto simp: not_isl_iff)
  have random: "bytes_string (take 32 (entropy table_run)) = replicate 32 CHR ''n''" "drop 32 (entropy table_run) = []"
      "world table_run = ()"
    by code_simp+
  have distinct: "\<forall>g\<in>set (([AGE \<lparr>Recipient = ''age1a'', age_enc = replicate 32 CHR ''k''\<rparr>] @ [age_key ''age1b'']) # []).
      distinct (map ToString g)"
    by (simp add: age_key_def)
  have groups: "map (filter (\<lambda>k. ToString k \<notin> ToString ` set [age_key ''age1a'']))
      (([AGE \<lparr>Recipient = ''age1a'', age_enc = replicate 32 CHR ''k''\<rparr>] @ [age_key ''age1b'']) # []) = [[age_key ''age1b'']]"
    by (simp add: age_key_def)
  have "map (map emptied) [[age_key ''age1b'']] = [[age_key ''age1b'']]" by (simp add: age_key_def emptied_def)
  moreover obtain m rnd w written where
      "UpdateMasterKeys background (KeyServices table_env) (replicate 32 CHR ''n'')
        ((TreeMetadata (table_tree ''b''))\<lparr>KeyGroups := [[age_key ''age1b'']]\<rparr>) [] () = ([], m, rnd, w)"
      "EncryptTree table_env (replicate 32 CHR ''n'') ((table_tree ''b'')\<lparr>TreeMetadata := m\<rparr>)
        (table_run\<lparr>world := w, entropy := rnd\<rparr>) = (Inr (written, st') :: (unit, unit) failure + _)"
      "store_EmitEncryptedFile table_disk written = Inr out"
      "map (map emptied) (KeyGroups (TreeMetadata written)) = map (map emptied) [[age_key ''age1b'']]"
      "DataKey (TreeMetadata written) = Some (replicate 32 CHR ''n'')"
    using rotate_writes [OF table_decrypts(1) table_group(1) distinct rot, unfolded groups random] by auto
  ultimately show ?thesis
    using rot by (intro exI [of _ written] exI [of _ out] exI [of _ m] exI [of _ rnd] exI [of _ w] exI [of _ st'] conjI) simp_all
qed

lemma remove_key_panics_witness:
  "remove_key (age_key ''age1a'') [age_key ''age1b'', age_key ''age1a'', age_key ''age1c'', age_key ''age1a''] = None"
  using remove_key_panics [of "age_key ''age1a''" "[age_key ''age1b'', age_key ''age1a'', age_key ''age1c'']"
      "age_key ''age1a''" "age_key ''age1a''"] by simp

lemma table_updates:
  "case updateFile table_env table_disk (Some [[age_key ''age1a'', age_key ''age1b'']]) 0 None (Some ''x'') (Some ''f'') table_run of
     Inr (Some out, st) \<Rightarrow> True | _ \<Rightarrow> False"
  by code_simp

lemma updatekeys_keeps_document_witness:
  "\<exists>m out st. updateFile table_env table_disk (Some [[age_key ''age1a'', age_key ''age1b'']]) 0 None
      (Some ''x'') (Some ''f'') table_run = (Inr (Some out, st) :: (unit, unit) failure + _)
    \<and> m = (TreeMetadata (table_tree ''E''))\<lparr>KeyGroups := KeyGroups m, DataKey := Some (replicate 32 CHR ''k''), ShamirThreshold := 0\<rparr>
    \<and> map (map emptied) (KeyGroups m) = [[age_key ''age1a'', age_key ''age1b'']]
    \<and> store_EmitEncryptedFile table_disk ((table_tree ''E'')\<lparr>TreeMetadata := m\<rparr>) = Inr out"
proof -
  obtain out st where run: "updateFile table_env table_disk (Some [[age_key ''age1a'', age_key ''age1b'']]) 0 None
      (Some ''x'') (Some ''f'') table_run = (Inr (Some out, st) :: (unit, unit) failure + _)"
    using table_updates by (auto split: sum.splits option.splits)
  have load: "LoadEncryptedFile table_env table_disk (Some ''x'') (Some ''f'') table_run
      = (Inr (table_tree ''E'', table_run) :: (unit, unit) failure + _)"
    by code_simp
  have key: "key = replicate 32 CHR ''k''" if "get_data_key table_env (TreeMetadata (table_tree ''E'')) st0 = Inr (key, old, st2)" for key old st0 st2
    using that by (simp add: get_data_key_def table_data_key)
  from updatekeys_keeps_document [OF run] obtain tree st1 st0 key' old st2 m threshold where
      tree: "LoadEncryptedFile table_env table_disk (Some ''x'') (Some ''f'') table_run = (Inr (tree, st1) :: (unit, unit) failure + _)"
    and got: "get_data_key table_env (TreeMetadata tree) st0 = Inr (key', old, st2)"
    and threshold: "threshold = min (if (0 :: int) \<noteq> 0 then 0 else ShamirThreshold (TreeMetadata tree))
      (int (length [[age_key ''age1a'', age_key ''age1b'']]))"
    and m: "m = (TreeMetadata tree)\<lparr>KeyGroups := KeyGroups m, DataKey := Some key',
      ShamirThreshold := (if threshold = 0 \<and> length [[age_key ''age1a'', age_key ''age1b'']] \<noteq> 1
        then int (length [[age_key ''age1a'', age_key ''age1b'']]) else threshold)\<rparr>"
    and groups: "map (map emptied) (KeyGroups m) = map (map emptied) [[age_key ''age1a'', age_key ''age1b'']]"
    and out: "store_EmitEncryptedFile table_disk (tree\<lparr>TreeMetadata := m\<rparr>) = Inr out"
    by blast
  have t: "tree = table_tree ''E''" using tree load by simp
  have "key' = replicate 32 CHR ''k''" by (rule key [OF got [unfolded t]])
  moreover have "threshold = 0" by (simp add: threshold t table_group)
  ultimately have "m = (TreeMetadata (table_tree ''E''))\<lparr>KeyGroups := KeyGroups m, DataKey := Some (replicate 32 CHR ''k''),
      ShamirThreshold := 0\<rparr>"
    using m unfolding t by simp
  moreover have "map (map emptied) (KeyGroups m) = [[age_key ''age1a'', age_key ''age1b'']]"
    using groups by (simp add: age_key_def emptied_def)
  ultimately show ?thesis
    using run out [unfolded t] by (intro exI [of _ m] exI [of _ out] exI [of _ st] conjI)
qed

lemma groups_delete_last_witness:
  "\<exists>written st3. groups_Delete table_env table_disk table_disk 0 0 (Some ''x'') (Some ''f'') table_run
      = bindE (marshal table_disk (table_tree ''E''\<lparr>TreeMetadata := written\<rparr>)) (\<lambda>out. Inr (out, st3))
    \<and> KeyGroups written = []
    \<and> fst (GetDataKey background [clear_service] [] (written\<lparr>DataKey := None\<rparr>) ()) = Inl (GetDataKeyError 0 [])"
proof -
  have "LoadEncryptedFile table_env table_disk (Some ''x'') (Some ''f'') table_run
      = (Inr (table_tree ''E'', table_run) :: (unit, unit) failure + _)"
    by code_simp
  then show ?thesis using table_group table_key by (rule groups_delete_last)
qed

lemma table_edits:
  "case edit_file 1 table_env table_editor table_disk table_disk True False (Some ''x'') (Some ''f'') table_run of
     Some (Inr r) \<Rightarrow> True | _ \<Rightarrow> False"
  by code_simp

lemma edit_show_keys_discards_witness:
  "\<exists>out st' w tree'. edit_file 1 table_env table_editor table_disk table_disk True False (Some ''x'') (Some ''f'') table_run
      = Some (Inr (out, st'))
    \<and> EncryptTree table_env (replicate 32 CHR ''k'') (table_tree ''b'') (table_run\<lparr>world := w\<rparr>)
      = (Inr (tree', st') :: (unit, unit) failure + _)
    \<and> store_EmitEncryptedFile table_disk tree' = Inr out"
proof -
  obtain out st' where edit: "edit_file 1 table_env table_editor table_disk table_disk True False (Some ''x'') (Some ''f'') table_run
      = Some (Inr (out, st'))"
    using table_edits by (auto split: option.splits sum.splits)
  from edit_show_keys_discards [OF this] table_decrypts(1) edit show ?thesis by auto
qed

lemma no_rule_not_kept_witness:
  "\<exists>m'. ToInternal sample_lib zero_time (metadataFromInternal sample_lib (stored_sample\<lparr>UnencryptedSuffix := ''''\<rparr>)) = Inr m'
    \<and> shouldBeEncrypted sample_lib (stored_sample\<lparr>UnencryptedSuffix := ''''\<rparr>) [''a_unencrypted'', ''b''] [[''note'']] False = Inr True
    \<and> shouldBeEncrypted sample_lib m' [''a_unencrypted'', ''b''] [[''note'']] False = Inr False"
proof -
  have "storable sample_lib (stored_sample\<lparr>UnencryptedSuffix := ''''\<rparr>)"
    "crypt_rules (stored_sample\<lparr>UnencryptedSuffix := ''''\<rparr>) = []"
    "\<forall>c\<in>set (concat [[''note'']]). ParseDirective c = DirectiveNone"
    "has_suffix ''a_unencrypted'' DefaultUnencryptedSuffix"
    by code_simp+
  then show ?thesis by (intro no_rule_not_kept [of _ _ "''a_unencrypted''"]) simp_all
qed

text \<open>A user who makes some more attempts, all of them failing, and then gives up.\<close>

definition stubborn :: "nat editor" where
  "stubborn = \<lparr>run_editor = (\<lambda>n. (Some (if n = 0 then ''old'' else ''bad''), n - 1)), SHA256 = id\<rparr>"

definition counting_env :: "(nat, unit, unit) cmd_env" where
  "counting_env = \<lparr>lib = sample_lib, Cipher = table_cipher, KeyServices = [], DecryptionOrder = [],
     Now = (\<lambda>w. (zero_time, w)), semver_valid = (\<lambda>v. True), semver_Compare = (\<lambda>a b. -1)\<rparr>"

lemma edit_loop_ends_witness:
  "\<exists>r. \<forall>n > 5. runEditorUntilOk n counting_env stubborn table_disk table_disk False ''old'' (table_tree ''b'') 5 = Some r"
  by (rule edit_loop_ends [where patience = id and w = 5, unfolded id_def])
    (simp_all add: stubborn_def counting_env_def)


end
