(* ===== verification/Age_Keys.thy ===== *)
theory Age_Keys
  imports Key_Sources
begin

text \<open>
  The identities and recipients of age, \<open>src/age/keysource.go\<close>, \<open>src/age/ssh_parse.go\<close> and
  \<open>src/age/keypb\<close>: which sources are read, how their contents are told apart and parsed, and how a
  recipient is found by its name.

  The environment of the process and the libraries age, agessh, shlex and pxf are the record
  \<open>age_env\<close>. Go leaves the order in which maps are walked open; here a key file is the list of its
  entries in the order of the walk, and the readers are walked in the order in which they were put in.
\<close>

section \<open>Scanning\<close>

text \<open>
  \<open>bufio.Scanner\<close> with \<open>ScanLines\<close>: a line that does not fit into the buffer of 64 KiB ends the
  scan, with an error that the callers do not ask for.
\<close>

definition MaxScanTokenSize :: nat where "MaxScanTokenSize = 65536"

definition drop_cr :: "string \<Rightarrow> string" where
  "drop_cr l = (if l \<noteq> [] \<and> last l = CHR 0x0D then butlast l else l)"

definition raw_lines :: "string \<Rightarrow> string list" where
  "raw_lines data =
     (let ls = str_split CHR 0x0A data in if last ls = [] then butlast ls else ls)"

definition scan_lines :: "string \<Rightarrow> string list" where
  "scan_lines data = map drop_cr (takeWhile (\<lambda>l. length l < MaxScanTokenSize) (raw_lines data))"

text \<open>\<open>ScanWords\<close>: the parts between white space.\<close>

function split_white :: "string \<Rightarrow> string list" where
  "split_white s =
     (case s of
        [] \<Rightarrow> [[]]
      | x # xs \<Rightarrow>
          (case find (\<lambda>w. prefix w s) white_space of
             Some w \<Rightarrow> [] # split_white (drop (length w) s)
           | None \<Rightarrow> (case split_white xs of [] \<Rightarrow> [[x]] | w # ws \<Rightarrow> (x # w) # ws)))"
  by pat_completeness auto
termination
proof (relation "measure length")
  fix s x xs w
  assume s: "s = x # xs" and w: "find (\<lambda>w. prefix w s) white_space = Some w"
  then have "w \<in> set white_space" by (auto simp: find_Some_iff)
  then have "w \<noteq> []" by (auto simp: white_space_def)
  with s show "(drop (length w) s, s) \<in> measure length" by simp
qed auto

declare split_white.simps [simp del]

definition scan_words :: "string \<Rightarrow> string list" where
  "scan_words line = filter (\<lambda>w. w \<noteq> []) (split_white line)"

section \<open>PXF or lines\<close>

definition ident_start :: "char \<Rightarrow> bool" where
  "ident_start c = (c \<in> set ''_abcdefghijklmnopqrstuvwxyzABCDEFGHIJKLMNOPQRSTUVWXYZ'')"

definition ident_char :: "char \<Rightarrow> bool" where
  "ident_char c \<longleftrightarrow> ident_start c \<or> c \<in> set ''0123456789''"

definition blank_char :: "char \<Rightarrow> bool" where
  "blank_char c \<longleftrightarrow> c = CHR '' '' \<or> c = CHR 0x09"

fun looksLikePXFTopLevelEntry :: "string \<Rightarrow> bool" where
  "looksLikePXFTopLevelEntry [] = False"
| "looksLikePXFTopLevelEntry (c # line) =
     (ident_start c \<and>
      (case dropWhile blank_char (dropWhile ident_char line) of
         [] \<Rightarrow> False | d # _ \<Rightarrow> d = CHR ''='' \<or> d = CHR ''{''))"

definition isPXFContent :: "string \<Rightarrow> bool" where
  "isPXFContent data =
     (case find (\<lambda>line. line \<noteq> '''' \<and> \<not> has_prefix line ''#'') (map trim_space (scan_lines data)) of
        None \<Rightarrow> False | Some line \<Rightarrow> looksLikePXFTopLevelEntry line)"

section \<open>The environment\<close>

datatype 'i ssh_parsed = SSHIdentity 'i | PassphraseMissing "string option" | SSHMalformed

text \<open>
  A key file in the PXF format: its default entry and its keys.

  In the environment, \<open>read_file\<close> is \<open>os.ReadFile\<close>, and \<open>open_file\<close> is \<open>os.Open\<close> with what its reader
  then gives up to the end or to an error of reading: a directory can be opened and gives nothing. An
  error in the middle of an encrypted key file is not told from its end.
\<close>

record AgeKeyFile =
  Default :: string
  Keys :: "(string \<times> string) list"

record 'i age_env =
  lookup_env :: "string \<Rightarrow> string option"
  read_file :: "string \<Rightarrow> string option"
  open_file :: "string \<Rightarrow> string option"
  file_exists :: "string \<Rightarrow> bool"
  home_dir :: "string option"
  shlex :: "string \<Rightarrow> string list option"
  run_command :: "string list \<Rightarrow> string \<Rightarrow> string option"
  parse_plugin :: "string \<Rightarrow> 'i option"
  parse_hybrid :: "string \<Rightarrow> 'i option"
  parse_x25519 :: "string \<Rightarrow> 'i option"
  identity_recipient :: "'i \<Rightarrow> string"
  encrypted_identity :: "string \<Rightarrow> string \<Rightarrow> 'i"
  unarmor :: "string \<Rightarrow> string option"
  agessh_parse :: "string \<Rightarrow> 'i ssh_parsed"
  authorized_key :: "string \<Rightarrow> string option"
  encrypted_ssh :: "string \<Rightarrow> string \<Rightarrow> 'i option"
  pxf_unmarshal :: "string \<Rightarrow> AgeKeyFile option"
  parse_recipient :: "recipient_kind \<Rightarrow> string \<Rightarrow> bool"

datatype age_fault =
    CannotReadKeyFile | KeyFileTooLong | KeyFileParse | UnknownIdentityType | IdentityRejected
  | EmptyKeyCommand | KeyCommandFailed | SSHPassphraseUnsupported | SSHKeyUnusable
  | HomeUndeterminable | UnknownRecipient string | BadRecipient string
  | NoPXFSource | KeyNotInKeys string string | NotDerivable string string | SecretMalformed string string

text \<open>An error with the source it is from, \<open>KeySourceError\<close>; an error of the home directory has none.\<close>

datatype load_error = KeySourceError string age_fault | PlainError age_fault

section \<open>Recipients\<close>

definition parseRecipient :: "'i age_env \<Rightarrow> string \<Rightarrow> age_fault + unit" where
  "parseRecipient E recipient =
     (case recipient_kind recipient of
        None \<Rightarrow> Inl (UnknownRecipient recipient)
      | Some k \<Rightarrow> if parse_recipient E k recipient then Inr () else Inl (BadRecipient recipient))"

definition MasterKeyFromRecipient :: "'i age_env \<Rightarrow> string \<Rightarrow> age_fault + age_key" where
  "MasterKeyFromRecipient E recipient0 =
     (let recipient = trim_space recipient0
      in bindE (parseRecipient E recipient) (\<lambda>_. Inr \<lparr>Recipient = recipient, age_enc = ''''\<rparr>))"

definition MasterKeysFromRecipients :: "'i age_env \<Rightarrow> string \<Rightarrow> age_fault + age_key list" where
  "MasterKeysFromRecipients E commaSeparatedRecipients =
     (if commaSeparatedRecipients = '''' then Inr []
      else mapE (MasterKeyFromRecipient E) (str_split CHR '','' commaSeparatedRecipients))"

section \<open>Parsing identities\<close>

definition lib_result :: "'i option \<Rightarrow> age_fault + 'i" where
  "lib_result r = (case r of None \<Rightarrow> Inl IdentityRejected | Some i \<Rightarrow> Inr i)"

definition parseIdentity :: "'i age_env \<Rightarrow> string \<Rightarrow> age_fault + 'i" where
  "parseIdentity E s =
     (if has_prefix s ''AGE-PLUGIN-'' then lib_result (parse_plugin E s)
      else if has_prefix s ''AGE-SECRET-KEY-PQ-1'' then lib_result (parse_hybrid E s)
      else if has_prefix s ''AGE-SECRET-KEY-1'' then lib_result (parse_x25519 E s)
      else Inl UnknownIdentityType)"

definition identity_words :: "bool \<Rightarrow> string \<Rightarrow> string list" where
  "identity_words allowMultipleKeysPerLine data =
     concat (map (\<lambda>line. if allowMultipleKeysPerLine then scan_words line else [line])
       (filter (\<lambda>line. line \<noteq> '''' \<and> \<not> has_prefix line ''#'') (scan_lines data)))"

definition parseIdentities :: "'i age_env \<Rightarrow> bool \<Rightarrow> string \<Rightarrow> age_fault + 'i list" where
  "parseIdentities E allowMultipleKeysPerLine data =
     mapE (parseIdentity E) (identity_words allowMultipleKeysPerLine data)"

text \<open>\<open>ParsedIdentities.Import\<close>.\<close>

definition Import :: "'i age_env \<Rightarrow> string list \<Rightarrow> 'i list \<Rightarrow> age_fault + 'i list" where
  "Import E identity known =
     bindE (parseIdentities E False (str_join [CHR 0x0A] identity)) (\<lambda>new. Inr (known @ new))"

definition privateKeySizeLimit :: nat where "privateKeySizeLimit = 16777216"

definition unwrapIdentities :: "'i age_env \<Rightarrow> string \<Rightarrow> bool \<Rightarrow> string \<Rightarrow> age_fault + 'i list" where
  "unwrapIdentities E source allowMultipleKeysPerLine data =
     (let peeked = take 14 data
      in if peeked = ''age-encryption'' \<or> peeked = ''-----BEGIN AGE''
         then (case (if peeked = ''-----BEGIN AGE'' then unarmor E data else Some data) of
                 None \<Rightarrow> Inl CannotReadKeyFile
               | Some contents \<Rightarrow>
                   if privateKeySizeLimit \<le> length contents then Inl KeyFileTooLong
                   else Inr [encrypted_identity E source contents])
         else (case parseIdentities E allowMultipleKeysPerLine data of
                 Inl _ \<Rightarrow> Inl KeyFileParse | Inr ids \<Rightarrow> Inr ids))"

definition keypb_Parse :: "'i age_env \<Rightarrow> string \<Rightarrow> age_fault + AgeKeyFile" where
  "keypb_Parse E data =
     (case pxf_unmarshal E data of None \<Rightarrow> Inl KeyFileParse | Some f \<Rightarrow> Inr f)"

definition keypb_ReadFile :: "'i age_env \<Rightarrow> string \<Rightarrow> age_fault + AgeKeyFile" where
  "keypb_ReadFile E path =
     (case read_file E path of None \<Rightarrow> Inl CannotReadKeyFile | Some data \<Rightarrow> keypb_Parse E data)"

definition parsePXFIdentities :: "'i age_env \<Rightarrow> string \<Rightarrow> age_fault + 'i list" where
  "parsePXFIdentities E data =
     bindE (keypb_Parse E data) (\<lambda>f.
       case mapE (parseIdentity E) (map snd (Keys f)) of Inl _ \<Rightarrow> Inl KeyFileParse | Inr ids \<Rightarrow> Inr ids)"

definition loadPXFIdentities :: "'i age_env \<Rightarrow> string \<Rightarrow> age_fault + 'i list" where
  "loadPXFIdentities E path =
     (case read_file E path of None \<Rightarrow> Inl CannotReadKeyFile | Some data \<Rightarrow> parsePXFIdentities E data)"

text \<open>The command gets the recipient in an environment variable.\<close>

definition getOutputFromCmd :: "'i age_env \<Rightarrow> string \<Rightarrow> string \<Rightarrow> age_fault + string" where
  "getOutputFromCmd E cmdString recipient =
     (case shlex E cmdString of
        None \<Rightarrow> Inl KeyCommandFailed
      | Some [] \<Rightarrow> Inl EmptyKeyCommand
      | Some args \<Rightarrow> (case run_command E args recipient of None \<Rightarrow> Inl KeyCommandFailed | Some out \<Rightarrow> Inr out))"

section \<open>SSH identities\<close>

definition readPublicKeyFile :: "'i age_env \<Rightarrow> string \<Rightarrow> age_fault + string" where
  "readPublicKeyFile E privateKeyPath =
     (case read_file E (privateKeyPath @ ''.pub'') of
        None \<Rightarrow> Inl SSHKeyUnusable
      | Some contents \<Rightarrow> (case authorized_key E contents of None \<Rightarrow> Inl SSHKeyUnusable | Some k \<Rightarrow> Inr k))"

definition parseSSHIdentityFromPrivateKeyFile :: "'i age_env \<Rightarrow> string \<Rightarrow> age_fault + 'i" where
  "parseSSHIdentityFromPrivateKeyFile E keyPath =
     (case read_file E keyPath of
        None \<Rightarrow> Inl CannotReadKeyFile
      | Some contents \<Rightarrow>
          (case agessh_parse E contents of
             SSHIdentity i \<Rightarrow> Inr i
           | SSHMalformed \<Rightarrow> Inl KeyFileParse
           | PassphraseMissing public \<Rightarrow>
               bindE (case public of Some k \<Rightarrow> Inr k | None \<Rightarrow> readPublicKeyFile E keyPath) (\<lambda>pubKey.
                 case encrypted_ssh E pubKey contents of None \<Rightarrow> Inl SSHKeyUnusable | Some i \<Rightarrow> Inr i)))"

definition parseSSHIdentityFromPrivateKeyCmdOutput :: "'i age_env \<Rightarrow> string \<Rightarrow> age_fault + 'i" where
  "parseSSHIdentityFromPrivateKeyCmdOutput E key =
     (case agessh_parse E key of
        SSHIdentity i \<Rightarrow> Inr i
      | PassphraseMissing _ \<Rightarrow> Inl SSHPassphraseUnsupported
      | SSHMalformed \<Rightarrow> Inl KeyFileParse)"

section \<open>Loading the identities\<close>

definition SopsAgeKeyEnv :: string where "SopsAgeKeyEnv = ''SOPS_AGE_KEY''"
definition SopsAgeKeyFileEnv :: string where "SopsAgeKeyFileEnv = ''SOPS_AGE_KEY_FILE''"
definition SopsAgeKeyCmdEnv :: string where "SopsAgeKeyCmdEnv = ''SOPS_AGE_KEY_CMD''"
definition SopsAgeSshPrivateKeyCmdEnv :: string where "SopsAgeSshPrivateKeyCmdEnv = ''SOPS_AGE_SSH_PRIVATE_KEY_CMD''"
definition SopsAgeSshPrivateKeyFileEnv :: string where "SopsAgeSshPrivateKeyFileEnv = ''SOPS_AGE_SSH_PRIVATE_KEY_FILE''"

text \<open>\<open>filepath.Join\<close> of a home directory that is no root and the rest of a path.\<close>

definition under_home :: "string \<Rightarrow> string \<Rightarrow> string" where
  "under_home home path = home @ ''/'' @ path"

definition defaultAgeKeyFile :: "'i age_env \<Rightarrow> string option" where
  "defaultAgeKeyFile E = map_option (\<lambda>home. under_home home ''.config/sops/age/keys.pxf'') (home_dir E)"

text \<open>What the sources give: identities, the locations that were not used, and errors.\<close>

record 'i loaded =
  identities :: "'i list"
  unusedLocations :: "string list"
  errs :: "load_error list"

definition nothing_loaded :: "'i loaded" where
  "nothing_loaded = \<lparr>identities = [], unusedLocations = [], errs = []\<rparr>"

definition add_error :: "string \<Rightarrow> age_fault \<Rightarrow> 'i loaded \<Rightarrow> 'i loaded" where
  "add_error source e l = l\<lparr>errs := errs l @ [KeySourceError source e]\<rparr>"

definition add_unused :: "string \<Rightarrow> 'i loaded \<Rightarrow> 'i loaded" where
  "add_unused source l = l\<lparr>unusedLocations := unusedLocations l @ [source]\<rparr>"

definition add_one :: "string \<Rightarrow> age_fault + 'i \<Rightarrow> 'i loaded \<Rightarrow> 'i loaded" where
  "add_one source r l =
     (case r of Inl e \<Rightarrow> add_error source e l | Inr i \<Rightarrow> l\<lparr>identities := identities l @ [i]\<rparr>)"

definition add_all :: "string \<Rightarrow> age_fault + 'i list \<Rightarrow> 'i loaded \<Rightarrow> 'i loaded" where
  "add_all source r l =
     (case r of
        Inl e \<Rightarrow> add_error source e l
      | Inr ids \<Rightarrow>
          (let l' = l\<lparr>identities := identities l @ ids\<rparr>
           in if ids = [] then add_unused source l' else l'))"

definition load_ssh_default :: "'i age_env \<Rightarrow> string \<Rightarrow> 'i loaded \<Rightarrow> 'i loaded" where
  "load_ssh_default E path l =
     (if file_exists E path then add_one path (parseSSHIdentityFromPrivateKeyFile E path) l else add_unused path l)"

definition loadAgeSSHIdentities :: "'i age_env \<Rightarrow> string \<Rightarrow> 'i loaded" where
  "loadAgeSSHIdentities E recipient =
     (let l1 = (case lookup_env E SopsAgeSshPrivateKeyFileEnv of
                  Some path \<Rightarrow>
                    add_one SopsAgeSshPrivateKeyFileEnv (parseSSHIdentityFromPrivateKeyFile E path) nothing_loaded
                | None \<Rightarrow> add_unused SopsAgeSshPrivateKeyFileEnv nothing_loaded);
          l2 = (case lookup_env E SopsAgeSshPrivateKeyCmdEnv of
                  Some cmd \<Rightarrow>
                    add_one SopsAgeSshPrivateKeyCmdEnv
                      (bindE (getOutputFromCmd E cmd recipient) (parseSSHIdentityFromPrivateKeyCmdOutput E)) l1
                | None \<Rightarrow> add_unused SopsAgeSshPrivateKeyCmdEnv l1)
      in case home_dir E of
           None \<Rightarrow> l2\<lparr>errs := errs l2 @ [PlainError HomeUndeterminable]\<rparr>
         | Some home \<Rightarrow>
             if home = '''' then l2
             else load_ssh_default E (under_home home ''.ssh/id_rsa'')
                    (load_ssh_default E (under_home home ''.ssh/id_ed25519'') l2))"

text \<open>A reader that waits until the end: its source, whether several keys may share a line, and its data.\<close>

type_synonym reader = "string \<times> bool \<times> string"

definition load_key_file :: "'i age_env \<Rightarrow> 'i loaded \<Rightarrow> 'i loaded \<times> reader list" where
  "load_key_file E l =
     (case lookup_env E SopsAgeKeyFileEnv of
        None \<Rightarrow> (add_unused SopsAgeKeyFileEnv l, [])
      | Some path \<Rightarrow>
          if has_suffix path ''.pxf'' then (add_all SopsAgeKeyFileEnv (loadPXFIdentities E path) l, [])
          else case open_file E path of
              None \<Rightarrow> (add_error SopsAgeKeyFileEnv CannotReadKeyFile l, [])
            | Some data \<Rightarrow> (l, [(SopsAgeKeyFileEnv, False, data)]))"

definition load_key_text :: "'i age_env \<Rightarrow> string \<Rightarrow> bool \<Rightarrow> string \<Rightarrow> 'i loaded \<Rightarrow> 'i loaded \<times> reader list" where
  "load_key_text E source allowMultiple data l =
     (if isPXFContent data then (add_all source (parsePXFIdentities E data) l, [])
      else (l, [(source, allowMultiple, data)]))"

definition load_key_env :: "'i age_env \<Rightarrow> 'i loaded \<Rightarrow> 'i loaded \<times> reader list" where
  "load_key_env E l =
     (case lookup_env E SopsAgeKeyEnv of
        None \<Rightarrow> (add_unused SopsAgeKeyEnv l, [])
      | Some data \<Rightarrow> load_key_text E SopsAgeKeyEnv True data l)"

definition load_key_cmd :: "'i age_env \<Rightarrow> string \<Rightarrow> 'i loaded \<Rightarrow> 'i loaded \<times> reader list" where
  "load_key_cmd E recipient l =
     (case lookup_env E SopsAgeKeyCmdEnv of
        None \<Rightarrow> (add_unused SopsAgeKeyCmdEnv l, [])
      | Some cmd \<Rightarrow>
          (case getOutputFromCmd E cmd recipient of
             Inl e \<Rightarrow> (add_error SopsAgeKeyCmdEnv e l, [])
           | Inr out \<Rightarrow> load_key_text E SopsAgeKeyCmdEnv False out l))"

definition load_default_file :: "'i age_env \<Rightarrow> reader list \<Rightarrow> 'i loaded \<Rightarrow> 'i loaded" where
  "load_default_file E readers l =
     (case defaultAgeKeyFile E of
        None \<Rightarrow> l
      | Some path \<Rightarrow>
          if file_exists E path then add_all path (loadPXFIdentities E path) l
          else if readers = [] \<and> identities l = [] then add_unused path l
          else l)"

definition loadIdentities :: "'i age_env \<Rightarrow> string \<Rightarrow> 'i loaded" where
  "loadIdentities E recipient =
     (case load_key_file E (loadAgeSSHIdentities E recipient) of (l1, readers1) \<Rightarrow>
        (case load_key_env E l1 of (l2, readers2) \<Rightarrow>
           (case load_key_cmd E recipient l2 of (l3, readers3) \<Rightarrow>
              (let readers = readers1 @ readers2 @ readers3
               in foldl (\<lambda>l (source, allowMultiple, data). add_all source (unwrapIdentities E source allowMultiple data) l)
                    (load_default_file E readers l3) readers))))"

text \<open>
  \<open>decryptInternal\<close>: \<open>parsed\<close> are the identities injected into the key, \<open>open_with\<close> is \<open>age.Decrypt\<close>
  on the armored data key.
\<close>

datatype 'e age_decrypt_error = NoIdentities "load_error list" "string list" | AgeDecryptFailed 'e "load_error list"

definition decryptInternal ::
    "'i age_env \<Rightarrow> ('i list \<Rightarrow> string \<Rightarrow> 'e + string) \<Rightarrow> 'i list \<Rightarrow> age_key \<Rightarrow> 'e age_decrypt_error + string" where
  "decryptInternal E open_with parsed key =
     (let l = (if parsed = [] then loadIdentities E (Recipient key)
               else \<lparr>identities = parsed, unusedLocations = [], errs = []\<rparr>)
      in if identities l = [] then Inl (NoIdentities (errs l) (unusedLocations l))
         else case open_with (identities l) (age_enc key) of
             Inl e \<Rightarrow> Inl (AgeDecryptFailed e (errs l))
           | Inr dataKey \<Rightarrow> Inr dataKey)"

section \<open>Recipients by name\<close>

text \<open>The recipient of a secret, empty for a plugin.\<close>

definition deriveRecipient :: "'i age_env \<Rightarrow> string \<Rightarrow> age_fault + string" where
  "deriveRecipient E secret =
     (if has_prefix secret ''AGE-PLUGIN-'' then Inr ''''
      else if has_prefix secret ''AGE-SECRET-KEY-PQ-1''
      then bindE (lib_result (parse_hybrid E secret)) (\<lambda>i. Inr (identity_recipient E i))
      else if has_prefix secret ''AGE-SECRET-KEY-1''
      then bindE (lib_result (parse_x25519 E secret)) (\<lambda>i. Inr (identity_recipient E i))
      else Inl UnknownIdentityType)"

definition Recipients :: "'i age_env \<Rightarrow> AgeKeyFile \<Rightarrow> age_fault + (string \<times> string) list" where
  "Recipients E f =
     bindE (mapE (\<lambda>(name, secret). bindE (deriveRecipient E secret) (\<lambda>r. Inr (name, r))) (Keys f)) (\<lambda>out.
       Inr (filter (\<lambda>(name, r). r \<noteq> '''') out))"

definition RecipientForName :: "'i age_env \<Rightarrow> AgeKeyFile \<Rightarrow> string \<Rightarrow> age_fault + string" where
  "RecipientForName E f name =
     (case map_of (Keys f) name of None \<Rightarrow> Inr '''' | Some secret \<Rightarrow> deriveRecipient E secret)"

fun name_for :: "'i age_env \<Rightarrow> string \<Rightarrow> (string \<times> string) list \<Rightarrow> age_fault + string" where
  "name_for E recipient [] = Inr ''''"
| "name_for E recipient ((name, secret) # rest) =
     bindE (deriveRecipient E secret) (\<lambda>r. if r = recipient then Inr name else name_for E recipient rest)"

definition NameForRecipient :: "'i age_env \<Rightarrow> AgeKeyFile \<Rightarrow> string \<Rightarrow> age_fault + string" where
  "NameForRecipient E f recipient = name_for E recipient (Keys f)"

definition recipientFromAgeKeyFile :: "'i age_env \<Rightarrow> string \<Rightarrow> AgeKeyFile \<Rightarrow> string \<Rightarrow> age_fault + string" where
  "recipientFromAgeKeyFile E path f name =
     (if map_of (Keys f) name = None then Inl (KeyNotInKeys path name)
      else case RecipientForName E f name of
          Inl _ \<Rightarrow> Inl (SecretMalformed path name)
        | Inr r \<Rightarrow> if r = '''' then Inl (NotDerivable path name) else Inr r)"

text \<open>A source is tried when it is reached: its label and its file, \<^const>\<open>None\<close> when it is not in PXF.\<close>

type_synonym pxf_source = "string \<times> (age_fault + AgeKeyFile) option"

definition pxfSources :: "'i age_env \<Rightarrow> pxf_source list" where
  "pxfSources E =
     [(case lookup_env E SopsAgeKeyFileEnv of
         None \<Rightarrow> ('''', None)
       | Some path \<Rightarrow> if has_suffix path ''.pxf'' then (path, Some (keypb_ReadFile E path)) else ('''', None)),
      (case lookup_env E SopsAgeKeyEnv of
         None \<Rightarrow> ('''', None)
       | Some data \<Rightarrow> if isPXFContent data then (SopsAgeKeyEnv, Some (keypb_Parse E data)) else ('''', None)),
      (case lookup_env E SopsAgeKeyCmdEnv of
         None \<Rightarrow> ('''', None)
       | Some cmd \<Rightarrow>
           (case getOutputFromCmd E cmd '''' of
              Inl e \<Rightarrow> (SopsAgeKeyCmdEnv, Some (Inl e))
            | Inr out \<Rightarrow>
                if isPXFContent out then (SopsAgeKeyCmdEnv, Some (keypb_Parse E out)) else ('''', None))),
      (case defaultAgeKeyFile E of
         None \<Rightarrow> ('''', None)
       | Some path \<Rightarrow> if file_exists E path then (path, Some (keypb_ReadFile E path)) else ('''', None))]"

fun default_from :: "'i age_env \<Rightarrow> pxf_source list \<Rightarrow> age_fault + string" where
  "default_from E [] = Inr ''''"
| "default_from E ((source, None) # rest) = default_from E rest"
| "default_from E ((source, Some (Inl e)) # rest) = Inl e"
| "default_from E ((source, Some (Inr f)) # rest) =
     (if Default f = '''' then default_from E rest else recipientFromAgeKeyFile E source f (Default f))"

definition DefaultRecipientFromKeyFile :: "'i age_env \<Rightarrow> age_fault + string" where
  "DefaultRecipientFromKeyFile E = default_from E (pxfSources E)"

text \<open>\<open>lastLabel\<close> is the label of the last source in PXF that was looked at.\<close>

fun by_name_from :: "'i age_env \<Rightarrow> string \<Rightarrow> string option \<Rightarrow> pxf_source list \<Rightarrow> age_fault + string" where
  "by_name_from E name lastLabel [] =
     (case lastLabel of None \<Rightarrow> Inl NoPXFSource | Some source \<Rightarrow> Inl (KeyNotInKeys source name))"
| "by_name_from E name lastLabel ((source, None) # rest) = by_name_from E name lastLabel rest"
| "by_name_from E name lastLabel ((source, Some (Inl e)) # rest) = Inl e"
| "by_name_from E name lastLabel ((source, Some (Inr f)) # rest) =
     (if map_of (Keys f) name = None then by_name_from E name (Some source) rest
      else recipientFromAgeKeyFile E source f name)"

definition RecipientFromKeyFileByName :: "'i age_env \<Rightarrow> string \<Rightarrow> age_fault + string" where
  "RecipientFromKeyFileByName E name = by_name_from E name None (pxfSources E)"

end
