(* ===== verification/Age_Keys_Correct.thy ===== *)
theory Age_Keys_Correct
  imports Age_Keys "HOL-Library.Multiset"
begin

text \<open>
  The identities that are loaded are those of the sources, whatever the order in which they are put
  together; the test for the PXF format is the grammar of its first line; a recipient is looked up in
  the first source that has the name; and what follows a line too long for the scanner is lost.
\<close>

section \<open>The sources and what they give\<close>

text \<open>Every source that is there, with what reading and parsing it gives.\<close>

definition ssh_source :: "'i age_env \<Rightarrow> string \<Rightarrow> string \<times> (age_fault + 'i list)" where
  "ssh_source E path = (path, map_sum id (\<lambda>i. [i]) (parseSSHIdentityFromPrivateKeyFile E path))"

definition text_identities :: "'i age_env \<Rightarrow> string \<Rightarrow> bool \<Rightarrow> string \<Rightarrow> age_fault + 'i list" where
  "text_identities E source allowMultiple data =
     (if isPXFContent data then parsePXFIdentities E data else unwrapIdentities E source allowMultiple data)"

definition ssh_sources :: "'i age_env \<Rightarrow> string \<Rightarrow> (string \<times> (age_fault + 'i list)) list" where
  "ssh_sources E recipient =
     (case lookup_env E SopsAgeSshPrivateKeyFileEnv of
        None \<Rightarrow> [] | Some path \<Rightarrow> [(SopsAgeSshPrivateKeyFileEnv, snd (ssh_source E path))]) @
     (case lookup_env E SopsAgeSshPrivateKeyCmdEnv of
        None \<Rightarrow> []
      | Some cmd \<Rightarrow> [(SopsAgeSshPrivateKeyCmdEnv,
          map_sum id (\<lambda>i. [i]) (bindE (getOutputFromCmd E cmd recipient) (parseSSHIdentityFromPrivateKeyCmdOutput E)))]) @
     (case home_dir E of
        None \<Rightarrow> []
      | Some home \<Rightarrow> if home = '''' then []
          else map (ssh_source E) (filter (file_exists E) [under_home home ''.ssh/id_ed25519'', under_home home ''.ssh/id_rsa'']))"

definition file_sources :: "'i age_env \<Rightarrow> (string \<times> (age_fault + 'i list)) list" where
  "file_sources E =
     (case lookup_env E SopsAgeKeyFileEnv of
        None \<Rightarrow> []
      | Some path \<Rightarrow> [(SopsAgeKeyFileEnv,
          if has_suffix path ''.pxf'' then loadPXFIdentities E path
          else case open_file E path of None \<Rightarrow> Inl CannotReadKeyFile
            | Some data \<Rightarrow> unwrapIdentities E SopsAgeKeyFileEnv False data)])"

definition env_sources :: "'i age_env \<Rightarrow> (string \<times> (age_fault + 'i list)) list" where
  "env_sources E =
     (case lookup_env E SopsAgeKeyEnv of
        None \<Rightarrow> [] | Some data \<Rightarrow> [(SopsAgeKeyEnv, text_identities E SopsAgeKeyEnv True data)])"

definition cmd_sources :: "'i age_env \<Rightarrow> string \<Rightarrow> (string \<times> (age_fault + 'i list)) list" where
  "cmd_sources E recipient =
     (case lookup_env E SopsAgeKeyCmdEnv of
        None \<Rightarrow> []
      | Some cmd \<Rightarrow> [(SopsAgeKeyCmdEnv,
          bindE (getOutputFromCmd E cmd recipient) (text_identities E SopsAgeKeyCmdEnv False))])"

definition default_sources :: "'i age_env \<Rightarrow> (string \<times> (age_fault + 'i list)) list" where
  "default_sources E =
     (case defaultAgeKeyFile E of
        None \<Rightarrow> [] | Some path \<Rightarrow> if file_exists E path then [(path, loadPXFIdentities E path)] else [])"

definition sources :: "'i age_env \<Rightarrow> string \<Rightarrow> (string \<times> (age_fault + 'i list)) list" where
  "sources E recipient =
     ssh_sources E recipient @ file_sources E @ env_sources E @ cmd_sources E recipient @ default_sources E"

text \<open>The identities of the sources that can be read, and the errors of the others.\<close>

definition gathered :: "(string \<times> (age_fault + 'i list)) list \<Rightarrow> 'i multiset" where
  "gathered rs = mset (concat (map (\<lambda>(source, r). case r of Inl _ \<Rightarrow> [] | Inr ids \<Rightarrow> ids) rs))"

definition faults :: "(string \<times> (age_fault + 'i list)) list \<Rightarrow> load_error multiset" where
  "faults rs = mset (concat (map (\<lambda>(source, r). case r of Inl e \<Rightarrow> [KeySourceError source e] | Inr _ \<Rightarrow> []) rs))"

lemma gathered_simps [simp]:
  "gathered [] = {#}" "faults [] = {#}"
  "gathered (rs @ ss) = gathered rs + gathered ss" "faults (rs @ ss) = faults rs + faults ss"
  by (simp_all add: gathered_def faults_def)

lemma gathered_Cons:
  "gathered (r # rs) = gathered [r] + gathered rs" "faults (r # rs) = faults [r] + faults rs"
  by (simp_all add: gathered_def faults_def)

text \<open>What has been loaded, with what the readers will still give.\<close>

definition reader_results :: "'i age_env \<Rightarrow> reader list \<Rightarrow> (string \<times> (age_fault + 'i list)) list" where
  "reader_results E readers = map (\<lambda>(source, allow, data). (source, unwrapIdentities E source allow data)) readers"

lemma reader_results_append [simp]:
  "reader_results E (rs @ ss) = reader_results E rs @ reader_results E ss" "reader_results E [] = []"
  by (simp_all add: reader_results_def)

definition found :: "'i age_env \<Rightarrow> 'i loaded \<times> reader list \<Rightarrow> 'i multiset \<times> load_error multiset" where
  "found E st =
     (mset (identities (fst st)) + gathered (reader_results E (snd st)),
      mset (errs (fst st)) + faults (reader_results E (snd st)))"

definition plus_sources ::
    "'i multiset \<times> load_error multiset \<Rightarrow> (string \<times> (age_fault + 'i list)) list \<Rightarrow> 'i multiset \<times> load_error multiset" where
  "plus_sources m rs = (fst m + gathered rs, snd m + faults rs)"

lemma add_all_found [simp]:
  "mset (identities (add_all source r l)) = mset (identities l) + gathered [(source, r)]"
  "mset (errs (add_all source r l)) = mset (errs l) + faults [(source, r)]"
  by (auto simp: add_all_def add_error_def add_unused_def gathered_def faults_def Let_def split: sum.split)

lemma add_one_found [simp]:
  "mset (identities (add_one source r l)) = mset (identities l) + gathered [(source, map_sum id (\<lambda>i. [i]) r)]"
  "mset (errs (add_one source r l)) = mset (errs l) + faults [(source, map_sum id (\<lambda>i. [i]) r)]"
  by (auto simp: add_one_def add_error_def gathered_def faults_def split: sum.split)

lemma add_unused_found [simp]:
  "identities (add_unused source l) = identities l" "errs (add_unused source l) = errs l"
  by (simp_all add: add_unused_def)

lemma add_error_found [simp]:
  "identities (add_error source e l) = identities l"
  "mset (errs (add_error source e l)) = mset (errs l) + faults [(source, Inl e)]"
  by (simp_all add: add_error_def faults_def)

lemma add_up:
  fixes d :: "'a multiset"
  assumes "i1 + g1 = s + f" "i2 + g2 = i1 + e" "i3 + g3 = i2 + c"
  shows "i3 + d + (g1 + (g2 + g3)) = s + (f + (e + (c + d)))"
proof (rule multiset_eqI)
  fix x
  show "count (i3 + d + (g1 + (g2 + g3))) x = count (s + (f + (e + (c + d)))) x"
    using assms [THEN arg_cong [of _ _ "\<lambda>m. count m x"]] by simp
qed

lemma ssh_found:
  "mset (identities (loadAgeSSHIdentities E recipient)) = gathered (ssh_sources E recipient)"
  "mset (errs (loadAgeSSHIdentities E recipient)) =
    faults (ssh_sources E recipient) + (if home_dir E = None then {#PlainError HomeUndeterminable#} else {#})"
  by (auto simp: loadAgeSSHIdentities_def ssh_sources_def ssh_source_def load_ssh_default_def nothing_loaded_def
      gathered_Cons [of _ "[_]"] Let_def split: option.split)

lemma key_file_found: "found E (load_key_file E l) = plus_sources (found E (l, [])) (file_sources E)"
  by (auto simp: load_key_file_def file_sources_def found_def plus_sources_def reader_results_def split: option.split)
    (simp_all add: gathered_def faults_def)

lemma key_text_found:
  "found E (load_key_text E source allow data l) = plus_sources (found E (l, [])) [(source, text_identities E source allow data)]"
  by (simp add: load_key_text_def text_identities_def found_def plus_sources_def reader_results_def)

lemma key_env_found: "found E (load_key_env E l) = plus_sources (found E (l, [])) (env_sources E)"
  by (simp add: load_key_env_def env_sources_def key_text_found split: option.split)
    (simp add: found_def plus_sources_def reader_results_def)

lemma key_cmd_found: "found E (load_key_cmd E recipient l) = plus_sources (found E (l, [])) (cmd_sources E recipient)"
  by (simp add: load_key_cmd_def cmd_sources_def key_text_found split: option.split sum.split)
    (simp add: found_def plus_sources_def reader_results_def gathered_def)

lemma default_file_found:
  "found E (load_default_file E readers l, []) = plus_sources (found E (l, [])) (default_sources E)"
  by (simp add: load_default_file_def default_sources_def found_def plus_sources_def reader_results_def split: option.split)

lemma readers_found:
  "found E (foldl (\<lambda>l (source, allow, data). add_all source (unwrapIdentities E source allow data) l) l readers, [])
    = plus_sources (found E (l, [])) (reader_results E readers)"
  by (induction readers arbitrary: l)
    (auto simp: found_def plus_sources_def reader_results_def gathered_def faults_def)

lemma union_of_sources:
  "mset (identities (loadIdentities E recipient)) = gathered (sources E recipient)
    \<and> mset (errs (loadIdentities E recipient)) = faults (sources E recipient)
      + (if home_dir E = None then {#PlainError HomeUndeterminable#} else {#})"
proof -
  obtain l1 r1 where 1: "load_key_file E (loadAgeSSHIdentities E recipient) = (l1, r1)" by fastforce
  obtain l2 r2 where 2: "load_key_env E l1 = (l2, r2)" by fastforce
  obtain l3 r3 where 3: "load_key_cmd E recipient l2 = (l3, r3)" by fastforce
  have "loadIdentities E recipient =
      foldl (\<lambda>l (source, allow, data). add_all source (unwrapIdentities E source allow data) l)
        (load_default_file E (r1 @ r2 @ r3) l3) (r1 @ r2 @ r3)"
    by (simp add: loadIdentities_def 1 2 3 Let_def)
  with readers_found [of E "load_default_file E (r1 @ r2 @ r3) l3" "r1 @ r2 @ r3"]
  have final: "found E (loadIdentities E recipient, []) =
      plus_sources (plus_sources (found E (l3, [])) (default_sources E)) (reader_results E (r1 @ r2 @ r3))"
    by (simp add: default_file_found)
  let ?ids = "\<lambda>l. mset (identities l)" and ?errs = "\<lambda>l. mset (errs l)"
    and ?g = "\<lambda>r. gathered (reader_results E r)" and ?f = "\<lambda>r. faults (reader_results E r)"
  have ids: "?ids l1 + ?g r1 = ?ids (loadAgeSSHIdentities E recipient) + gathered (file_sources E)"
      "?ids l2 + ?g r2 = ?ids l1 + gathered (env_sources E)" "?ids l3 + ?g r3 = ?ids l2 + gathered (cmd_sources E recipient)"
    and es: "?errs l1 + ?f r1 = ?errs (loadAgeSSHIdentities E recipient) + faults (file_sources E)"
      "?errs l2 + ?f r2 = ?errs l1 + faults (env_sources E)" "?errs l3 + ?f r3 = ?errs l2 + faults (cmd_sources E recipient)"
    using key_file_found [of E "loadAgeSSHIdentities E recipient", unfolded 1] key_env_found [of E l1, unfolded 2]
      key_cmd_found [of E recipient l2, unfolded 3]
    by (simp_all add: found_def plus_sources_def reader_results_append)
  have "?ids (loadIdentities E recipient) = ?ids l3 + gathered (default_sources E) + (?g r1 + (?g r2 + ?g r3))"
    "?errs (loadIdentities E recipient) = ?errs l3 + faults (default_sources E) + (?f r1 + (?f r2 + ?f r3))"
    using final by (simp_all add: found_def plus_sources_def reader_results_append)
  then show ?thesis
    unfolding add_up [OF ids] add_up [OF es] by (simp add: ssh_found sources_def ac_simps)
qed

text \<open>C24. Loading the identities implements the plain union of the sources: the identities are, with their
  multiplicities, those of every source that can be read and parsed, the errors are those of the
  others; nothing depends on which sources come first or wait until the end as readers.\<close>

theorem loadIdentities_refines:
  "mset (identities (loadIdentities E recipient)) = gathered (sources E recipient)
    \<and> mset (errs (loadIdentities E recipient)) = faults (sources E recipient)
      + (if home_dir E = None then {#PlainError HomeUndeterminable#} else {#})"
  by (simp add: union_of_sources)

section \<open>The grammar of a PXF entry\<close>

lemma ident_not_blank: "blank_char c \<Longrightarrow> \<not> ident_char c"
  by (auto simp: blank_char_def ident_char_def ident_start_def)

lemma entry_not_ident: "d \<in> {CHR ''='', CHR ''{''} \<Longrightarrow> \<not> ident_char d \<and> \<not> blank_char d"
  by (auto simp: blank_char_def ident_char_def ident_start_def)

lemma dropWhile_prefix: "list_all P xs \<Longrightarrow> (ys \<noteq> [] \<Longrightarrow> \<not> P (hd ys)) \<Longrightarrow> dropWhile P (xs @ ys) = ys"
  by (induction xs) (auto simp: dropWhile_eq_self_iff)

text \<open>The test that decides between the two formats accepts exactly the lines that start with an
  identifier, blanks, and an equals sign or an opening brace; so no line of the old format, which
  starts with \<open>AGE-\<close>, is taken for PXF.\<close>

lemma pxf_entry_grammar:
  "looksLikePXFTopLevelEntry line \<longleftrightarrow>
    (\<exists>c ident blanks d rest. line = c # ident @ blanks @ d # rest \<and> ident_start c \<and> list_all ident_char ident
      \<and> list_all blank_char blanks \<and> d \<in> {CHR ''='', CHR ''{''})"
proof
  assume "looksLikePXFTopLevelEntry line"
  then obtain c cs d rest where line: "line = c # cs" "ident_start c"
      "dropWhile blank_char (dropWhile ident_char cs) = d # rest" "d \<in> {CHR ''='', CHR ''{''}"
    by (cases line) (auto split: list.splits)
  let ?r = "dropWhile ident_char cs"
  have "cs = takeWhile ident_char cs @ takeWhile blank_char ?r @ d # rest"
    by (metis line(3) takeWhile_dropWhile_id)
  moreover have "list_all ident_char (takeWhile ident_char cs)" "list_all blank_char (takeWhile blank_char ?r)"
    by (auto simp: list_all_iff dest: set_takeWhileD)
  ultimately show "\<exists>c ident blanks d rest. line = c # ident @ blanks @ d # rest \<and> ident_start c \<and> list_all ident_char ident
      \<and> list_all blank_char blanks \<and> d \<in> {CHR ''='', CHR ''{''}"
    using line by blast
next
  assume "\<exists>c ident blanks d rest. line = c # ident @ blanks @ d # rest \<and> ident_start c \<and> list_all ident_char ident
      \<and> list_all blank_char blanks \<and> d \<in> {CHR ''='', CHR ''{''}"
  then obtain c ident blanks d rest where line: "line = c # ident @ blanks @ d # rest" "ident_start c"
      "list_all ident_char ident" "list_all blank_char blanks" "d \<in> {CHR ''='', CHR ''{''}"
    by blast
  have "dropWhile ident_char (ident @ blanks @ d # rest) = blanks @ d # rest"
    using line(4) entry_not_ident [OF line(5)]
    by (intro dropWhile_prefix [OF line(3)]) (cases blanks; simp add: ident_not_blank)
  moreover have "dropWhile blank_char (blanks @ d # rest) = d # rest"
    using entry_not_ident [OF line(5)] by (intro dropWhile_prefix [OF line(4)]) simp
  ultimately show "looksLikePXFTopLevelEntry line" using line(1,2,5) by auto
qed

section \<open>Long lines\<close>

lemma str_split_append_general: "str_split c (s @ c # t) = str_split c s @ str_split c t"
proof (induction s)
  case (Cons x s)
  obtain w ws where "str_split c s = w # ws" by (cases "str_split c s") auto
  with Cons show ?case by simp
qed simp

lemma scan_lines_long:
  assumes "MaxScanTokenSize \<le> length line" "CHR 0x0A \<notin> set line"
  shows "scan_lines (head @ CHR 0x0A # line @ CHR 0x0A # rest) = scan_lines (head @ [CHR 0x0A])"
proof -
  have split: "str_split CHR 0x0A (head @ CHR 0x0A # line @ CHR 0x0A # rest) =
      str_split CHR 0x0A head @ line # str_split CHR 0x0A rest"
    by (simp add: str_split_append_general str_split_no_sep [OF assms(2)])
  then have "raw_lines (head @ CHR 0x0A # line @ CHR 0x0A # rest) =
      str_split CHR 0x0A head @ line # (if last (str_split CHR 0x0A rest) = [] then butlast (str_split CHR 0x0A rest)
        else str_split CHR 0x0A rest)"
    unfolding raw_lines_def split by (simp add: butlast_append)
  moreover have "raw_lines (head @ [CHR 0x0A]) = str_split CHR 0x0A head"
    using str_split_append_general [of "CHR 0x0A" head "[]"] by (simp add: raw_lines_def)
  ultimately show ?thesis
    using assms(1) by (simp add: scan_lines_def takeWhile_append) (metis takeWhile_eq_all_conv)
qed

text \<open>C29. Whatever follows a line of 64 KiB or more in a key file of the old format is lost, without an
  error: the loop ends with the scanner, whose error nobody reads.\<close>

theorem identities_after_long_line:
  assumes "MaxScanTokenSize \<le> length line" "CHR 0x0A \<notin> set line"
  shows "parseIdentities E allowMultiple (head @ CHR 0x0A # line @ CHR 0x0A # rest) =
    parseIdentities E allowMultiple (head @ [CHR 0x0A])"
  by (simp add: parseIdentities_def identity_words_def scan_lines_long [OF assms])

section \<open>Recipients by name\<close>

definition skips :: "string \<Rightarrow> pxf_source \<Rightarrow> bool" where
  "skips name s \<longleftrightarrow> snd s = None \<or> (\<exists>g. snd s = Some (Inr g) \<and> map_of (Keys g) name = None)"

definition gives :: "'i age_env \<Rightarrow> string \<Rightarrow> string \<Rightarrow> pxf_source \<Rightarrow> bool" where
  "gives E name r s \<longleftrightarrow> (\<exists>f secret. snd s = Some (Inr f) \<and> map_of (Keys f) name = Some secret
     \<and> deriveRecipient E secret = Inr r \<and> r \<noteq> '''')"

lemma first_hit_Cons:
  "(\<exists>before x rest. s # srcs = before @ x # rest \<and> (\<forall>b\<in>set before. skip b) \<and> hit x) \<longleftrightarrow>
    hit s \<or> skip s \<and> (\<exists>before x rest. srcs = before @ x # rest \<and> (\<forall>b\<in>set before. skip b) \<and> hit x)"
  (is "?l \<longleftrightarrow> ?r")
proof
  assume ?l
  then show ?r by (fastforce simp: Cons_eq_append_conv)
next
  assume ?r
  then show ?l
  proof
    assume "hit s"
    then show ?l by (intro exI [of _ "[]"]) auto
  next
    assume "skip s \<and> (\<exists>before x rest. srcs = before @ x # rest \<and> (\<forall>b\<in>set before. skip b) \<and> hit x)"
    then obtain before x rest where "skip s" "srcs = before @ x # rest" "\<forall>b\<in>set before. skip b" "hit x" by blast
    then show ?l by (intro exI [of _ "s # before"]) auto
  qed
qed

lemma by_name_from_iff:
  "by_name_from E name label srcs = Inr r \<longleftrightarrow>
    (\<exists>before s rest. srcs = before @ s # rest \<and> (\<forall>b\<in>set before. skips name b) \<and> gives E name r s)"
proof (induction E name label srcs rule: by_name_from.induct)
  case (1 E name label)
  then show ?case by (auto split: option.split)
next
  case (2 E name label source rest)
  have "skips name (source, None)" "\<not> gives E name r (source, None)" by (simp_all add: skips_def gives_def)
  with 2 show ?case unfolding first_hit_Cons by simp
next
  case (3 E name label source e rest)
  have "\<not> skips name (source, Some (Inl e))" "\<not> gives E name r (source, Some (Inl e))"
    by (simp_all add: skips_def gives_def)
  then show ?case unfolding first_hit_Cons by simp
next
  case (4 E name label source f rest)
  have "recipientFromAgeKeyFile E source f name = Inr r \<longleftrightarrow> gives E name r (source, Some (Inr f))"
    by (auto simp: recipientFromAgeKeyFile_def RecipientForName_def gives_def split: sum.splits)
  moreover have "skips name (source, Some (Inr f)) \<longleftrightarrow> map_of (Keys f) name = None" by (simp add: skips_def)
  moreover have "map_of (Keys f) name = None \<Longrightarrow> \<not> gives E name r (source, Some (Inr f))" by (simp add: gives_def)
  ultimately show ?case using 4 unfolding first_hit_Cons by (cases "map_of (Keys f) name") simp_all
qed

lemma derive_parse:
  assumes "deriveRecipient E secret = Inr r" "r \<noteq> ''''"
  shows "\<exists>i. parseIdentity E secret = Inr i \<and> identity_recipient E i = r"
  using assms by (auto simp: deriveRecipient_def parseIdentity_def split: if_splits)

lemma pxf_identity:
  assumes "keypb_Parse E data = Inr f" "parsePXFIdentities E data = Inr ids"
    and "map_of (Keys f) name = Some secret" "deriveRecipient E secret = Inr r" "r \<noteq> ''''"
  shows "\<exists>i\<in>set ids. identity_recipient E i = r"
proof -
  obtain i where i: "parseIdentity E secret = Inr i" "identity_recipient E i = r"
    using derive_parse [OF assms(4,5)] by blast
  have ids: "mapE (parseIdentity E) (map snd (Keys f)) = Inr ids"
    using assms(1,2) by (auto simp: parsePXFIdentities_def split: sum.splits)
  have "secret \<in> set (map snd (Keys f))" using map_of_SomeD [OF assms(3)] by force
  then obtain n where n: "n < length (map snd (Keys f))" "map snd (Keys f) ! n = secret" by (metis in_set_conv_nth)
  with mapE_nth [OF ids n(1)] i(1) have "ids ! n = i" by simp
  moreover have "n < length ids" using mapE_length [OF ids] n(1) by simp
  ultimately show ?thesis using i(2) nth_mem by blast
qed

lemma gathered_member: "(source, Inr ids) \<in> set rs \<Longrightarrow> i \<in> set ids \<Longrightarrow> i \<in># gathered rs"
  by (force simp: gathered_def)

lemma no_faults: "faults rs = {#} \<Longrightarrow> (source, r) \<in> set rs \<Longrightarrow> \<exists>ids. r = Inr ids"
  by (cases r) (force simp: faults_def)+

lemma pxf_source_loaded:
  assumes "(label, Some (Inr f)) \<in> set (pxfSources E)"
    and "\<And>cmd. getOutputFromCmd E cmd recipient = getOutputFromCmd E cmd ''''"
  shows "\<exists>source data. keypb_Parse E data = Inr f \<and> (source, parsePXFIdentities E data) \<in> set (sources E recipient)"
proof -
  consider path where "lookup_env E SopsAgeKeyFileEnv = Some path" "has_suffix path ''.pxf''" "keypb_ReadFile E path = Inr f"
    | data where "lookup_env E SopsAgeKeyEnv = Some data" "isPXFContent data" "keypb_Parse E data = Inr f"
    | cmd out where "lookup_env E SopsAgeKeyCmdEnv = Some cmd" "getOutputFromCmd E cmd '''' = Inr out" "isPXFContent out"
        "keypb_Parse E out = Inr f"
    | path where "defaultAgeKeyFile E = Some path" "file_exists E path" "keypb_ReadFile E path = Inr f"
    using assms(1) by (auto simp: pxfSources_def split: option.splits sum.splits if_splits)
  then show ?thesis
  proof cases
    case 1
    then show ?thesis
      by (fastforce simp: sources_def file_sources_def keypb_ReadFile_def loadPXFIdentities_def split: option.splits)
  next
    case 2
    then show ?thesis by (fastforce simp: sources_def env_sources_def text_identities_def)
  next
    case 3
    then show ?thesis by (fastforce simp: sources_def cmd_sources_def text_identities_def assms(2))
  next
    case 4
    then show ?thesis
      by (fastforce simp: sources_def default_sources_def keypb_ReadFile_def loadPXFIdentities_def split: option.splits)
  qed
qed

text \<open>C25. What is encrypted to a key by its name can be decrypted in the same environment: if every source
  of identities can be read and parsed and the key command does not depend on the recipient, then
  among the identities loaded for decryption is one whose recipient is the one found by name.\<close>

theorem named_recipient_loaded:
  assumes "RecipientFromKeyFileByName E name = Inr r"
    and "errs (loadIdentities E recipient) = []"
    and "\<And>cmd. getOutputFromCmd E cmd recipient = getOutputFromCmd E cmd ''''"
  shows "\<exists>i\<in>set (identities (loadIdentities E recipient)). identity_recipient E i = r"
proof -
  obtain source f secret where f: "(source, Some (Inr f)) \<in> set (pxfSources E)" "map_of (Keys f) name = Some secret"
      "deriveRecipient E secret = Inr r" "r \<noteq> ''''"
  proof -
    obtain before s rest where s: "pxfSources E = before @ s # rest" "gives E name r s"
      using assms(1) unfolding RecipientFromKeyFileByName_def by_name_from_iff by blast
    then have "(fst s, snd s) \<in> set (pxfSources E)" by simp
    with s(2) show thesis using that unfolding gives_def by metis
  qed
  obtain loc data where data: "keypb_Parse E data = Inr f" "(loc, parsePXFIdentities E data) \<in> set (sources E recipient)"
    using pxf_source_loaded [OF f(1) assms(3)] by blast
  have "faults (sources E recipient) = {#}" using union_of_sources [of E recipient] assms(2) by simp
  from no_faults [OF this data(2)] obtain ids where ids: "parsePXFIdentities E data = Inr ids" by blast
  obtain i where "i \<in> set ids" "identity_recipient E i = r" using pxf_identity [OF data(1) ids f(2-4)] by blast
  with gathered_member [of loc ids "sources E recipient" i] data(2) ids
  have "i \<in># mset (identities (loadIdentities E recipient))" by (simp add: union_of_sources)
  then show ?thesis using \<open>identity_recipient E i = r\<close> by auto
qed

section \<open>Witnesses\<close>

text \<open>An environment with one source, a text in PXF with one key.\<close>

definition sample_age :: "string age_env" where
  "sample_age = \<lparr>lookup_env = (\<lambda>v. if v = SopsAgeKeyEnv then Some ''keys = { }'' else None),
     read_file = (\<lambda>p. None), open_file = (\<lambda>p. None), file_exists = (\<lambda>p. False), home_dir = Some ''/h'', shlex = (\<lambda>s. Some [s]),
     run_command = (\<lambda>args r. None), parse_plugin = (\<lambda>s. None), parse_hybrid = (\<lambda>s. None),
     parse_x25519 = (\<lambda>s. Some s), identity_recipient = (\<lambda>i. ''age1'' @ i),
     encrypted_identity = (\<lambda>source contents. contents), unarmor = (\<lambda>s. None), agessh_parse = (\<lambda>s. SSHMalformed),
     authorized_key = (\<lambda>s. None), encrypted_ssh = (\<lambda>k s. None),
     pxf_unmarshal = (\<lambda>s. Some \<lparr>Default = ''me'', Keys = [(''me'', ''AGE-SECRET-KEY-1A'')]\<rparr>),
     parse_recipient = (\<lambda>k s. True)\<rparr>"

lemmas parse_sample = parseIdentities_def identity_words_def scan_lines_def raw_lines_def drop_cr_def
  MaxScanTokenSize_def parseIdentity_def lib_result_def sample_age_def

lemma sample_is_pxf: "isPXFContent ''keys = { }''"
proof -
  have "trim_space ''keys = { }'' = ''keys = { }''" by code_simp
  moreover have "looksLikePXFTopLevelEntry ''keys = { }''" by code_simp
  ultimately show ?thesis by (simp add: isPXFContent_def scan_lines_def raw_lines_def drop_cr_def MaxScanTokenSize_def)
qed

lemmas load_sample = loadIdentities_def loadAgeSSHIdentities_def load_key_file_def load_key_env_def load_key_cmd_def
  load_key_text_def load_default_file_def load_ssh_default_def defaultAgeKeyFile_def sample_is_pxf nothing_loaded_def
  add_unused_def add_all_def parsePXFIdentities_def keypb_Parse_def parseIdentity_def lib_result_def sample_age_def
  SopsAgeKeyEnv_def SopsAgeKeyFileEnv_def SopsAgeKeyCmdEnv_def SopsAgeSshPrivateKeyFileEnv_def SopsAgeSshPrivateKeyCmdEnv_def

lemma identities_after_long_line_witness:
  "parseIdentities sample_age False (''AGE-SECRET-KEY-1A'' @ CHR 0x0A # replicate 65536 CHR ''x'' @ CHR 0x0A # ''AGE-SECRET-KEY-1B'')
    = Inr [''AGE-SECRET-KEY-1A'']"
proof -
  have "MaxScanTokenSize \<le> length (replicate 65536 CHR ''x'')" "CHR 0x0A \<notin> set (replicate 65536 CHR ''x'')"
    by (simp_all add: MaxScanTokenSize_def)
  note identities_after_long_line [OF this, of sample_age False "''AGE-SECRET-KEY-1A''" "''AGE-SECRET-KEY-1B''"]
  moreover have "parseIdentities sample_age False (''AGE-SECRET-KEY-1A'' @ [CHR 0x0A]) = Inr [''AGE-SECRET-KEY-1A'']"
    by (simp add: parse_sample)
  ultimately show ?thesis by simp
qed

lemma named_recipient_loaded_witness:
  "\<exists>i\<in>set (identities (loadIdentities sample_age ''r'')). identity_recipient sample_age i = ''age1AGE-SECRET-KEY-1A''"
proof (rule named_recipient_loaded)
  show "RecipientFromKeyFileByName sample_age ''me'' = Inr ''age1AGE-SECRET-KEY-1A''"
    by (simp add: load_sample RecipientFromKeyFileByName_def pxfSources_def recipientFromAgeKeyFile_def RecipientForName_def deriveRecipient_def)
  show "errs (loadIdentities sample_age ''r'') = []" by (simp add: load_sample Let_def)
  show "getOutputFromCmd sample_age cmd ''r'' = getOutputFromCmd sample_age cmd ''''" for cmd
    by (simp add: getOutputFromCmd_def sample_age_def)
qed

end
