(* ===== verification/Config.thy ===== *)
theory Config
  imports Age_Keys
begin

text \<open>
  The configuration file, \<open>src/config/config.go\<close>: finding it, its rules as they come out of the PXF
  decoder, the choice of the rule for a file, and the key groups of a rule; and the destinations of
  \<open>src/publish\<close> as far as a rule builds them.

  The decoder of PXF gives the messages \<open>pb_\<close> of the generated package \<open>configpb\<close>. It, the regular
  expressions and \<open>filepath.Abs\<close> are in the record \<open>config_env\<close>, with the environment of age, the
  version service of Azure Key Vault, the URL parser and the clock that the key constructors use.
\<close>

section \<open>Finding the file\<close>

record ConfigFileResult =
  config_Path :: string
  config_Warning :: "(string \<times> string option) option"

definition configFileName :: string where "configFileName = ''.sops.pxf''"
definition legacyConfigNames :: "string list" where "legacyConfigNames = [''.sops.yaml'', ''.sops.yml'']"
definition maxDepth :: nat where "maxDepth = 100"

text \<open>\<open>path.Dir\<close>: what is before the last slash, cleaned.\<close>

definition path_dir :: "string \<Rightarrow> string" where
  "path_dir p = path_clean (rev (dropWhile (\<lambda>c. c \<noteq> CHR ''/'') (rev p)))"

text \<open>
  The search: \<open>stat\<close> tells which files there are, \<open>found\<close> is the first legacy file seen. A warning names
  the legacy file, and the file used instead if there is one.
\<close>

fun lookup_config :: "(string \<Rightarrow> bool) \<Rightarrow> nat \<Rightarrow> string \<Rightarrow> string option \<Rightarrow> ConfigFileResult \<times> bool" where
  "lookup_config stat 0 dir found =
     (\<lparr>config_Path = '''', config_Warning = map_option (\<lambda>l. (l, None)) found\<rparr>, False)"
| "lookup_config stat (Suc n) dir found =
     (let configPath = path_join [dir, configFileName]
      in if stat configPath
         then (\<lparr>config_Path = configPath, config_Warning = map_option (\<lambda>l. (l, Some configPath)) found\<rparr>, True)
         else
           let found' = (if found = None
                         then find stat (map (\<lambda>name. path_join [dir, name]) legacyConfigNames) else found)
           in lookup_config stat n (path_join [dir, ''..'']) found')"

definition LookupConfigFile :: "(string \<Rightarrow> bool) \<Rightarrow> string \<Rightarrow> ConfigFileResult \<times> bool" where
  "LookupConfigFile stat start = lookup_config stat maxDepth (path_dir start) None"

definition FindConfigFile :: "(string \<Rightarrow> bool) \<Rightarrow> string \<Rightarrow> string option" where
  "FindConfigFile stat start =
     (case LookupConfigFile stat start of (r, ok) \<Rightarrow> if ok then Some (config_Path r) else None)"

section \<open>The messages of the decoder\<close>

record pb_KmsKey =
  pb_Arn :: string
  pb_Role :: string
  pb_Context :: "(string \<times> string) list option"
  pb_AwsProfile :: string

record pb_AzureKey =
  pb_VaultUrl :: string
  pb_Key :: string
  pb_Version :: string

datatype pb_KeyGroup = PbKeyGroup (pb_Merge: "pb_KeyGroup list") (pb_Kms: "pb_KmsKey list") (pb_GcpKms: "string list")
  (pb_Hckms: "string list") (pb_AzureKeyvault: "pb_AzureKey list") (pb_HcVault: "string list") (pb_Age: "string list")
  (pb_Pgp: "string list")

record pb_CreationRule =
  pb_PathRegex :: string
  pb_rule_Kms :: "string list"
  pb_rule_AwsProfile :: string
  pb_rule_Age :: "string list"
  pb_rule_Pgp :: "string list"
  pb_rule_GcpKms :: "string list"
  pb_rule_Hckms :: "string list"
  pb_rule_AzureKeyvault :: "string list"
  pb_rule_HcVaultTransitUri :: "string list"
  pb_KeyGroups :: "pb_KeyGroup list"
  pb_ShamirThreshold :: int
  pb_UnencryptedSuffix :: string
  pb_EncryptedSuffix :: string
  pb_UnencryptedRegex :: string
  pb_EncryptedRegex :: string
  pb_UnencryptedCommentRegex :: string
  pb_EncryptedCommentRegex :: string
  pb_MacOnlyEncrypted :: bool

record pb_DestinationRule =
  pb_dest_PathRegex :: string
  pb_S3Bucket :: string
  pb_S3Prefix :: string
  pb_GcsBucket :: string
  pb_GcsPrefix :: string
  pb_VaultPath :: string
  pb_VaultAddress :: string
  pb_VaultKvMountName :: string
  pb_VaultKvVersion :: int
  pb_RecreationRule :: pb_CreationRule
  pb_OmitExtensions :: bool

text \<open>An indent is \<^const>\<open>None\<close> when it, or the message around it, is absent.\<close>

record pb_StoresConfig =
  pb_Json_Indent :: "int option"
  pb_JsonBinary_Indent :: "int option"
  pb_Yaml_Indent :: "int option"

record pb_ConfigFile =
  pb_CreationRules :: "pb_CreationRule list"
  pb_DestinationRules :: "pb_DestinationRule list"
  pb_Stores :: "pb_StoresConfig option"

section \<open>The configuration\<close>

record StoresConfig =
  JSON_Indent :: int
  JSONBinary_Indent :: int
  YAML_Indent :: int

record kmsKey =
  rule_Arn :: string
  rule_Role :: string
  rule_Context :: kms_context
  rule_AwsProfile :: string

record azureKVKey =
  rule_VaultURL :: string
  rule_Key :: string
  rule_Version :: string

datatype keyGroup = KeyGroup (Merge: "keyGroup list") (group_KMS: "kmsKey list") (group_GCPKMS: "string list")
  (group_HCKms: "string list") (group_AzureKV: "azureKVKey list") (group_Vault: "string list") (group_Age: "string list")
  (group_PGP: "string list")

record creationRule =
  PathRegex :: string
  rule_KMS :: "string list"
  rule_Profile :: string
  rule_Age :: "string list"
  rule_PGP :: "string list"
  rule_GCPKMS :: "string list"
  rule_HCKms :: "string list"
  rule_AzureKeyVault :: "string list"
  rule_VaultURI :: "string list"
  rule_KeyGroups :: "keyGroup list"
  rule_ShamirThreshold :: int
  rule_UnencryptedSuffix :: string
  rule_EncryptedSuffix :: string
  rule_UnencryptedRegex :: string
  rule_EncryptedRegex :: string
  rule_UnencryptedCommentRegex :: string
  rule_EncryptedCommentRegex :: string
  rule_MACOnlyEncrypted :: bool

record destinationRule =
  dest_PathRegex :: string
  S3Bucket :: string
  S3Prefix :: string
  GCSBucket :: string
  GCSPrefix :: string
  VaultPath :: string
  dest_VaultAddress :: string
  VaultKVMountName :: string
  VaultKVVersion :: int
  RecreationRule :: creationRule
  dest_OmitExtensions :: bool

record configFile =
  CreationRules :: "creationRule list"
  DestinationRules :: "destinationRule list"
  Stores :: StoresConfig

datatype destination =
    S3Destination string string
  | GCSDestination string string
  | VaultDestination string string string int

record Config =
  conf_KeyGroups :: "master_key list list"
  conf_ShamirThreshold :: int
  conf_UnencryptedSuffix :: string
  conf_EncryptedSuffix :: string
  conf_UnencryptedRegex :: string
  conf_EncryptedRegex :: string
  conf_UnencryptedCommentRegex :: string
  conf_EncryptedCommentRegex :: string
  conf_MACOnlyEncrypted :: bool
  conf_Destination :: "destination option"
  conf_OmitExtensions :: bool

definition NewStoresConfig :: StoresConfig where
  "NewStoresConfig = \<lparr>JSON_Indent = -1, JSONBinary_Indent = -1, YAML_Indent = 0\<rparr>"

section \<open>From the messages to the rules\<close>

definition kmsKey_from :: "pb_KmsKey \<Rightarrow> kmsKey" where
  "kmsKey_from k = \<lparr>rule_Arn = pb_Arn k, rule_Role = pb_Role k, rule_Context = pb_Context k,
     rule_AwsProfile = pb_AwsProfile k\<rparr>"

definition azureKVKey_from :: "pb_AzureKey \<Rightarrow> azureKVKey" where
  "azureKVKey_from k = \<lparr>rule_VaultURL = pb_VaultUrl k, rule_Key = pb_Key k, rule_Version = pb_Version k\<rparr>"

fun keyGroupFromProto :: "pb_KeyGroup \<Rightarrow> keyGroup" where
  "keyGroupFromProto (PbKeyGroup merge kms gcp hckms azure vault age pgp) =
     KeyGroup (map keyGroupFromProto merge) (map kmsKey_from kms) gcp hckms (map azureKVKey_from azure) vault age pgp"

definition creationRuleFromProto :: "pb_CreationRule \<Rightarrow> creationRule" where
  "creationRuleFromProto r =
     \<lparr>PathRegex = pb_PathRegex r, rule_KMS = pb_rule_Kms r, rule_Profile = pb_rule_AwsProfile r,
      rule_Age = pb_rule_Age r, rule_PGP = pb_rule_Pgp r, rule_GCPKMS = pb_rule_GcpKms r,
      rule_HCKms = pb_rule_Hckms r, rule_AzureKeyVault = pb_rule_AzureKeyvault r,
      rule_VaultURI = pb_rule_HcVaultTransitUri r, rule_KeyGroups = map keyGroupFromProto (pb_KeyGroups r),
      rule_ShamirThreshold = pb_ShamirThreshold r, rule_UnencryptedSuffix = pb_UnencryptedSuffix r,
      rule_EncryptedSuffix = pb_EncryptedSuffix r, rule_UnencryptedRegex = pb_UnencryptedRegex r,
      rule_EncryptedRegex = pb_EncryptedRegex r, rule_UnencryptedCommentRegex = pb_UnencryptedCommentRegex r,
      rule_EncryptedCommentRegex = pb_EncryptedCommentRegex r, rule_MACOnlyEncrypted = pb_MacOnlyEncrypted r\<rparr>"

definition destinationRuleFromProto :: "pb_DestinationRule \<Rightarrow> destinationRule" where
  "destinationRuleFromProto r =
     \<lparr>dest_PathRegex = pb_dest_PathRegex r, S3Bucket = pb_S3Bucket r, S3Prefix = pb_S3Prefix r,
      GCSBucket = pb_GcsBucket r, GCSPrefix = pb_GcsPrefix r, VaultPath = pb_VaultPath r,
      dest_VaultAddress = pb_VaultAddress r, VaultKVMountName = pb_VaultKvMountName r,
      VaultKVVersion = pb_VaultKvVersion r, RecreationRule = creationRuleFromProto (pb_RecreationRule r),
      dest_OmitExtensions = pb_OmitExtensions r\<rparr>"

definition indent_or :: "int \<Rightarrow> int option \<Rightarrow> int" where
  "indent_or present i = (case i of None \<Rightarrow> present | Some n \<Rightarrow> n)"

definition applyStoresConfig :: "StoresConfig \<Rightarrow> pb_StoresConfig option \<Rightarrow> StoresConfig" where
  "applyStoresConfig dst pb =
     (case pb of None \<Rightarrow> dst
      | Some p \<Rightarrow> \<lparr>JSON_Indent = indent_or (JSON_Indent dst) (pb_Json_Indent p),
          JSONBinary_Indent = indent_or (JSONBinary_Indent dst) (pb_JsonBinary_Indent p),
          YAML_Indent = indent_or (YAML_Indent dst) (pb_Yaml_Indent p)\<rparr>)"

definition configFile_from :: "StoresConfig \<Rightarrow> pb_ConfigFile \<Rightarrow> configFile" where
  "configFile_from defaults pb =
     \<lparr>CreationRules = map creationRuleFromProto (pb_CreationRules pb),
      DestinationRules = map destinationRuleFromProto (pb_DestinationRules pb),
      Stores = applyStoresConfig defaults (pb_Stores pb)\<rparr>"

section \<open>The key groups of a rule\<close>

record 'i config_env =
  age_of :: "'i age_env"
  fetch_version :: "string \<Rightarrow> string \<Rightarrow> string option"
  parse_url :: "string \<Rightarrow> (string \<times> string \<times> string) option"
  key_clock :: gotime
  regexp_match :: "string \<Rightarrow> string \<Rightarrow> bool option"
  abs_dir :: "string \<Rightarrow> string option"
  pxf_config :: "string \<Rightarrow> pb_ConfigFile option"

datatype config_error =
    AgeKeyError age_fault
  | InvalidKey key_error
  | TooManyRules
  | NoMatchingCreationRule
  | NoMatchingDestination
  | CannotCompileRegexp string
  | MoreThanOneDestination
  | NoConfigDir
  | CannotReadConfig
  | CannotLoadConfig
  | PanicNilVaultKey

definition key_result :: "key_error + 'a \<Rightarrow> config_error + 'a" where
  "key_result r = map_sum InvalidKey id r"

definition age_result :: "age_fault + 'a \<Rightarrow> config_error + 'a" where
  "age_result r = map_sum AgeKeyError id r"

definition NewMasterKeyWithProfile :: "gotime \<Rightarrow> string \<Rightarrow> string \<Rightarrow> kms_context \<Rightarrow> string \<Rightarrow> kms_key" where
  "NewMasterKeyWithProfile now arn role context awsProfile =
     \<lparr>Arn = arn, Role = role, kms_enc = '''', kms_created = utc now, EncryptionContext = context,
      AwsProfile = awsProfile\<rparr>"

text \<open>
  Keys are the same when their type and their name are. A group may hold the nil key that an empty
  Vault URI gives, \<^const>\<open>None\<close> here; asking it for its name panics.
\<close>

definition key_identity :: "master_key \<Rightarrow> string \<times> string" where
  "key_identity k = (TypeToIdentifier k, ToString k)"

fun dedup_keys :: "(string \<times> string) list \<Rightarrow> master_key list \<Rightarrow> master_key list" where
  "dedup_keys unique [] = []"
| "dedup_keys unique (v # vs) =
     (if key_identity v \<in> set unique then dedup_keys unique vs else v # dedup_keys (key_identity v # unique) vs)"

definition deduplicateKeygroup :: "master_key option list \<Rightarrow> config_error + master_key list" where
  "deduplicateKeygroup grp =
     (if None \<in> set grp then Inl PanicNilVaultKey else Inr (dedup_keys [] (map the grp)))"

fun extractMasterKeys :: "'i config_env \<Rightarrow> keyGroup \<Rightarrow> config_error + master_key list" where
  "extractMasterKeys E (KeyGroup merge kms gcp hckms azure vault age pgp) =
     bindE (mapE (extractMasterKeys E) merge) (\<lambda>merged.
     bindE (mapE (\<lambda>k. age_result (MasterKeysFromRecipients (age_of E) k)) age) (\<lambda>ageKeys.
     bindE (mapE (\<lambda>k. key_result (hckms_NewMasterKey (key_clock E) k)) hckms) (\<lambda>hckmsKeys.
     bindE (mapE (\<lambda>k. key_result (NewMasterKeyWithOptionalVersion (fetch_version E) (key_clock E)
                         (rule_VaultURL k) (rule_Key k) (rule_Version k))) azure) (\<lambda>azureKeys.
     bindE (mapE (\<lambda>k. key_result (NewMasterKeyFromURI (parse_url E) (key_clock E) k)) vault) (\<lambda>vaultKeys.
       deduplicateKeygroup
         (map Some (concat merged @ map AGE (concat ageKeys)
            @ map (\<lambda>k. PGP (NewMasterKeyFromFingerprint (key_clock E) k)) pgp
            @ map (\<lambda>k. KMS (NewMasterKeyWithProfile (key_clock E) (rule_Arn k) (rule_Role k) (rule_Context k) (rule_AwsProfile k))) kms
            @ map (\<lambda>k. GCPKMS (NewMasterKeyFromResourceID (key_clock E) k)) gcp
            @ map HCKMS hckmsKeys @ map AZKV azureKeys)
          @ map (map_option HCVAULT) vaultKeys))))))"

text \<open>The keys that a rule lists without groups form one group.\<close>

definition flat_group :: "'i config_env \<Rightarrow> creationRule \<Rightarrow> kms_context \<Rightarrow> config_error + master_key list" where
  "flat_group E cRule kmsEncryptionContext =
     bindE (if rule_Age cRule = [] then Inr []
            else age_result (MasterKeysFromRecipients (age_of E) (str_join '','' (rule_Age cRule)))) (\<lambda>ageKeys.
     bindE (key_result (NewMasterKeyFromKeyIDString (key_clock E) (str_join '','' (rule_HCKms cRule)))) (\<lambda>hckmsKeys.
     bindE (key_result (MasterKeysFromURLs (fetch_version E) (key_clock E) (str_join '','' (rule_AzureKeyVault cRule)))) (\<lambda>azureKeys.
     bindE (key_result (NewMasterKeysFromURIs (parse_url E) (key_clock E) (str_join '','' (rule_VaultURI cRule)))) (\<lambda>vaultKeys.
       Inr (map AGE ageKeys
         @ map PGP (MasterKeysFromFingerprintString (key_clock E) (str_join '','' (rule_PGP cRule)))
         @ map KMS (MasterKeysFromArnString (key_clock E) (str_join '','' (rule_KMS cRule)) kmsEncryptionContext (rule_Profile cRule))
         @ map GCPKMS (MasterKeysFromResourceIDString (key_clock E) (str_join '','' (rule_GCPKMS cRule)))
         @ map HCKMS hckmsKeys @ map AZKV azureKeys @ map HCVAULT (List.map_filter id vaultKeys))))))"

definition getKeyGroupsFromCreationRule ::
    "'i config_env \<Rightarrow> creationRule \<Rightarrow> kms_context \<Rightarrow> config_error + master_key list list" where
  "getKeyGroupsFromCreationRule E cRule kmsEncryptionContext =
     (if rule_KeyGroups cRule \<noteq> [] then mapE (extractMasterKeys E) (rule_KeyGroups cRule)
      else bindE (flat_group E cRule kmsEncryptionContext) (\<lambda>grp. Inr [grp]))"

section \<open>The rule for a file\<close>

definition rule_crypt_count :: "creationRule \<Rightarrow> nat" where
  "rule_crypt_count rule = length (filter (\<lambda>s. s \<noteq> '''')
     [rule_UnencryptedSuffix rule, rule_EncryptedSuffix rule, rule_UnencryptedRegex rule, rule_EncryptedRegex rule,
      rule_UnencryptedCommentRegex rule, rule_EncryptedCommentRegex rule])"

definition configFromRule :: "'i config_env \<Rightarrow> creationRule \<Rightarrow> kms_context \<Rightarrow> config_error + Config" where
  "configFromRule E rule kmsEncryptionContext =
     (if rule_crypt_count rule > 1 then Inl TooManyRules
      else bindE (getKeyGroupsFromCreationRule E rule kmsEncryptionContext) (\<lambda>groups.
        Inr \<lparr>conf_KeyGroups = groups, conf_ShamirThreshold = rule_ShamirThreshold rule,
          conf_UnencryptedSuffix = rule_UnencryptedSuffix rule, conf_EncryptedSuffix = rule_EncryptedSuffix rule,
          conf_UnencryptedRegex = rule_UnencryptedRegex rule, conf_EncryptedRegex = rule_EncryptedRegex rule,
          conf_UnencryptedCommentRegex = rule_UnencryptedCommentRegex rule,
          conf_EncryptedCommentRegex = rule_EncryptedCommentRegex rule,
          conf_MACOnlyEncrypted = rule_MACOnlyEncrypted rule, conf_Destination = None, conf_OmitExtensions = False\<rparr>))"

text \<open>Of the destination rules the first is taken whose regular expression is empty or compiles and matches.\<close>

definition NewVaultDestination :: "string \<Rightarrow> string \<Rightarrow> string \<Rightarrow> int \<Rightarrow> destination" where
  "NewVaultDestination vaultAddress vaultPath kvMountName kvVersion =
     (let slash = (\<lambda>s. if has_suffix s ''/'' then s else s @ ''/'')
      in VaultDestination vaultAddress (slash vaultPath) (slash (if kvMountName = '''' then ''secret/'' else kvMountName))
           (if kvVersion \<noteq> 1 \<and> kvVersion \<noteq> 2 then 2 else kvVersion))"

definition rule_destination :: "destinationRule \<Rightarrow> destination option" where
  "rule_destination d =
     (if VaultPath d \<noteq> ''''
      then Some (NewVaultDestination (dest_VaultAddress d) (VaultPath d) (VaultKVMountName d) (VaultKVVersion d))
      else if GCSBucket d \<noteq> '''' then Some (GCSDestination (GCSBucket d) (GCSPrefix d))
      else if S3Bucket d \<noteq> '''' then Some (S3Destination (S3Bucket d) (S3Prefix d))
      else None)"

definition parseDestinationRuleForFile ::
    "'i config_env \<Rightarrow> configFile \<Rightarrow> string \<Rightarrow> kms_context \<Rightarrow> config_error + Config" where
  "parseDestinationRuleForFile E conf filePath kmsEncryptionContext =
     (case find (\<lambda>r. dest_PathRegex r = '''' \<or> regexp_match E (dest_PathRegex r) filePath = Some True) (DestinationRules conf) of
        None \<Rightarrow> Inl NoMatchingDestination
      | Some d \<Rightarrow>
          if length (filter (\<lambda>s. s \<noteq> '''') [S3Bucket d, GCSBucket d, VaultPath d]) > 1 then Inl MoreThanOneDestination
          else bindE (configFromRule E (RecreationRule d) kmsEncryptionContext) (\<lambda>config.
            Inr (config\<lparr>conf_Destination := rule_destination d, conf_OmitExtensions := dest_OmitExtensions d\<rparr>)))"

text \<open>Of the creation rules the first is taken that matches; one that does not compile stops the search.\<close>

fun creation_rule_for :: "'i config_env \<Rightarrow> string \<Rightarrow> creationRule list \<Rightarrow> config_error + creationRule option" where
  "creation_rule_for E filePath [] = Inr None"
| "creation_rule_for E filePath (r # rules) =
     (if PathRegex r = '''' then Inr (Some r)
      else case regexp_match E (PathRegex r) filePath of
          None \<Rightarrow> Inl (CannotCompileRegexp (PathRegex r))
        | Some True \<Rightarrow> Inr (Some r)
        | Some False \<Rightarrow> creation_rule_for E filePath rules)"

text \<open>\<open>abs_dir\<close> is the absolute directory of the configuration file.\<close>

definition parseCreationRuleForFile ::
    "'i config_env \<Rightarrow> configFile \<Rightarrow> string \<Rightarrow> string \<Rightarrow> kms_context \<Rightarrow> config_error + Config option" where
  "parseCreationRuleForFile E conf confPath filePath kmsEncryptionContext =
     (if CreationRules conf = [] then Inr None
      else case abs_dir E confPath of None \<Rightarrow> Inl NoConfigDir
        | Some configDir \<Rightarrow>
            bindE (creation_rule_for E (trim_prefix filePath (configDir @ ''/'')) (CreationRules conf)) (\<lambda>rule.
              case rule of None \<Rightarrow> Inl NoMatchingCreationRule
              | Some r \<Rightarrow> bindE (configFromRule E r kmsEncryptionContext) (\<lambda>config. Inr (Some config))))"

definition loadConfigFile :: "'i config_env \<Rightarrow> string \<Rightarrow> config_error + configFile" where
  "loadConfigFile E confPath =
     (case read_file (age_of E) confPath of None \<Rightarrow> Inl CannotReadConfig
      | Some bytes \<Rightarrow>
          (case pxf_config E bytes of None \<Rightarrow> Inl CannotLoadConfig
           | Some pb \<Rightarrow> Inr (configFile_from NewStoresConfig pb)))"

definition LoadCreationRuleForFile ::
    "'i config_env \<Rightarrow> string \<Rightarrow> string \<Rightarrow> kms_context \<Rightarrow> config_error + Config option" where
  "LoadCreationRuleForFile E confPath filePath kmsEncryptionContext =
     bindE (loadConfigFile E confPath) (\<lambda>conf. parseCreationRuleForFile E conf confPath filePath kmsEncryptionContext)"

definition LoadDestinationRuleForFile ::
    "'i config_env \<Rightarrow> string \<Rightarrow> string \<Rightarrow> kms_context \<Rightarrow> config_error + Config" where
  "LoadDestinationRuleForFile E confPath filePath kmsEncryptionContext =
     bindE (loadConfigFile E confPath) (\<lambda>conf. parseDestinationRuleForFile E conf filePath kmsEncryptionContext)"

definition LoadStoresConfig :: "'i config_env \<Rightarrow> string \<Rightarrow> config_error + StoresConfig" where
  "LoadStoresConfig E confPath = bindE (loadConfigFile E confPath) (\<lambda>conf. Inr (Stores conf))"

end
