(* ===== verification/Options.thy ===== *)
theory Options
  imports Key_Commands Config
begin

text \<open>
  What the command line of \<open>src/cmd/sops/main.go\<close> makes of its flags: the rules, the key groups and the
  threshold for a new file, the keys that \<open>rotate\<close> adds and removes, paths into a document, the values
  for \<open>set\<close>, the decryption order and the exit codes.

  The flags are functions from their names, \<^const>\<open>None\<close> an integer that is not set. Warnings and other
  messages are left out, as is the dialling of remote key services.
\<close>

record cli =
  c_String :: "string \<Rightarrow> string"
  c_Bool :: "string \<Rightarrow> bool"
  c_Int :: "string \<Rightarrow> int"
  c_GlobalString :: "string \<Rightarrow> string"
  c_GlobalBool :: "string \<Rightarrow> bool"
  c_GlobalInt :: "string \<Rightarrow> int option"

datatype option_error =
    ConfigFailed config_error
  | ConflictingParameters
  | InvalidKMSEncryptionContextFormat
  | NoConfigAndNoKeys "config_error option"
  | DuplicateDecryptionKeyType string
  | InvalidSetFormat
  | NotClosed string
  | NotANumber num_error
  | PanicInOptions

fun option_exit_code :: "option_error \<Rightarrow> nat" where
  "option_exit_code ConflictingParameters = 8"
| "option_exit_code InvalidKMSEncryptionContextFormat = 6"
| "option_exit_code (DuplicateDecryptionKeyType v) = 112"
| "option_exit_code InvalidSetFormat = 7"
| "option_exit_code _ = 1"

text \<open>\<open>toExitError\<close>: an error that carries an exit code keeps it, any other gets the generic one.\<close>

definition toExitError :: "('e, 'c) failure \<Rightarrow> nat" where
  "toExitError e = (case exit_code e of Some n \<Rightarrow> n | None \<Rightarrow> 1)"

definition config_result :: "config_error + 'a \<Rightarrow> option_error + 'a" where
  "config_result r = map_sum ConfigFailed id r"

section \<open>The configuration of a file\<close>

definition findConfigFile :: "(string \<Rightarrow> bool) \<Rightarrow> string option" where
  "findConfigFile stat = FindConfigFile stat ''.''"

text \<open>Without \<open>--config\<close> a file that cannot be found is no error.\<close>

definition loadConfig ::
    "cli \<Rightarrow> 'i config_env \<Rightarrow> (string \<Rightarrow> bool) \<Rightarrow> string \<Rightarrow> kms_context \<Rightarrow> config_error + Config option" where
  "loadConfig c E stat path kmsEncryptionContext =
     (if c_GlobalString c ''config'' \<noteq> ''''
      then LoadCreationRuleForFile E (c_GlobalString c ''config'') path kmsEncryptionContext
      else case findConfigFile stat of
          None \<Rightarrow> Inr None
        | Some configPath \<Rightarrow> LoadCreationRuleForFile E configPath path kmsEncryptionContext)"

definition loadStoresConfig :: "cli \<Rightarrow> 'i config_env \<Rightarrow> (string \<Rightarrow> bool) \<Rightarrow> config_error + StoresConfig" where
  "loadStoresConfig c E stat =
     (if c_GlobalString c ''config'' \<noteq> '''' then LoadStoresConfig E (c_GlobalString c ''config'')
      else case findConfigFile stat of None \<Rightarrow> Inr NewStoresConfig | Some configPath \<Rightarrow> LoadStoresConfig E configPath)"

text \<open>The stores of a command; \<open>constructors\<close> makes those of every format from their configuration. The flag
  \<open>--indent\<close> overrides every indent of the output.\<close>

definition inputStore ::
    "cli \<Rightarrow> 'i config_env \<Rightarrow> (string \<Rightarrow> bool) \<Rightarrow> (StoresConfig \<Rightarrow> (Format \<times> 'e store) list) \<Rightarrow> string
      \<Rightarrow> config_error + 'e store option" where
  "inputStore context E stat constructors path =
     bindE (loadStoresConfig context E stat) (\<lambda>storesConf.
       Inr (DefaultStoreForPathOrFormat (constructors storesConf) path (c_String context ''input-type'')))"

definition outputStore ::
    "cli \<Rightarrow> 'i config_env \<Rightarrow> (string \<Rightarrow> bool) \<Rightarrow> (StoresConfig \<Rightarrow> (Format \<times> 'e store) list) \<Rightarrow> string
      \<Rightarrow> config_error + 'e store option" where
  "outputStore context E stat constructors path =
     bindE (loadStoresConfig context E stat) (\<lambda>storesConf0.
       let storesConf = (case c_GlobalInt context ''indent'' of
             None \<Rightarrow> storesConf0
           | Some indent \<Rightarrow> \<lparr>JSON_Indent = indent, JSONBinary_Indent = indent, YAML_Indent = indent\<rparr>)
       in Inr (DefaultStoreForPathOrFormat (constructors storesConf) path (c_String context ''output-type'')))"

section \<open>Key groups\<close>

text \<open>The recipients for age: the flag, else the key named by a flag, else the default of the key file.\<close>

definition age_recipients :: "cli \<Rightarrow> 'i age_env \<Rightarrow> age_fault + string" where
  "age_recipients c A =
     (if c_String c ''age'' \<noteq> '''' then Inr (c_String c ''age'')
      else bindE (if c_String c ''age-key-name'' \<noteq> ''''
                  then RecipientFromKeyFileByName A (c_String c ''age-key-name'') else Inr '''') (\<lambda>r.
        if r \<noteq> '''' then Inr r else DefaultRecipientFromKeyFile A))"

definition keyGroups ::
    "cli \<Rightarrow> 'i config_env \<Rightarrow> (string \<Rightarrow> bool) \<Rightarrow> string \<Rightarrow> Config option \<Rightarrow> option_error + master_key list list" where
  "keyGroups c E stat path optionalConfig =
     (let kmsEncryptionContext = ParseKMSContext (ContextString (c_String c ''encryption-context''));
          now = key_clock E
      in if c_String c ''encryption-context'' \<noteq> '''' \<and> kmsEncryptionContext = None
         then Inl InvalidKMSEncryptionContextFormat
         else
           bindE (config_result (key_result (NewMasterKeyFromKeyIDString now (c_String c ''hckms'')))) (\<lambda>hckmsKeys.
           bindE (config_result (key_result (MasterKeysFromURLs (fetch_version E) now (c_String c ''azure-kv'')))) (\<lambda>azureKeys.
           bindE (config_result (key_result (NewMasterKeysFromURIs (parse_url E) now (c_String c ''hc-vault-transit'')))) (\<lambda>vaultKeys.
           bindE (config_result (age_result (age_recipients c (age_of E)))) (\<lambda>ageRecipients.
           bindE (config_result (age_result (MasterKeysFromRecipients (age_of E) ageRecipients))) (\<lambda>ageKeys.
             if c_String c ''kms'' = '''' \<and> c_String c ''pgp'' = '''' \<and> c_String c ''gcp-kms'' = ''''
                \<and> c_String c ''hckms'' = '''' \<and> c_String c ''azure-kv'' = '''' \<and> c_String c ''hc-vault-transit'' = ''''
                \<and> ageRecipients = ''''
             then (case optionalConfig of
                     Some conf \<Rightarrow> Inr (conf_KeyGroups conf)
                   | None \<Rightarrow>
                       (case loadConfig c E stat path kmsEncryptionContext of
                          Inl e \<Rightarrow> Inl (NoConfigAndNoKeys (Some e))
                        | Inr None \<Rightarrow> Inl (NoConfigAndNoKeys None)
                        | Inr (Some conf) \<Rightarrow> Inr (conf_KeyGroups conf)))
             else Inr [map KMS (MasterKeysFromArnString now (c_String c ''kms'') kmsEncryptionContext (c_String c ''aws-profile''))
                    @ map GCPKMS (MasterKeysFromResourceIDString now (c_String c ''gcp-kms''))
                    @ map HCKMS hckmsKeys @ map AZKV azureKeys
                    @ map PGP (MasterKeysFromFingerprintString now (c_String c ''pgp''))
                    @ map HCVAULT (List.map_filter id vaultKeys) @ map AGE ageKeys]))))))"

definition shamirThreshold ::
    "cli \<Rightarrow> 'i config_env \<Rightarrow> (string \<Rightarrow> bool) \<Rightarrow> string \<Rightarrow> Config option \<Rightarrow> option_error + int" where
  "shamirThreshold c E stat path optionalConfig =
     (if c_Int c ''shamir-secret-sharing-threshold'' \<noteq> 0 then Inr (c_Int c ''shamir-secret-sharing-threshold'')
      else bindE (case optionalConfig of Some conf \<Rightarrow> Inr (Some conf)
                  | None \<Rightarrow> config_result (loadConfig c E stat path None)) (\<lambda>conf.
        case conf of None \<Rightarrow> Inr 0 | Some conf \<Rightarrow> Inr (conf_ShamirThreshold conf)))"

section \<open>The rules for a new file\<close>

text \<open>A flag, or what the configuration has when the flag is empty.\<close>

definition flag_or :: "string \<Rightarrow> Config option \<Rightarrow> (Config \<Rightarrow> string) \<Rightarrow> string" where
  "flag_or flag conf field = (case conf of None \<Rightarrow> flag | Some cf \<Rightarrow> if flag = '''' then field cf else flag)"

definition getEncryptConfig ::
    "cli \<Rightarrow> 'i config_env \<Rightarrow> (string \<Rightarrow> bool) \<Rightarrow> string \<Rightarrow> bool \<Rightarrow> Config option \<Rightarrow> option_error + encryptConfig" where
  "getEncryptConfig c E stat fileName isSingleValueStore optionalConfig0 =
     bindE (case optionalConfig0 of Some conf \<Rightarrow> Inr (Some conf)
            | None \<Rightarrow> config_result (loadConfig c E stat fileName None)) (\<lambda>optionalConfig.
       let rule = (\<lambda>flag field. if isSingleValueStore then '''' else flag_or (c_String c flag) optionalConfig field);
           unencryptedSuffix = rule ''unencrypted-suffix'' conf_UnencryptedSuffix;
           encryptedSuffix = rule ''encrypted-suffix'' conf_EncryptedSuffix;
           encryptedRegex = rule ''encrypted-regex'' conf_EncryptedRegex;
           unencryptedRegex = rule ''unencrypted-regex'' conf_UnencryptedRegex;
           encryptedCommentRegex = rule ''encrypted-comment-regex'' conf_EncryptedCommentRegex;
           unencryptedCommentRegex = rule ''unencrypted-comment-regex'' conf_UnencryptedCommentRegex;
           macOnlyEncrypted = (\<not> isSingleValueStore \<and> (c_GlobalBool c ''mac-only-encrypted''
             \<or> (case optionalConfig of None \<Rightarrow> False | Some conf \<Rightarrow> conf_MACOnlyEncrypted conf)));
           cryptRuleCount = length (filter (\<lambda>s. s \<noteq> '''') [unencryptedSuffix, encryptedSuffix, encryptedRegex,
             unencryptedRegex, encryptedCommentRegex, unencryptedCommentRegex])
       in if cryptRuleCount > 1 then Inl ConflictingParameters
          else
            bindE (keyGroups c E stat fileName optionalConfig) (\<lambda>groups.
            bindE (shamirThreshold c E stat fileName optionalConfig) (\<lambda>threshold.
              Inr \<lparr>config_UnencryptedSuffix =
                     (if cryptRuleCount = 0 \<and> \<not> isSingleValueStore then DefaultUnencryptedSuffix else unencryptedSuffix),
                   config_EncryptedSuffix = encryptedSuffix, config_UnencryptedRegex = unencryptedRegex,
                   config_EncryptedRegex = encryptedRegex, config_UnencryptedCommentRegex = unencryptedCommentRegex,
                   config_EncryptedCommentRegex = encryptedCommentRegex, config_MACOnlyEncrypted = macOnlyEncrypted,
                   config_KeyGroups = groups, config_GroupThreshold = threshold\<rparr>)))"

section \<open>The keys for rotate\<close>

text \<open>The keys given by the flags with a prefix.\<close>

definition getMasterKeys :: "cli \<Rightarrow> 'i config_env \<Rightarrow> kms_context \<Rightarrow> string \<Rightarrow> option_error + master_key list" where
  "getMasterKeys c E kmsEncryptionContext pre =
     (let now = key_clock E; flag = (\<lambda>name. c_String c (pre @ name))
      in bindE (config_result (key_result (NewMasterKeyFromKeyIDString now (flag ''hckms'')))) (\<lambda>hckmsKeys.
         bindE (config_result (key_result (MasterKeysFromURLs (fetch_version E) now (flag ''azure-kv'')))) (\<lambda>azureKeys.
         bindE (config_result (key_result (NewMasterKeysFromURIs (parse_url E) now (flag ''hc-vault-transit'')))) (\<lambda>vaultKeys.
         bindE (config_result (age_result (MasterKeysFromRecipients (age_of E) (flag ''age'')))) (\<lambda>ageKeys.
           Inr (map KMS (MasterKeysFromArnString now (flag ''kms'') kmsEncryptionContext (c_String c ''aws-profile''))
             @ map PGP (MasterKeysFromFingerprintString now (flag ''pgp''))
             @ map GCPKMS (MasterKeysFromResourceIDString now (flag ''gcp-kms''))
             @ map HCKMS hckmsKeys @ map AZKV azureKeys @ map HCVAULT (List.map_filter id vaultKeys)
             @ map AGE ageKeys))))))"

text \<open>Whether the MAC is ignored, the keys to add and the keys to remove.\<close>

definition getRotateOpts :: "cli \<Rightarrow> 'i config_env \<Rightarrow> option_error + bool \<times> master_key list \<times> master_key list" where
  "getRotateOpts c E =
     (let kmsEncryptionContext = ParseKMSContext (ContextString (c_String c ''encryption-context''))
      in bindE (getMasterKeys c E kmsEncryptionContext ''add-'') (\<lambda>addMasterKeys.
         bindE (getMasterKeys c E kmsEncryptionContext ''rm-'') (\<lambda>rmMasterKeys.
           Inr (c_Bool c ''ignore-mac'', addMasterKeys, rmMasterKeys))))"

section \<open>Paths, values and the decryption order\<close>

text \<open>One component of a path, between an opening bracket and the next.\<close>

definition parse_component :: "string \<Rightarrow> option_error + gkey" where
  "parse_component component =
     (if last component \<noteq> CHR '']'' then Inl (NotClosed component)
      else
        let inner = butlast component
        in if inner = [] then Inl PanicInOptions
           else if hd inner = CHR 0x22 \<or> hd inner = CHR 0x27
           then (if length inner < 2 then Inl PanicInOptions else Inr (KStr (butlast (tl inner))))
           else (case atoi inner of Inl e \<Rightarrow> Inl (NotANumber e) | Inr i \<Rightarrow> Inr (KInt i)))"

definition parseTreePath :: "string \<Rightarrow> option_error + gkey list" where
  "parseTreePath arg = mapE parse_component (filter (\<lambda>component. component \<noteq> '''') (str_split CHR ''['' arg))"

text \<open>
  A value for \<open>set\<close>: \<open>decoded\<close> is what \<open>encoding/json\<close> makes of a text, a container being read again by
  the JSON store, \<open>load_json\<close>, of which the first document counts.
\<close>

datatype json_decoded = JsonInvalid | JsonScalar gval | JsonContainer

definition jsonValueToTreeInsertableValue ::
    "(string \<Rightarrow> json_decoded) \<Rightarrow> (string \<Rightarrow> TreeBranches option) \<Rightarrow> string \<Rightarrow> option_error + gval" where
  "jsonValueToTreeInsertableValue decoded load_json jsonValue =
     (case decoded jsonValue of
        JsonInvalid \<Rightarrow> Inl InvalidSetFormat
      | JsonScalar v \<Rightarrow> Inr v
      | JsonContainer \<Rightarrow>
          (case load_json jsonValue of
             None \<Rightarrow> Inl InvalidSetFormat
           | Some [] \<Rightarrow> Inl PanicInOptions
           | Some (b # _) \<Rightarrow> Inr (GBranch b)))"

text \<open>The argument of \<open>--set\<close> is split after the first closing bracket that a space follows.\<close>

definition extractSetArguments ::
    "(string \<Rightarrow> json_decoded) \<Rightarrow> (string \<Rightarrow> TreeBranches option) \<Rightarrow> string \<Rightarrow> option_error + gkey list \<times> gval" where
  "extractSetArguments decoded load_json set_arg =
     (case str_index set_arg ''] '' of
        None \<Rightarrow> Inl InvalidSetFormat
      | Some i \<Rightarrow>
          bindE (jsonValueToTreeInsertableValue decoded load_json (drop (i + 2) set_arg)) (\<lambda>valueToInsert.
            case parseTreePath (take (Suc i) set_arg) of
              Inl PanicInOptions \<Rightarrow> Inl PanicInOptions
            | Inl _ \<Rightarrow> Inl InvalidSetFormat
            | Inr path \<Rightarrow> Inr (path, valueToInsert)))"

definition DefaultDecryptionOrder :: "string list" where
  "DefaultDecryptionOrder = [''age'', ''pgp'']"

fun check_order :: "string list \<Rightarrow> string list \<Rightarrow> option_error + unit" where
  "check_order unique [] = Inr ()"
| "check_order unique (v # vs) =
     (if v \<in> set unique then Inl (DuplicateDecryptionKeyType v) else check_order (v # unique) vs)"

definition decryptionOrder :: "string \<Rightarrow> option_error + string list" where
  "decryptionOrder order =
     (if order = '''' then Inr DefaultDecryptionOrder
      else let orderList = str_split CHR '','' order
        in bindE (check_order [] orderList) (\<lambda>_. Inr orderList))"

end
