(* ===== verification/Publish.thy ===== *)
theory Publish
  imports Options
begin

text \<open>
  The command \<open>publish\<close>, \<open>src/cmd/sops/subcommand/publish/publish.go\<close>, up to the upload. The paths that
  \<open>filepath\<close> computes and the answer of the user are arguments; the destination gets the name of the
  file and its contents, or the document as a map in the case of Vault.
\<close>

datatype 'e publish_error =
    NoDestination
  | ConfigError config_error
  | NoRelativePath
  | CommandFailed 'e
  | CannotEmitMap tree_error
  | CannotReadSource
  | NoConfirmation
  | PublicationCanceled
  | PanicNoKeyGroup

datatype publication =
    Upload destination string string
  | UploadUnencrypted destination string "(string \<times> emitted) list"
  | NotPublished

text \<open>\<open>filepath.Split\<close> and \<open>filepath.Ext\<close>.\<close>

definition file_name :: "string \<Rightarrow> string" where
  "file_name path = rev (takeWhile (\<lambda>c. c \<noteq> CHR ''/'') (rev path))"

definition file_ext :: "string \<Rightarrow> string" where
  "file_ext path =
     (let name = file_name path
      in if CHR ''.'' \<in> set name then CHR ''.'' # rev (takeWhile (\<lambda>c. c \<noteq> CHR ''.'') (rev name)) else '''')"

definition trim_suffix :: "string \<Rightarrow> string \<Rightarrow> string" where
  "trim_suffix s p = (if has_suffix s p then take (length s - length p) s else s)"

text \<open>The metadata of the published file.\<close>

definition published_metadata :: "Config \<Rightarrow> Metadata" where
  "published_metadata conf =
     \<lparr>LastModified = zero_time, UnencryptedSuffix = conf_UnencryptedSuffix conf,
      EncryptedSuffix = conf_EncryptedSuffix conf, UnencryptedRegex = '''', EncryptedRegex = '''',
      UnencryptedCommentRegex = '''', EncryptedCommentRegex = '''', MessageAuthenticationCode = '''',
      MACOnlyEncrypted = False, SopsVersion = sops_Version, KeyGroups = conf_KeyGroups conf,
      ShamirThreshold = conf_ShamirThreshold conf, DataKey = None\<rparr>"

definition lift_failure :: "('e, 'c) failure + 'a \<Rightarrow> ('e, 'c) failure publish_error + 'a" where
  "lift_failure r = map_sum CommandFailed id r"

text \<open>The encrypted contents for S3 and GCS: under new keys if the rule has any, else the file as it is.\<close>

definition published_contents ::
    "('w, 'c, 's) cmd_env \<Rightarrow> 'e store \<Rightarrow> Config \<Rightarrow> string option \<Rightarrow> Tree \<Rightarrow> ('w, 's) run
      \<Rightarrow> ('e, 'c) failure publish_error + string \<times> ('w, 's) run" where
  "published_contents S store conf fileBytes tree st =
     (case conf_KeyGroups conf of
        [] \<Rightarrow> Inl PanicNoKeyGroup
      | [] # _ \<Rightarrow> (case fileBytes of None \<Rightarrow> Inl CannotReadSource | Some contents \<Rightarrow> Inr (contents, st))
      | _ \<Rightarrow>
          bindE (lift_failure (DecryptTree S False tree st)) (\<lambda>(_, tree1, st1).
          bindE (lift_failure (GenerateTreeKey S (tree1\<lparr>TreeMetadata := published_metadata conf\<rparr>) st1)) (\<lambda>(dataKey, tree2, st2).
          bindE (lift_failure (EncryptTree S dataKey tree2 st2)) (\<lambda>(tree3, st3).
          bindE (lift_failure (marshal store tree3)) (\<lambda>contents. Inr (contents, st3))))))"

definition published_data ::
    "('w, 'c, 's) cmd_env \<Rightarrow> Tree \<Rightarrow> ('w, 's) run
      \<Rightarrow> ('e, 'c) failure publish_error + (string \<times> emitted) list \<times> ('w, 's) run" where
  "published_data S tree st =
     bindE (lift_failure (DecryptTree S False tree st)) (\<lambda>(_, tree1, st1).
       case EmitAsMap (Branches tree1) of Inl e \<Rightarrow> Inl (CannotEmitMap e) | Inr m \<Rightarrow> Inr (m, st1))"

definition confirmed ::
    "('w \<Rightarrow> bool option \<times> 'w) option \<Rightarrow> bool \<Rightarrow> 'w \<Rightarrow> 'e publish_error + bool \<times> 'w" where
  "confirmed Interactive Recursive w =
     (case Interactive of
        None \<Rightarrow> Inr (True, w)
      | Some ask \<Rightarrow>
          (case ask w of
             (None, _) \<Rightarrow> Inl NoConfirmation
           | (Some True, w1) \<Rightarrow> Inr (True, w1)
           | (Some False, w1) \<Rightarrow> if Recursive then Inr (False, w1) else Inl PublicationCanceled))"

text \<open>\<open>relPath\<close> is the path below the root of a recursive run, \<open>path\<close> the absolute path.\<close>

definition publish_Run ::
    "('w, 'c, 's) cmd_env \<Rightarrow> 'e store \<Rightarrow> config_error + Config \<Rightarrow> ('w \<Rightarrow> bool option \<times> 'w) option \<Rightarrow> bool \<Rightarrow> bool
      \<Rightarrow> string option \<Rightarrow> string option \<Rightarrow> string \<Rightarrow> ('w, 's) run
      \<Rightarrow> ('e, 'c) failure publish_error + publication \<times> ('w, 's) run" where
  "publish_Run S store config Interactive Recursive OmitExtensions relPath fileBytes path st =
     bindE (map_sum ConfigError id config) (\<lambda>conf.
       case conf_Destination conf of
         None \<Rightarrow> Inl NoDestination
       | Some dest \<Rightarrow>
           bindE (if Recursive then (case relPath of None \<Rightarrow> Inl NoRelativePath | Some p \<Rightarrow> Inr p)
                  else Inr (file_name path)) (\<lambda>destinationPath0.
           let destinationPath = (if OmitExtensions \<or> conf_OmitExtensions conf
                                  then trim_suffix destinationPath0 (file_ext path) else destinationPath0)
           in bindE (lift_failure (LoadEncryptedFile S store fileBytes (Some path) st)) (\<lambda>(tree, st1).
              bindE (case dest of
                       VaultDestination _ _ _ _ \<Rightarrow>
                         bindE (published_data S tree st1) (\<lambda>(m, st2). Inr (UploadUnencrypted dest destinationPath m, st2))
                     | _ \<Rightarrow>
                         bindE (published_contents S store conf fileBytes tree st1) (\<lambda>(contents, st2).
                           Inr (Upload dest destinationPath contents, st2))) (\<lambda>(publication, st2).
              bindE (confirmed Interactive Recursive (world st2)) (\<lambda>(yes, w).
                Inr (if yes then publication else NotPublished, st2\<lparr>world := w\<rparr>))))))"

text \<open>Where a destination puts a file; \<open>default_address\<close> is the address of the Vault client.\<close>

definition secretsPath :: "string \<Rightarrow> string \<Rightarrow> int \<Rightarrow> string \<Rightarrow> string" where
  "secretsPath vaultPath kvMountName kvVersion fileName =
     (if kvVersion = 1 then kvMountName @ vaultPath @ fileName else kvMountName @ ''data/'' @ vaultPath @ fileName)"

fun destination_Path :: "string \<Rightarrow> destination \<Rightarrow> string \<Rightarrow> string" where
  "destination_Path default_address (S3Destination bucket pre) fileName = ''s3://'' @ bucket @ ''/'' @ pre @ fileName"
| "destination_Path default_address (GCSDestination bucket pre) fileName = ''gcs://'' @ bucket @ ''/'' @ pre @ fileName"
| "destination_Path default_address (VaultDestination vaultAddress vaultPath kvMountName kvVersion) fileName =
     (if vaultAddress \<noteq> '''' then vaultAddress else default_address) @ ''/v1/''
     @ secretsPath vaultPath kvMountName kvVersion fileName"

end
