(* ===== verification/Config_Correct.thy ===== *)
theory Config_Correct
  imports Config
begin

text \<open>
  The configuration: which file the search finds, which keys the groups of a rule have, and which rule
  of a file decides.
\<close>

section \<open>The search\<close>

text \<open>The directories that are searched, and the names of old configuration files in the first of them.\<close>

definition up :: "string \<Rightarrow> nat \<Rightarrow> string" where
  "up dir k = ((\<lambda>d. path_join [d, ''..'']) ^^ k) dir"

definition config_at :: "string \<Rightarrow> nat \<Rightarrow> string" where
  "config_at dir k = path_join [up dir k, configFileName]"

definition legacy_until :: "string \<Rightarrow> nat \<Rightarrow> string list" where
  "legacy_until dir k = concat (map (\<lambda>j. map (\<lambda>name. path_join [up dir j, name]) legacyConfigNames) [0..<k])"

lemma up_Suc: "up (path_join [dir, ''..'']) k = up dir (Suc k)"
  by (induction k) (simp_all add: up_def)

lemma find_upt_Suc: "find P [0..<Suc n] = (if P 0 then Some 0 else map_option Suc (find (\<lambda>k. P (Suc k)) [0..<n]))"
proof -
  have "find P (map Suc ks) = map_option Suc (find (\<lambda>k. P (Suc k)) ks)" for ks
    by (induction ks) auto
  then show ?thesis by (simp add: upt_rec [of 0 "Suc n"] map_Suc_upt [symmetric] del: upt_Suc)
qed

lemma find_append: "find P (xs @ ys) = (case find P xs of Some x \<Rightarrow> Some x | None \<Rightarrow> find P ys)"
  by (induction xs) auto

lemma legacy_until_Suc:
  "legacy_until dir (Suc k) = map (\<lambda>name. path_join [dir, name]) legacyConfigNames @ legacy_until (path_join [dir, ''..'']) k"
  by (simp add: legacy_until_def up_Suc upt_rec [of 0 "Suc k"] map_Suc_upt [symmetric] comp_def del: upt_Suc)
    (simp add: up_def)

definition first_legacy :: "(string \<Rightarrow> bool) \<Rightarrow> string option \<Rightarrow> string \<Rightarrow> nat \<Rightarrow> string option" where
  "first_legacy stat found dir k = (case found of Some l \<Rightarrow> Some l | None \<Rightarrow> find stat (legacy_until dir k))"

lemma lookup_config_eq:
  "lookup_config stat n dir found =
    (case find (\<lambda>k. stat (config_at dir k)) [0..<n] of
       Some k \<Rightarrow> (\<lparr>config_Path = config_at dir k,
         config_Warning = map_option (\<lambda>l. (l, Some (config_at dir k))) (first_legacy stat found dir k)\<rparr>, True)
     | None \<Rightarrow> (\<lparr>config_Path = '''', config_Warning = map_option (\<lambda>l. (l, None)) (first_legacy stat found dir n)\<rparr>, False))"
proof (induction n arbitrary: dir found)
  case 0
  then show ?case by (simp add: first_legacy_def legacy_until_def split: option.split)
next
  case (Suc n)
  let ?up = "path_join [dir, ''..'']"
  let ?found = "if found = None then find stat (map (\<lambda>name. path_join [dir, name]) legacyConfigNames) else found"
  have at: "config_at ?up k = config_at dir (Suc k)" for k by (simp add: config_at_def up_Suc)
  have leg: "first_legacy stat ?found ?up k = first_legacy stat found dir (Suc k)" for k
    by (auto simp: first_legacy_def legacy_until_Suc find_append split: option.splits)
  show ?case
  proof (cases "stat (config_at dir 0)")
    case True
    then have "stat (path_join [dir, configFileName])" by (simp add: config_at_def up_def)
    with True show ?thesis
      by (simp add: find_upt_Suc first_legacy_def legacy_until_def config_at_def up_def Let_def split: option.split del: upt_Suc)
  next
    case False
    then have "\<not> stat (path_join [dir, configFileName])" by (simp add: config_at_def up_def)
    then have "lookup_config stat (Suc n) dir found = lookup_config stat n ?up ?found"
      by (simp add: Let_def)
    also have "\<dots> = (case find (\<lambda>k. stat (config_at dir (Suc k))) [0..<n] of
       Some k \<Rightarrow> (\<lparr>config_Path = config_at dir (Suc k),
         config_Warning = map_option (\<lambda>l. (l, Some (config_at dir (Suc k)))) (first_legacy stat found dir (Suc k))\<rparr>, True)
     | None \<Rightarrow> (\<lparr>config_Path = '''', config_Warning = map_option (\<lambda>l. (l, None)) (first_legacy stat found dir (Suc n))\<rparr>, False))"
      unfolding Suc.IH at leg ..
    finally show ?thesis using False by (simp add: find_upt_Suc split: option.split del: upt_Suc)
  qed
qed

text \<open>C26. The configuration file is the nearest one: of the directory of the start and the ninety-nine
  above it the first that has a \<open>.sops.pxf\<close>. The warning is about the first file of the old kind that
  was met in the directories below it.\<close>

theorem config_is_nearest:
  "LookupConfigFile stat start =
    (let dir = path_dir start
     in case find (\<lambda>k. stat (config_at dir k)) [0..<100] of
          Some k \<Rightarrow> (\<lparr>config_Path = config_at dir k,
            config_Warning = map_option (\<lambda>l. (l, Some (config_at dir k))) (find stat (legacy_until dir k))\<rparr>, True)
        | None \<Rightarrow> (\<lparr>config_Path = '''',
            config_Warning = map_option (\<lambda>l. (l, None)) (find stat (legacy_until dir 100))\<rparr>, False))"
  by (simp add: LookupConfigFile_def maxDepth_def lookup_config_eq first_legacy_def Let_def split: option.split)

section \<open>The keys of a group\<close>

lemma dedup_keys_props:
  "distinct (map key_identity (dedup_keys unique ks))"
  "key_identity ` set (dedup_keys unique ks) = key_identity ` set ks - set unique"
  "set (dedup_keys unique ks) \<subseteq> set ks"
proof (induction unique ks rule: dedup_keys.induct)
  case (2 unique v vs)
  {
    case 1 then show ?case using 2 by auto
  next
    case 2 then show ?case using "2.IH" by (auto split: if_splits)
  next
    case 3 then show ?case using 2 by auto
  }
qed auto

text \<open>
  The keys that a group lists, one rule for every kind of entry: the keys that the merged groups list,
  and for each type of key what its constructor makes of the entry. An age entry may hold several
  recipients.
\<close>

inductive listed :: "'i config_env \<Rightarrow> keyGroup \<Rightarrow> master_key \<Rightarrow> bool" for E where
  listed_merge: "grp \<in> set merge \<Longrightarrow> listed E grp k \<Longrightarrow> listed E (KeyGroup merge kms gcp hckms azure vault age pgp) k"
| listed_kms: "entry \<in> set kms \<Longrightarrow>
    listed E (KeyGroup merge kms gcp hckms azure vault age pgp)
      (KMS (NewMasterKeyWithProfile (key_clock E) (rule_Arn entry) (rule_Role entry) (rule_Context entry) (rule_AwsProfile entry)))"
| listed_gcp: "resourceID \<in> set gcp \<Longrightarrow>
    listed E (KeyGroup merge kms gcp hckms azure vault age pgp) (GCPKMS (NewMasterKeyFromResourceID (key_clock E) resourceID))"
| listed_hckms: "keyID \<in> set hckms \<Longrightarrow> hckms_NewMasterKey (key_clock E) keyID = Inr hk \<Longrightarrow>
    listed E (KeyGroup merge kms gcp hckms azure vault age pgp) (HCKMS hk)"
| listed_azure: "entry \<in> set azure \<Longrightarrow>
    NewMasterKeyWithOptionalVersion (fetch_version E) (key_clock E) (rule_VaultURL entry) (rule_Key entry) (rule_Version entry)
      = Inr ak \<Longrightarrow>
    listed E (KeyGroup merge kms gcp hckms azure vault age pgp) (AZKV ak)"
| listed_vault: "uri \<in> set vault \<Longrightarrow> NewMasterKeyFromURI (parse_url E) (key_clock E) uri = Inr (Some vk) \<Longrightarrow>
    listed E (KeyGroup merge kms gcp hckms azure vault age pgp) (HCVAULT vk)"
| listed_age: "recipients \<in> set age \<Longrightarrow> MasterKeysFromRecipients (age_of E) recipients = Inr aks \<Longrightarrow> ak \<in> set aks \<Longrightarrow>
    listed E (KeyGroup merge kms gcp hckms azure vault age pgp) (AGE ak)"
| listed_pgp: "fingerprint \<in> set pgp \<Longrightarrow>
    listed E (KeyGroup merge kms gcp hckms azure vault age pgp) (PGP (NewMasterKeyFromFingerprint (key_clock E) fingerprint))"

inductive_simps listed_group: "listed E (KeyGroup merge kms gcp hckms azure vault age pgp) k"

lemma dedup_Inr:
  assumes "deduplicateKeygroup grp = Inr ks"
  shows "distinct (map key_identity ks) \<and> set ks \<subseteq> the ` set grp \<and> None \<notin> set grp
    \<and> key_identity ` set ks = key_identity ` the ` set grp"
  using assms dedup_keys_props [of "[]" "map the grp"]
  by (auto simp: deduplicateKeygroup_def split: if_splits)

text \<open>A step over a list of entries gives what the steps over the entries give.\<close>

lemma set_mapE: "mapE f xs = Inr ys \<Longrightarrow> set ys = {y. \<exists>x\<in>set xs. f x = Inr y}"
proof (induction xs arbitrary: ys)
  case (Cons x xs)
  from Cons.prems obtain y zs where "f x = Inr y" "mapE f xs = Inr zs" "ys = y # zs" by auto
  with Cons.IH show ?case by auto
qed simp

lemma key_result_Inr [simp]: "key_result r = Inr x \<longleftrightarrow> r = Inr x"
  by (cases r) (simp_all add: key_result_def)

lemma age_result_Inr [simp]: "age_result r = Inr x \<longleftrightarrow> r = Inr x"
  by (cases r) (simp_all add: age_result_def)

lemma the_some_image:
  assumes "None \<notin> set v"
  shows "(\<lambda>x. the (map_option f x)) ` set v = {f y |y. Some y \<in> set v}"
proof (intro equalityI subsetI)
  fix k assume "k \<in> (\<lambda>x. the (map_option f x)) ` set v"
  then obtain x where "x \<in> set v" "k = the (map_option f x)" by auto
  with assms show "k \<in> {f y |y. Some y \<in> set v}" by (cases x) auto
next
  fix k assume "k \<in> {f y |y. Some y \<in> set v}"
  then obtain y where "k = f y" "Some y \<in> set v" by auto
  then show "k \<in> (\<lambda>x. the (map_option f x)) ` set v" by (intro image_eqI [of _ _ "Some y"]) simp_all
qed

lemma made_listed:
  assumes "mapE (\<lambda>k. age_result (MasterKeysFromRecipients (age_of E) k)) age = Inr a"
    and "mapE (\<lambda>k. key_result (hckms_NewMasterKey (key_clock E) k)) hckms = Inr h"
    and "mapE (\<lambda>k. key_result (NewMasterKeyWithOptionalVersion (fetch_version E) (key_clock E)
      (rule_VaultURL k) (rule_Key k) (rule_Version k))) azure = Inr z"
    and "mapE (\<lambda>k. key_result (NewMasterKeyFromURI (parse_url E) (key_clock E) k)) vault = Inr v"
  shows "k \<in> AGE ` \<Union> (set ` set a) \<union> ((\<lambda>k. PGP (NewMasterKeyFromFingerprint (key_clock E) k)) ` set pgp
      \<union> ((\<lambda>k. KMS (NewMasterKeyWithProfile (key_clock E) (rule_Arn k) (rule_Role k) (rule_Context k) (rule_AwsProfile k))) ` set kms
      \<union> ((\<lambda>k. GCPKMS (NewMasterKeyFromResourceID (key_clock E) k)) ` set gcp
      \<union> (HCKMS ` set h \<union> (AZKV ` set z \<union> {HCVAULT vk |vk. Some vk \<in> set v})))))
    \<longleftrightarrow> listed E (KeyGroup [] kms gcp hckms azure vault age pgp) k"
  unfolding set_mapE [OF assms(1)] set_mapE [OF assms(2)] set_mapE [OF assms(3)] set_mapE [OF assms(4)]
  by (cases k) (auto simp: listed_group image_iff)

text \<open>The keys of a group before duplicates are removed: those of the merged groups and those it lists itself.\<close>

lemma extract_split:
  assumes "extractMasterKeys E (KeyGroup merge kms gcp hckms azure vault age pgp) = Inr ks"
  shows "\<exists>merged found. mapE (extractMasterKeys E) merge = Inr merged \<and> deduplicateKeygroup found = Inr ks
    \<and> the ` set found = \<Union> (set ` set merged) \<union> {k. listed E (KeyGroup [] kms gcp hckms azure vault age pgp) k}"
proof -
  obtain merged a h z v where parts: "mapE (extractMasterKeys E) merge = Inr merged"
      "mapE (\<lambda>k. age_result (MasterKeysFromRecipients (age_of E) k)) age = Inr a"
      "mapE (\<lambda>k. key_result (hckms_NewMasterKey (key_clock E) k)) hckms = Inr h"
      "mapE (\<lambda>k. key_result (NewMasterKeyWithOptionalVersion (fetch_version E) (key_clock E)
         (rule_VaultURL k) (rule_Key k) (rule_Version k))) azure = Inr z"
      "mapE (\<lambda>k. key_result (NewMasterKeyFromURI (parse_url E) (key_clock E) k)) vault = Inr v"
    and all: "deduplicateKeygroup (map Some (concat merged @ map AGE (concat a)
            @ map (\<lambda>k. PGP (NewMasterKeyFromFingerprint (key_clock E) k)) pgp
            @ map (\<lambda>k. KMS (NewMasterKeyWithProfile (key_clock E) (rule_Arn k) (rule_Role k) (rule_Context k) (rule_AwsProfile k))) kms
            @ map (\<lambda>k. GCPKMS (NewMasterKeyFromResourceID (key_clock E) k)) gcp
            @ map HCKMS h @ map AZKV z)
          @ map (map_option HCVAULT) v) = Inr ks" (is "deduplicateKeygroup ?found = _")
    using assms by (auto simp del: map_append)
  have "None \<notin> set v" using dedup_Inr [OF all] by auto
  then have "the ` set ?found = \<Union> (set ` set merged) \<union> {k. listed E (KeyGroup [] kms gcp hckms azure vault age pgp) k}"
    unfolding made_listed [OF parts(2-5), symmetric] Collect_mem_eq
    by (simp add: image_Un image_image Un_assoc the_some_image)
  with parts(1) all show ?thesis by blast
qed

lemma extract_keys_listed:
  assumes "extractMasterKeys E (KeyGroup merge kms gcp hckms azure vault age pgp) = Inr ks"
    and "\<And>g gks. g \<in> set merge \<Longrightarrow> extractMasterKeys E g = Inr gks \<Longrightarrow>
      set gks \<subseteq> {k. listed E g k} \<and> key_identity ` set gks = key_identity ` {k. listed E g k}"
  shows "set ks \<subseteq> {k. listed E (KeyGroup merge kms gcp hckms azure vault age pgp) k}
    \<and> key_identity ` set ks = key_identity ` {k. listed E (KeyGroup merge kms gcp hckms azure vault age pgp) k}"
proof -
  let ?own = "{k. listed E (KeyGroup [] kms gcp hckms azure vault age pgp) k}"
  let ?merged = "\<Union>g\<in>set merge. {k. listed E g k}"
  obtain merged found where parts: "mapE (extractMasterKeys E) merge = Inr merged" "deduplicateKeygroup found = Inr ks"
    and found: "the ` set found = \<Union> (set ` set merged) \<union> ?own"
    using extract_split [OF assms(1)] by blast
  from found dedup_Inr [OF parts(2)] have keys: "set ks \<subseteq> \<Union> (set ` set merged) \<union> ?own"
      "key_identity ` set ks = key_identity ` \<Union> (set ` set merged) \<union> key_identity ` ?own"
    by (simp_all add: image_Un)
  have each: "set gks \<subseteq> {k. listed E g k}" "key_identity ` set gks = key_identity ` {k. listed E g k}"
    if "g \<in> set merge" "extractMasterKeys E g = Inr gks" for g gks
    using assms(2) [OF that] by auto
  have "\<exists>gks. extractMasterKeys E g = Inr gks" if "g \<in> set merge" for g
    using that mapE_nth [OF parts(1)] by (metis in_set_conv_nth)
  with each have merged: "\<Union> (set ` set merged) \<subseteq> ?merged" "key_identity ` \<Union> (set ` set merged) = key_identity ` ?merged"
    unfolding set_mapE [OF parts(1)] image_UN by (blast, fastforce)
  have L: "{k. listed E (KeyGroup merge kms gcp hckms azure vault age pgp) k} = ?merged \<union> ?own"
    by (auto simp: listed_group)
  show ?thesis unfolding L image_Un keys(2) merged(2) using keys(1) merged(1) by blast
qed

text \<open>C13. The keys of a group of the configuration: no two have the same type and name, each is listed by
  the group or, recursively, by a group that it merges, and every key that they list is there, up to its
  type and name.\<close>

theorem extracted_keys:
  assumes "extractMasterKeys E grp = Inr ks"
  shows "distinct (map key_identity ks) \<and> (\<forall>k\<in>set ks. listed E grp k)
    \<and> key_identity ` set ks = key_identity ` {k. listed E grp k}"
proof -
  have "set ks \<subseteq> {k. listed E grp k} \<and> key_identity ` set ks = key_identity ` {k. listed E grp k}"
    using assms
  proof (induction E grp arbitrary: ks rule: extractMasterKeys.induct)
    case (1 E merge kms gcp hckms azure vault age pgp)
    show ?case by (rule extract_keys_listed [OF 1(2)]) (use 1(1) in blast)
  qed
  moreover have "distinct (map key_identity ks)"
    using assms by (cases grp) (auto dest: dedup_Inr)
  ultimately show ?thesis by blast
qed


text \<open>C32. An empty string among the Vault URIs of a group makes loading the configuration panic, where
  every key before it can be made: the URI gives a nil key, which is asked for its name.\<close>

theorem empty_vault_uri_panics:
  assumes "'''' \<in> set vault" "mapE (extractMasterKeys E) merge = Inr merged"
    and "mapE (\<lambda>k. age_result (MasterKeysFromRecipients (age_of E) k)) age = Inr ageKeys"
    and "mapE (\<lambda>k. key_result (hckms_NewMasterKey (key_clock E) k)) hckms = Inr hckmsKeys"
    and "mapE (\<lambda>k. key_result (NewMasterKeyWithOptionalVersion (fetch_version E) (key_clock E)
         (rule_VaultURL k) (rule_Key k) (rule_Version k))) azure = Inr azureKeys"
    and "mapE (\<lambda>k. key_result (NewMasterKeyFromURI (parse_url E) (key_clock E) k)) vault = Inr vaultKeys"
  shows "extractMasterKeys E (KeyGroup merge kms gcp hckms azure vault age pgp) = Inl PanicNilVaultKey"
proof -
  obtain i where i: "i < length vault" "vault ! i = ''''" using assms(1) by (auto simp: in_set_conv_nth)
  have "vaultKeys ! i = None"
    using mapE_nth [OF assms(6) i(1)] i(2) by (simp add: NewMasterKeyFromURI_def key_result_def)
  then have "None \<in> set vaultKeys" using i(1) mapE_length [OF assms(6)] by (metis nth_mem)
  then show ?thesis using assms(2-6) by (simp add: deduplicateKeygroup_def image_iff)
qed

section \<open>Witnesses\<close>

definition plain_age :: "string age_env" where
  "plain_age = \<lparr>lookup_env = (\<lambda>v. None), read_file = (\<lambda>p. Some ''''), open_file = (\<lambda>p. None), file_exists = (\<lambda>p. False), home_dir = None,
     shlex = (\<lambda>s. None), run_command = (\<lambda>args r. None), parse_plugin = (\<lambda>s. None), parse_hybrid = (\<lambda>s. None),
     parse_x25519 = (\<lambda>s. None), identity_recipient = id, encrypted_identity = (\<lambda>source contents. contents),
     unarmor = (\<lambda>s. None), agessh_parse = (\<lambda>s. SSHMalformed), authorized_key = (\<lambda>s. None),
     encrypted_ssh = (\<lambda>k s. None), pxf_unmarshal = (\<lambda>s. None), parse_recipient = (\<lambda>k s. True)\<rparr>"

definition plain_config :: "string config_env" where
  "plain_config = \<lparr>age_of = plain_age, fetch_version = (\<lambda>u k. None), parse_url = (\<lambda>u. None),
     key_clock = \<lparr>seconds = 0, nanoseconds = 0, location = 0\<rparr>, regexp_match = (\<lambda>p s. Some (p = s)),
     abs_dir = Some, pxf_config = (\<lambda>s. None)\<rparr>"

lemma extracted_keys_witness:
  "\<exists>ks. extractMasterKeys plain_config (KeyGroup [KeyGroup [] [] [''r''] [] [] [] [''age1a''] []] [] [] [] [] [] [''age1a,age1b''] [''AB CD'']) = Inr ks
    \<and> distinct (map key_identity ks)
    \<and> (''gcp_kms'', ''r'') \<in> key_identity ` set ks \<and> (''pgp'', ''ABCD'') \<in> key_identity ` set ks"
proof -
  let ?grp = "KeyGroup [KeyGroup [] [] [''r''] [] [] [] [''age1a''] []] [] [] [] [] [] [''age1a,age1b''] [''AB CD'']"
  have "\<not> isl (extractMasterKeys plain_config ?grp)" by code_simp
  then obtain ks where ks: "extractMasterKeys plain_config ?grp = Inr ks"
    by (auto simp: not_isl_iff)
  have "listed plain_config ?grp (PGP (NewMasterKeyFromFingerprint (key_clock plain_config) ''AB CD''))"
    "listed plain_config ?grp (GCPKMS (NewMasterKeyFromResourceID (key_clock plain_config) ''r''))"
    by (simp_all add: listed_group)
  with extracted_keys [OF ks] have
      "key_identity (PGP (NewMasterKeyFromFingerprint (key_clock plain_config) ''AB CD'')) \<in> key_identity ` set ks"
      "key_identity (GCPKMS (NewMasterKeyFromResourceID (key_clock plain_config) ''r'')) \<in> key_identity ` set ks"
    by simp_all
  moreover have "key_identity (PGP (NewMasterKeyFromFingerprint (key_clock plain_config) ''AB CD'')) = (''pgp'', ''ABCD'')"
    "key_identity (GCPKMS (NewMasterKeyFromResourceID (key_clock plain_config) ''r'')) = (''gcp_kms'', ''r'')"
    by code_simp+
  ultimately show ?thesis using ks extracted_keys [OF ks] by auto
qed

lemma empty_vault_uri_panics_witness:
  "extractMasterKeys plain_config (KeyGroup [] [] [] [] [] [''''] [] [''ABCD'']) = Inl PanicNilVaultKey"
  by (rule empty_vault_uri_panics [where merged = "[]" and ageKeys = "[]" and hckmsKeys = "[]" and azureKeys = "[]"
        and vaultKeys = "[None]"])
    (simp_all add: NewMasterKeyFromURI_def key_result_def)

end
