(* ===== verification/Options_Correct.thy ===== *)
theory Options_Correct
  imports Publish Key_Commands_Correct Config_Correct
begin

text \<open>
  The command line: a new file gets exactly one rule; the encryption context is lost on the way to the
  keys of the configuration; a path that is printed is parsed again, and what makes the parser panic;
  and \<open>publish\<close> forgets the regular expressions of its rule.
\<close>

section \<open>The rules of a new file\<close>

text \<open>The rules that the flags and the configuration give.\<close>

definition given_rules :: "cli \<Rightarrow> bool \<Rightarrow> Config option \<Rightarrow> string list" where
  "given_rules c single conf = (if single then [] else filter (\<lambda>s. s \<noteq> '''')
     [flag_or (c_String c ''unencrypted-suffix'') conf conf_UnencryptedSuffix,
      flag_or (c_String c ''encrypted-suffix'') conf conf_EncryptedSuffix,
      flag_or (c_String c ''unencrypted-regex'') conf conf_UnencryptedRegex,
      flag_or (c_String c ''encrypted-regex'') conf conf_EncryptedRegex,
      flag_or (c_String c ''unencrypted-comment-regex'') conf conf_UnencryptedCommentRegex,
      flag_or (c_String c ''encrypted-comment-regex'') conf conf_EncryptedCommentRegex])"

lemma one_rule:
  assumes "\<not> 1 < length (filter (\<lambda>s. s \<noteq> '''') [u, e, er, ur, ec, uc])" "d \<noteq> ''''"
  shows "length (filter (\<lambda>s. s \<noteq> '''') [u, e, ur, er, uc, ec]) \<le> 1
    \<and> (if length (filter (\<lambda>s. s \<noteq> '''') [u, e, er, ur, ec, uc]) = 0
       then filter (\<lambda>s. s \<noteq> '''') [u, e, ur, er, uc, ec] = [] \<and> filter (\<lambda>s. s \<noteq> '''') [d, e, ur, er, uc, ec] = [d]
       else length (filter (\<lambda>s. s \<noteq> '''') [u, e, ur, er, uc, ec]) = 1)"
  using assms
  by (cases "u = ''''"; cases "e = ''''"; cases "er = ''''"; cases "ur = ''''"; cases "ec = ''''"; cases "uc = ''''") simp_all

lemma getEncryptConfig_steps:
  assumes "getEncryptConfig c E stat path single conf0 = Inr cfg"
  shows "\<exists>conf. (case conf0 of Some cf \<Rightarrow> Inr (Some cf) | None \<Rightarrow> config_result (loadConfig c E stat path None)) = Inr conf
    \<and> length (given_rules c single conf) \<le> 1
    \<and> crypt_rules (metadataFromEncryptionConfig cfg) =
        (if given_rules c single conf = [] \<and> \<not> single then [DefaultUnencryptedSuffix] else given_rules c single conf)
    \<and> keyGroups c E stat path conf = Inr (config_KeyGroups cfg)
    \<and> shamirThreshold c E stat path conf = Inr (config_GroupThreshold cfg)"
proof -
  obtain conf where conf: "(case conf0 of Some cf \<Rightarrow> Inr (Some cf) | None \<Rightarrow> config_result (loadConfig c E stat path None)) = Inr conf"
    using assms unfolding getEncryptConfig_def by blast
  show ?thesis
  proof (cases single)
    case True
    then show ?thesis
      using assms conf unfolding getEncryptConfig_def
      by (intro exI [of _ conf])
        (auto simp: Let_def given_rules_def crypt_rules_def metadataFromEncryptionConfig_def)
  next
    case False
    define u e ur er uc ec where flags: "u = flag_or (c_String c ''unencrypted-suffix'') conf conf_UnencryptedSuffix"
      "e = flag_or (c_String c ''encrypted-suffix'') conf conf_EncryptedSuffix"
      "ur = flag_or (c_String c ''unencrypted-regex'') conf conf_UnencryptedRegex"
      "er = flag_or (c_String c ''encrypted-regex'') conf conf_EncryptedRegex"
      "uc = flag_or (c_String c ''unencrypted-comment-regex'') conf conf_UnencryptedCommentRegex"
      "ec = flag_or (c_String c ''encrypted-comment-regex'') conf conf_EncryptedCommentRegex"
    define n where "n = length (filter (\<lambda>s. s \<noteq> '''') [u, e, er, ur, ec, uc])"
    have "\<not> 1 < n \<and> (\<exists>groups threshold mac. keyGroups c E stat path conf = Inr groups
      \<and> shamirThreshold c E stat path conf = Inr threshold
      \<and> cfg = \<lparr>config_UnencryptedSuffix = (if n = 0 then DefaultUnencryptedSuffix else u), config_EncryptedSuffix = e,
          config_UnencryptedRegex = ur, config_EncryptedRegex = er, config_UnencryptedCommentRegex = uc,
          config_EncryptedCommentRegex = ec, config_MACOnlyEncrypted = mac, config_KeyGroups = groups,
          config_GroupThreshold = threshold\<rparr>)"
      using assms False unfolding getEncryptConfig_def conf bindE_Inr Let_def n_def flags
      by (auto simp del: filter.simps split: if_split_asm)
    then obtain groups threshold mac where cfg: "\<not> 1 < n" "keyGroups c E stat path conf = Inr groups"
        "shamirThreshold c E stat path conf = Inr threshold"
        "cfg = \<lparr>config_UnencryptedSuffix = (if n = 0 then DefaultUnencryptedSuffix else u), config_EncryptedSuffix = e,
          config_UnencryptedRegex = ur, config_EncryptedRegex = er, config_UnencryptedCommentRegex = uc,
          config_EncryptedCommentRegex = ec, config_MACOnlyEncrypted = mac, config_KeyGroups = groups,
          config_GroupThreshold = threshold\<rparr>" by blast
    have given: "given_rules c single conf = filter (\<lambda>s. s \<noteq> '''') [u, e, ur, er, uc, ec]"
      using False unfolding given_rules_def flags by simp
    have kept: "crypt_rules (metadataFromEncryptionConfig cfg) =
        filter (\<lambda>s. s \<noteq> '''') [if n = 0 then DefaultUnencryptedSuffix else u, e, ur, er, uc, ec]"
      unfolding crypt_rules_def metadataFromEncryptionConfig_def cfg(4) by (simp del: filter.simps)
    have "DefaultUnencryptedSuffix \<noteq> ''''" by (simp add: DefaultUnencryptedSuffix_def)
    from one_rule [OF cfg(1) [unfolded n_def] this] have
        "length (given_rules c single conf) \<le> 1" "crypt_rules (metadataFromEncryptionConfig cfg) =
          (if given_rules c single conf = [] then [DefaultUnencryptedSuffix] else given_rules c single conf)"
      unfolding given kept n_def by (auto simp del: filter.simps split: if_splits)
    with conf cfg(2-4) False show ?thesis by (intro exI [of _ conf]) simp
  qed
qed

text \<open>C14. A file that is encrypted from the command line has exactly one rule for what to encrypt, the one that
  the flags or the configuration give or else the default suffix; the key of a binary file has none.\<close>

theorem new_file_rules:
  assumes "getEncryptConfig c E stat path single conf0 = Inr cfg"
  shows "length (crypt_rules (metadataFromEncryptionConfig cfg)) = (if single then 0 else 1)
    \<and> (\<exists>conf. (conf0 \<noteq> None \<longrightarrow> conf = conf0) \<and> crypt_rules (metadataFromEncryptionConfig cfg) \<in>
        {given_rules c single conf, [DefaultUnencryptedSuffix]})"
proof -
  obtain conf where conf: "(case conf0 of Some cf \<Rightarrow> Inr (Some cf) | None \<Rightarrow> config_result (loadConfig c E stat path None)) = Inr conf"
      "length (given_rules c single conf) \<le> 1"
      "crypt_rules (metadataFromEncryptionConfig cfg) =
        (if given_rules c single conf = [] \<and> \<not> single then [DefaultUnencryptedSuffix] else given_rules c single conf)"
    using getEncryptConfig_steps [OF assms] by blast
  have "length (given_rules c single conf) = 1" if "given_rules c single conf \<noteq> []"
    using conf(2) that by (cases "given_rules c single conf") auto
  moreover have "given_rules c True conf = []" by (simp add: given_rules_def)
  ultimately have "length (crypt_rules (metadataFromEncryptionConfig cfg)) = (if single then 0 else 1)"
      "crypt_rules (metadataFromEncryptionConfig cfg) \<in> {given_rules c single conf, [DefaultUnencryptedSuffix]}"
    using conf(3) by (cases single; cases "given_rules c single conf = []"; simp)+
  moreover have "conf0 \<noteq> None \<longrightarrow> conf = conf0" using conf(1) by (cases conf0) auto
  ultimately show ?thesis by blast
qed

text \<open>The comment says that flags have precedence over the configuration. A flag for one rule does not
  replace another rule of the configuration, though: the two are a conflict.\<close>

lemma flag_conflicts_with_config:
  assumes "c_String c ''encrypted-regex'' \<noteq> ''''" "conf_UnencryptedSuffix conf \<noteq> ''''"
  shows "getEncryptConfig c E stat path False (Some conf) = Inl ConflictingParameters"
proof -
  have "flag_or (c_String c ''encrypted-regex'') (Some conf) conf_EncryptedRegex \<noteq> ''''"
    "flag_or (c_String c ''unencrypted-suffix'') (Some conf) conf_UnencryptedSuffix \<noteq> ''''"
    using assms by (auto simp: flag_or_def)
  then show ?thesis by (simp add: getEncryptConfig_def Let_def)
qed

section \<open>The encryption context\<close>

definition key_flags :: "string list" where
  "key_flags = [''kms'', ''pgp'', ''gcp-kms'', ''hckms'', ''azure-kv'', ''hc-vault-transit'']"

definition valid_context :: "string \<Rightarrow> bool" where
  "valid_context ctx \<longleftrightarrow> ctx = '''' \<or> ParseKMSContext (ContextString ctx) \<noteq> None"

lemma keyGroups_of_config:
  assumes "\<forall>flag\<in>set key_flags. c_String c flag = ''''" "age_recipients c (age_of E) = Inr ''''"
    and "valid_context (c_String c ''encryption-context'')"
  shows "keyGroups c E stat path (Some conf) = Inr (conf_KeyGroups conf)"
  using assms
  by (auto simp: keyGroups_def key_flags_def valid_context_def Let_def config_result_def key_result_def age_result_def
      NewMasterKeyFromKeyIDString_def MasterKeysFromURLs_def NewMasterKeysFromURIs_def MasterKeysFromRecipients_def)

text \<open>C28. The flag \<open>--encryption-context\<close> is lost when the keys come from the configuration: the rules are
  loaded without it before the key groups are asked for, so a new file gets the same configuration
  whatever context is given. Only a context in the wrong format is noticed.\<close>

theorem encryption_context_ignored:
  fixes c :: cli
  defines "with_context \<equiv> \<lambda>ctx. c\<lparr>c_String := (c_String c)(''encryption-context'' := ctx)\<rparr>"
  assumes "\<forall>flag\<in>set key_flags. c_String c flag = ''''" "age_recipients c (age_of E) = Inr ''''"
    and "loadConfig c E stat path None = Inr (Some conf)" "valid_context ctx"
  shows "getEncryptConfig (with_context ctx) E stat path single None = getEncryptConfig (with_context '''') E stat path single None"
proof -
  have load: "loadConfig (with_context x) E stat path None = Inr (Some conf)" for x
    using assms(4) by (simp add: loadConfig_def with_context_def cong: if_cong option.case_cong split del: if_split)
  have other: "flag \<noteq> ''encryption-context'' \<Longrightarrow> c_String (with_context x) flag = c_String c flag" for flag x
    by (simp add: with_context_def)
  have rest: "c_GlobalBool (with_context x) = c_GlobalBool c" "c_Int (with_context x) = c_Int c" for x
    by (simp_all add: with_context_def)
  have groups: "keyGroups (with_context x) E stat path (Some conf) = Inr (conf_KeyGroups conf)" if "valid_context x" for x
  proof (rule keyGroups_of_config)
    show "\<forall>flag\<in>set key_flags. c_String (with_context x) flag = ''''"
      using assms(2) by (simp add: key_flags_def other)
    show "age_recipients (with_context x) (age_of E) = Inr ''''"
      using assms(3) by (simp add: age_recipients_def other cong: if_cong split del: if_split)
    show "valid_context (c_String (with_context x) ''encryption-context'')"
      using that by (simp add: with_context_def)
  qed
  have "valid_context ''''" by (simp add: valid_context_def)
  with groups [OF this] groups [OF assms(5)] show ?thesis
    by (simp add: getEncryptConfig_def load config_result_def other rest shamirThreshold_def Let_def
        del: filter.simps cong: if_cong split del: if_split)
qed

section \<open>Paths\<close>

fun print_component :: "gkey \<Rightarrow> string" where
  "print_component (KStr s) = CHR ''['' # CHR 0x22 # s @ [CHR 0x22, CHR '']'']"
| "print_component (KInt i) = CHR ''['' # itoa i @ [CHR '']'']"
| "print_component k = ''''"

fun addressable_key :: "gkey \<Rightarrow> bool" where
  "addressable_key (KStr s) = (CHR ''['' \<notin> set s)"
| "addressable_key (KInt i) = (min_int64 \<le> i \<and> i \<le> max_int64)"
| "addressable_key k = False"

lemma itoa_chars: "{CHR ''['', CHR 0x22, CHR 0x27} \<inter> set (itoa i) = {}"
proof -
  have digits: "digit_char d \<notin> {CHR ''['', CHR 0x22, CHR 0x27}" if "d < 10" for d
  proof -
    from that have "d \<in> {0, 1, 2, 3, 4, 5, 6, 7, 8, 9}" by auto
    then show ?thesis by (elim insertE) (simp_all add: digit_char_def char_of_def)
  qed
  have "{CHR ''['', CHR 0x22, CHR 0x27} \<inter> set (nat_dec n) = {}" for n
  proof (rule equals0I)
    fix x assume "x \<in> {CHR ''['', CHR 0x22, CHR 0x27} \<inter> set (nat_dec n)"
    then obtain d where "d < 10" "x = digit_char d" using nat_dec_digits [of x n] by auto
    with digits [of d] \<open>x \<in> _\<close> show False by simp
  qed
  then show ?thesis by (auto simp: itoa_def)
qed

lemma parse_print_component:
  assumes "addressable_key k"
  shows "\<exists>inner. print_component k = CHR ''['' # inner \<and> CHR ''['' \<notin> set inner \<and> inner \<noteq> []
    \<and> parse_component inner = Inr k"
proof (cases k)
  case (KStr s)
  then show ?thesis using assms
    by (intro exI [of _ "CHR 0x22 # s @ [CHR 0x22, CHR '']'']"]) (simp add: parse_component_def butlast_append)
next
  case (KInt i)
  have "CHR ''['' \<notin> set (itoa i)" "hd (itoa i) \<noteq> CHR 0x22" "hd (itoa i) \<noteq> CHR 0x27"
    using itoa_chars [of i] hd_in_set [OF itoa_nonempty, of i] by (metis disjoint_iff insertCI)+
  then show ?thesis using KInt assms itoa_chars [of i] \<open>CHR ''['' \<notin> set (itoa i)\<close>
    by (intro exI [of _ "itoa i @ [CHR '']'']"]) (simp add: parse_component_def butlast_append atoi_itoa)
qed (use assms in auto)

text \<open>C27. A path printed with its strings in quotes is parsed back, as long as no key contains an opening
  bracket: such a key cannot be addressed at all.\<close>

theorem tree_path_round_trip:
  assumes "\<forall>k\<in>set path. addressable_key k"
  shows "parseTreePath (concat (map print_component path)) = Inr path"
proof -
  have "\<exists>inners. str_split CHR ''['' (concat (map print_component path)) = [] # inners
      \<and> mapE parse_component (filter (\<lambda>x. x \<noteq> '''') inners) = Inr path"
    using assms
  proof (induction path)
    case (Cons k path)
    then obtain inners where IH: "str_split CHR ''['' (concat (map print_component path)) = [] # inners"
        "mapE parse_component (filter (\<lambda>x. x \<noteq> '''') inners) = Inr path" by auto
    obtain inner where inner: "print_component k = CHR ''['' # inner" "CHR ''['' \<notin> set inner" "inner \<noteq> []"
        "parse_component inner = Inr k"
      using parse_print_component Cons.prems by (metis list.set_intros(1))
    have "str_split CHR ''['' (inner @ rest) = (inner @ hd (str_split CHR ''['' rest)) # tl (str_split CHR ''['' rest)" for rest
      using inner(2)
    proof (induction inner)
      case Nil
      then show ?case by (cases "str_split CHR ''['' rest") auto
    qed auto
    from this [of "concat (map print_component path)"] IH inner show ?case by simp
  qed simp
  then show ?thesis by (auto simp: parseTreePath_def)
qed

text \<open>C33. Empty brackets in a path, or brackets around a single quote character, make the parser panic
  instead of reporting an error.\<close>

theorem tree_path_panics:
  assumes "rest = '''' \<or> hd rest = CHR ''[''" "q = [] \<or> q = [CHR 0x22] \<or> q = [CHR 0x27]"
  shows "parseTreePath (CHR ''['' # q @ CHR '']'' # rest) = Inl PanicInOptions"
proof -
  obtain more where "str_split CHR ''['' rest = [] # more"
    using assms(1) by (cases rest) auto
  then have "str_split CHR ''['' (CHR ''['' # q @ CHR '']'' # rest) = [] # (q @ '']'') # more"
    using assms(2) by auto
  moreover have "parse_component (q @ '']'') = Inl PanicInOptions"
    using assms(2) by (auto simp: parse_component_def)
  ultimately show ?thesis by (simp add: parseTreePath_def)
qed

section \<open>publish\<close>

lemma lift_failure_eq_Inr [simp]: "lift_failure r = Inr x \<longleftrightarrow> r = Inr x"
  by (cases r) (auto simp: lift_failure_def)

lemma same_rules_updates: "same_rules (m\<lparr>LastModified := t, MessageAuthenticationCode := mac\<rparr>) m"
  by (simp add: same_rules_def)

text \<open>C31. Publishing a file to S3 or GCS under the keys of its rule drops every regular expression of that
  rule and \<open>mac_only_encrypted\<close>: of the rules only the two suffixes reach the published file.\<close>

theorem publish_drops_regexes:
  fixes S :: "('w, 'c, 's) cmd_env" and store :: "'e store"
  assumes "published_contents S store conf fileBytes tree st = Inr (contents, st')"
    and "conf_KeyGroups conf = (key # keys) # groups"
  shows "\<exists>published. store_EmitEncryptedFile store published = Inr contents
    \<and> same_rules (TreeMetadata published)
        (published_metadata (conf\<lparr>conf_EncryptedRegex := '''', conf_UnencryptedRegex := '''',
           conf_EncryptedCommentRegex := '''', conf_UnencryptedCommentRegex := '''', conf_MACOnlyEncrypted := False\<rparr>))
    \<and> EncryptedRegex (TreeMetadata published) = '''' \<and> UnencryptedRegex (TreeMetadata published) = ''''"
proof -
  obtain tree1 st1 dataKey tree2 st2 published where
      gen: "(GenerateTreeKey S (tree1\<lparr>TreeMetadata := published_metadata conf\<rparr>) st1 :: ('e, 'c) failure + _) = Inr (dataKey, tree2, st2)"
    and enc: "(EncryptTree S dataKey tree2 st2 :: ('e, 'c) failure + _) = Inr (published, st')"
    and out: "store_EmitEncryptedFile store published = Inr contents"
    using assms
    by (auto simp: published_contents_def lift_failure_eq_Inr marshal_def split: sum.splits)
  have "same_rules (TreeMetadata tree2) (published_metadata conf)"
    using GenerateTreeKey_update [OF gen] UpdateMasterKeys_keeps by fastforce
  moreover have "same_rules (TreeMetadata published) (TreeMetadata tree2)"
    using EncryptTree_metadata [OF enc] by (metis same_rules_updates)
  ultimately show ?thesis using out by (auto simp: same_rules_def published_metadata_def)
qed

section \<open>Witnesses\<close>

definition no_flags :: cli where
  "no_flags = \<lparr>c_String = (\<lambda>f. ''''), c_Bool = (\<lambda>f. False), c_Int = (\<lambda>f. 0),
     c_GlobalString = (\<lambda>f. if f = ''config'' then ''.sops.pxf'' else ''''), c_GlobalBool = (\<lambda>f. False), c_GlobalInt = (\<lambda>f. None)\<rparr>"

definition regex_flag :: cli where
  "regex_flag = no_flags\<lparr>c_String := (\<lambda>f. if f = ''encrypted-regex'' then ''^secret'' else if f = ''age'' then ''age1a'' else '''')\<rparr>"

definition plain_conf :: Config where
  "plain_conf = \<lparr>conf_KeyGroups = [[age_key ''age1a'']], conf_ShamirThreshold = 0, conf_UnencryptedSuffix = '''',
     conf_EncryptedSuffix = '''', conf_UnencryptedRegex = '''', conf_EncryptedRegex = ''^secret'',
     conf_UnencryptedCommentRegex = '''', conf_EncryptedCommentRegex = '''', conf_MACOnlyEncrypted = False,
     conf_Destination = None, conf_OmitExtensions = False\<rparr>"

lemma flags_make_config:
  "\<not> isl (getEncryptConfig regex_flag plain_config (\<lambda>p. False) ''f'' False (Some (plain_conf\<lparr>conf_EncryptedRegex := ''''\<rparr>)))"
  by code_simp

lemma new_file_rules_witness:
  "\<exists>cfg. getEncryptConfig regex_flag plain_config (\<lambda>p. False) ''f'' False (Some (plain_conf\<lparr>conf_EncryptedRegex := ''''\<rparr>)) = Inr cfg
    \<and> length (crypt_rules (metadataFromEncryptionConfig cfg)) = 1"
proof -
  obtain cfg where cfg: "getEncryptConfig regex_flag plain_config (\<lambda>p. False) ''f'' False
      (Some (plain_conf\<lparr>conf_EncryptedRegex := ''''\<rparr>)) = Inr cfg"
    using flags_make_config by (auto simp: not_isl_iff)
  with new_file_rules [OF cfg] show ?thesis by auto
qed

lemma flag_conflicts_with_config_witness:
  "getEncryptConfig regex_flag plain_config (\<lambda>p. False) ''f'' False (Some (plain_conf\<lparr>conf_UnencryptedSuffix := ''_clear''\<rparr>))
    = Inl ConflictingParameters"
  by (rule flag_conflicts_with_config) (simp_all add: regex_flag_def no_flags_def plain_conf_def)

lemma tree_path_round_trip_witness:
  "parseTreePath (concat (map print_component [KStr ''data'', KInt (- 3), KStr ''a.b''])) = Inr [KStr ''data'', KInt (- 3), KStr ''a.b'']"
  by (rule tree_path_round_trip) (simp add: min_int64_def max_int64_def)

lemma tree_path_panics_witness: "parseTreePath ''[][1]'' = Inl PanicInOptions"
  using tree_path_panics [of "''[1]''" "[]"] by simp

lemma table_publishes:
  "\<not> isl (published_contents table_env table_disk plain_conf None (table_tree ''E'') table_run)"
  by code_simp

lemma publish_drops_regexes_witness:
  "\<exists>published contents st'. published_contents table_env table_disk plain_conf None (table_tree ''E'') table_run = Inr (contents, st')
    \<and> store_EmitEncryptedFile table_disk published = Inr contents
    \<and> conf_EncryptedRegex plain_conf \<noteq> '''' \<and> EncryptedRegex (TreeMetadata published) = ''''"
proof -
  obtain contents st' where p: "published_contents table_env table_disk plain_conf None (table_tree ''E'') table_run = Inr (contents, st')"
    using table_publishes by (auto simp: not_isl_iff)
  have "conf_KeyGroups plain_conf = (age_key ''age1a'' # []) # []" by (simp add: plain_conf_def)
  from publish_drops_regexes [OF p this] p show ?thesis by (auto simp: plain_conf_def)
qed

text \<open>A configuration with one rule for every file.\<close>

definition one_rule :: pb_CreationRule where
  "one_rule = \<lparr>pb_PathRegex = '''', pb_rule_Kms = [''arn:aws:kms:eu:1:key/1''], pb_rule_AwsProfile = '''', pb_rule_Age = [],
     pb_rule_Pgp = [], pb_rule_GcpKms = [], pb_rule_Hckms = [], pb_rule_AzureKeyvault = [], pb_rule_HcVaultTransitUri = [],
     pb_KeyGroups = [], pb_ShamirThreshold = 0, pb_UnencryptedSuffix = '''', pb_EncryptedSuffix = '''',
     pb_UnencryptedRegex = '''', pb_EncryptedRegex = '''', pb_UnencryptedCommentRegex = '''',
     pb_EncryptedCommentRegex = '''', pb_MacOnlyEncrypted = False\<rparr>"

definition one_rule_config :: "string config_env" where
  "one_rule_config = plain_config\<lparr>pxf_config :=
     (\<lambda>s. Some \<lparr>pb_CreationRules = [one_rule], pb_DestinationRules = [], pb_Stores = None\<rparr>)\<rparr>"

lemma one_rule_loads:
  "case loadConfig no_flags one_rule_config (\<lambda>p. True) ''f'' None of
     Inr (Some conf) \<Rightarrow> conf_KeyGroups conf \<noteq> [] | _ \<Rightarrow> False"
  by code_simp

lemma no_age_recipients: "age_recipients no_flags (age_of one_rule_config) = Inr ''''"
  by code_simp

lemma encryption_context_ignored_witness:
  "getEncryptConfig (no_flags\<lparr>c_String := (c_String no_flags)(''encryption-context'' := ''role:admin'')\<rparr>)
      one_rule_config (\<lambda>p. True) ''f'' False None
    = getEncryptConfig (no_flags\<lparr>c_String := (c_String no_flags)(''encryption-context'' := '''')\<rparr>)
      one_rule_config (\<lambda>p. True) ''f'' False None"
proof -
  have flags: "\<forall>flag\<in>set key_flags. c_String no_flags flag = ''''" by (simp add: no_flags_def)
  obtain conf where "loadConfig no_flags one_rule_config (\<lambda>p. True) ''f'' None = Inr (Some conf)"
    using one_rule_loads by (auto split: sum.splits option.splits)
  moreover have "valid_context ''role:admin''" by code_simp
  ultimately show ?thesis by (rule encryption_context_ignored [OF flags no_age_recipients])
qed

end
