(* ===== verification/Spec2Isabelle.thy ===== *)
theory Spec2Isabelle
  imports Shamir_Sharing Tree_Paths Key_Commands_Correct Age_Keys_Correct Options_Correct
begin

text \<open>
  A model of sops, the editor of encrypted files, written in Go, and the theorems that make it correct.

  \<^bold>\<open>The program.\<close> A file is read by a \<^emph>\<open>store\<close> into a document tree and metadata. A random data key
  encrypts the leaves of the tree that the rules of the metadata select, and a MAC over the leaves; the
  data key itself is kept in the metadata, encrypted under the master keys of one or more key groups, which
  with more than one group share it by Shamir's scheme. Decryption recovers the data key from the key
  services, decrypts the leaves, and compares the MAC. The commands compose these steps with a store at
  either end; the configuration file and the flags choose the rules and the keys.

  \<^bold>\<open>The theories\<close>, below the directory \<open>src/\<close> of the repository. A function of the code is modelled by the
  definition of the same name, with a suffix or a package prefix where names clash; a structure is a record
  or a datatype with its fields; a loop with state is a recursive function over what it loops over.

  \<^item> \<open>Sops_Prelude\<close>: results \<open>'e + 'a\<close> with their sequencing (\<open>bindE\<close>, \<open>mapE\<close>, \<open>foldE\<close>), and what the code
    uses of the packages \<open>strings\<close> and \<open>strconv\<close>. \<open>Base64\<close>: \<open>encoding/base64\<close>.
  \<^item> \<open>Galois\<close>, \<open>Interpolation\<close>, \<open>Shamir_Sharing\<close>: \<open>shamir/shamir.go\<close>. The byte loops are shown to be the
    arithmetic of the field with 256 elements, \<open>Combine\<close> to be Lagrange's interpolation at zero.
  \<^item> \<open>Trees\<close>, \<open>Tree_Paths\<close>: the document of \<open>sops.go\<close>, its values, and setting, unsetting and reading at a path.
    The laws of a store of values at paths are the locale \<open>path_store\<close>.
  \<^item> \<open>Tree_Crypt\<close>, \<open>Tree_Crypt_Correct\<close>: the walk over the leaves in \<open>sops.go\<close>, the directives in comments, the
    decision what to encrypt, the MAC. What the walk needs of a cipher is the locale \<open>tree_cipher\<close>.
  \<^item> \<open>Aes_Cipher\<close>: \<open>aes/cipher.go\<close>, the text format of a value and the stash of nonces; interprets \<open>tree_cipher\<close>.
  \<^item> \<open>Master_Keys\<close>, \<open>Key_Sources\<close>: the packages \<open>pgp\<close>, \<open>kms\<close>, \<open>gcpkms\<close>, \<open>hckms\<close>, \<open>azkv\<close>, \<open>hcvault\<close> and \<open>age\<close>
    and \<open>keyservice/server.go\<close>: identifiers of keys and their parsers, the encryption of a data key by a
    key service up to the calls of the client libraries.
  \<^item> \<open>Key_Groups\<close>, \<open>Key_Groups_Correct\<close>: the update of all master keys and the recovery of the data key in
    \<open>sops.go\<close>, with the order of the attempts, cancellation and the cached key. What is asked of the
    services is the locale \<open>key_services\<close>, which the local key service interprets.
  \<^item> \<open>Flatten\<close>, \<open>Flatten_Correct\<close>: \<open>stores/flatten.go\<close>. \<open>Metadata_Store\<close>, \<open>Metadata_Correct\<close>: the stored form of
    the metadata in \<open>stores/stores.go\<close> and \<open>stores/metadata.go\<close>. \<open>Dotenv\<close>, \<open>Dotenv_Correct\<close>:
    \<open>stores/dotenv/store.go\<close>.
  \<^item> \<open>Commands\<close>, \<open>Commands_Correct\<close>: \<open>cmd/sops/common/common.go\<close> and the commands \<open>encrypt\<close>, \<open>decrypt\<close>, \<open>rotate\<close>,
    \<open>set\<close> and \<open>unset\<close> of \<open>cmd/sops\<close>. The state of a run is the record \<open>run\<close>: the world of the services, the state
    of the cipher and the random bytes that are left. A store is a record of functions; what the commands
    need of it is the locale \<open>file_store\<close>, which the dotenv store interprets, and \<open>file_cycle\<close>, with services
    and a cipher added, is where the life of a file is proved.
  \<^item> \<open>Key_Commands\<close>, \<open>Key_Commands_Correct\<close>: \<open>cmd/sops/edit.go\<close>, \<open>subcommand/updatekeys\<close>, \<open>subcommand/groups\<close>,
    \<open>subcommand/filestatus\<close>, the formats, and the Go packages \<open>encrypt\<close> and \<open>decrypt\<close>.
  \<^item> \<open>Age_Keys\<close>, \<open>Age_Keys_Correct\<close>: where the identities of age come from, \<open>age/keysource.go\<close>,
    \<open>age/encrypted_keys.go\<close>, \<open>age/ssh_parse.go\<close> and \<open>age/keypb\<close>.
  \<^item> \<open>Config\<close>, \<open>Config_Correct\<close>: \<open>config/config.go\<close>. \<open>Options\<close>, \<open>Options_Correct\<close>: what \<open>cmd/sops/main.go\<close>
    makes of its flags. \<open>Publish\<close>: \<open>subcommand/publish\<close> and the destinations of the package \<open>publish\<close>.
\<close>

text \<open>
  \<^bold>\<open>What is shown.\<close> Round trips: a dotenv file that was encrypted is decrypted to what it was, by other
  services of the same SDKs and at another time (\<open>dotenv_encrypt_decrypt\<close>), resting on the round trips
  of the tree, of a single value, of the stored metadata and of flattening; secret sharing is inverted by
  any threshold of shares, and fewer are consistent with every secret. Safety: the data key that is
  recovered is the right one or none, nothing is decrypted without its MAC over the bytes that
  \<open>document_covers\<close> describes, a rotated file is encrypted under a new data key that its new groups get,
  an update of the keys changes nothing else, a write at a path leaves the diverging paths alone. Liveness and termination: enough groups that answer give the data key, and the editing
  loop ends when the user gives up. Refinement: the sources of identities implement their union whatever the
  order. And how the code behaves where it fails: each theorem of the kind \<^emph>\<open>error\<close> states what
  the code does on inputs where that is not what it means to do.

  \<^bold>\<open>Parameters.\<close> Code outside the repository is an argument: \<open>golib\<close> (regular expressions, SHA-512, time
  formats, number formats), \<open>gcm\<close> (AES-GCM and its random nonces), \<open>sdk\<close> (client libraries), the decoder of
  \<open>mapstructure\<close>, \<open>semver\<close>, the user's \<open>editor\<close>, \<open>age_env\<close> (age, agessh, shlex, the PXF parser, files and the
  environment), \<open>config_env\<close>, and the flags \<open>cli\<close>. The theorems that need laws of these name them:
  \<open>gcm_lawful\<close> and \<open>sdk_lawful\<close> say that decryption inverts encryption; their witnesses instantiate them
  with concrete functions.

  \<^bold>\<open>Bounds.\<close> The editing loop has no bound in the code, so \<open>runEditorUntilOk\<close> has fuel and returns an option;
  \<open>edit_loop_ends\<close> shows that fuel beyond the patience of the user is enough. The search for the configuration
  goes up the hundred directories of \<open>maxDepth\<close>. Integers are unbounded with the bounds of \<open>int64\<close> checked where the code
  parses or converts; the bytes of the sharing scheme are 8-bit words.

  \<^bold>\<open>Not modelled.\<close> The stores for INI, JSON, YAML and PXF files: each converts between trees and the
  structures of a parser that is not in the repository, and what the commands need of a store is an
  interface here. The tables of flags and the printing of the command actions in \<open>main.go\<close>; sockets and the
  generated code of the remote key service; \<open>exec\<close>, which starts child processes; \<open>audit\<close>, which writes to a
  database; the migration of old configurations; logging, colours and completion; the uploads of
  \<open>publish\<close>. The interactive repair of files written before version 3.3.0 ends a run with the failure
  \<open>EntersContextBugFix\<close>, since it depends on an old fault of one cloud service. Temporary files are left out.
\<close>

end
